(* ===== verification/Prelude.thy ===== *)
theory Prelude
  imports "HOL-Library.Word" "HOL-Library.List_Lexorder" "HOL-Library.Char_ord"
    "HOL-Library.Multiset" "HOL-Library.Sublist"
begin

unbundle bit_operations_syntax

text \<open>
  Shared vocabulary of the development: the types that the components have in
  common, the pieces of the Rust standard library the sources use (byte views
  of strings, ASCII case folding, trimming, splitting, decimal rendering and
  integer parsing, \<^verbatim>\<open>Result\<close> chaining), the JSON values that travel through
  the audit log, and the generic lemmas on lists and words that the component
  proofs rest on.

  Conventions.  A Rust \<^verbatim>\<open>String\<close> is the list of its UTF-8 bytes, each as a
  \<^typ>\<open>char\<close>, so \<^verbatim>\<open>len()\<close> is \<^const>\<open>length\<close> and \<^verbatim>\<open>Ord\<close> is the lexicographic
  order.  An instant (\<^verbatim>\<open>chrono::DateTime<Utc>\<close>) is the integer number of
  nanoseconds since the Unix epoch.  A \<^verbatim>\<open>Result<T, E>\<close> is a sum with the error
  on the left.
\<close>

section \<open>Types\<close>

type_synonym byte = "8 word"
type_synonym i64 = "64 word"
type_synonym u32 = "32 word"
type_synonym instant = int
type_synonym ('e, 'a) result = "'e + 'a"

named_theorems result_simps \<open>evaluation of chained results\<close>
named_theorems table_simps \<open>lookups after updates of a table\<close>

section \<open>Results\<close>

fun rbind :: "('e, 'a) result \<Rightarrow> ('a \<Rightarrow> ('e, 'b) result) \<Rightarrow> ('e, 'b) result" where
  "rbind (Inl e) f = Inl e"
| "rbind (Inr a) f = f a"

fun map_err :: "('e \<Rightarrow> 'f) \<Rightarrow> ('e, 'a) result \<Rightarrow> ('f, 'a) result" where
  "map_err f (Inl e) = Inl (f e)"
| "map_err f (Inr a) = Inr a"

fun ok_or :: "'e \<Rightarrow> 'a option \<Rightarrow> ('e, 'a) result" where
  "ok_or e None = Inl e"
| "ok_or e (Some a) = Inr a"

definition ensure :: "bool \<Rightarrow> 'e \<Rightarrow> ('e, unit) result" where
  "ensure b e = (if b then Inr () else Inl e)"

fun collect_results :: "('a \<Rightarrow> ('e, 'b) result) \<Rightarrow> 'a list \<Rightarrow> ('e, 'b list) result" where
  "collect_results f [] = Inr []"
| "collect_results f (x # xs) =
     rbind (f x) (\<lambda>y. rbind (collect_results f xs) (\<lambda>ys. Inr (y # ys)))"

lemma rbind_Inr_iff [result_simps]:
  "rbind r f = Inr b \<longleftrightarrow> (\<exists>a. r = Inr a \<and> f a = Inr b)"
  by (cases r) auto

lemma rbind_Inl_iff [result_simps]:
  "rbind r f = Inl e \<longleftrightarrow> r = Inl e \<or> (\<exists>a. r = Inr a \<and> f a = Inl e)"
  by (cases r) auto

lemma map_err_Inr_iff [simp, result_simps]: "map_err f r = Inr a \<longleftrightarrow> r = Inr a"
  by (cases r) auto

lemma map_err_Inl_iff [result_simps]: "map_err f r = Inl e \<longleftrightarrow> (\<exists>d. r = Inl d \<and> e = f d)"
  by (cases r) auto

lemma ok_or_Inr_iff [simp, result_simps]: "ok_or e x = Inr a \<longleftrightarrow> x = Some a"
  by (cases x) auto

lemma ok_or_Inl_iff [result_simps]: "ok_or e x = Inl d \<longleftrightarrow> x = None \<and> d = e"
  by (cases x) auto

lemma ensure_Inr_iff [simp, result_simps]: "ensure b e = Inr u \<longleftrightarrow> b"
  by (simp add: ensure_def)

lemma ensure_Inl_iff [simp, result_simps]: "ensure b e = Inl d \<longleftrightarrow> \<not> b \<and> d = e"
  by (auto simp: ensure_def)

lemma ensure_True [simp]: "ensure True e = Inr ()"
  by (simp add: ensure_def)

lemma ensure_False [simp]: "ensure False e = Inl e"
  by (simp add: ensure_def)

lemma collect_results_Inr_iff:
  "collect_results f xs = Inr ys \<longleftrightarrow> list_all2 (\<lambda>x y. f x = Inr y) xs ys"
  by (induction xs arbitrary: ys) (auto simp: rbind_Inr_iff list_all2_Cons1)

lemma collect_results_map:
  "(\<And>x. x \<in> set xs \<Longrightarrow> f x = Inr (g x)) \<Longrightarrow> collect_results f xs = Inr (map g xs)"
  by (induction xs) auto

lemma collect_results_length: "collect_results f xs = Inr ys \<Longrightarrow> length ys = length xs"
  by (simp add: collect_results_Inr_iff list_all2_lengthD)

lemma collect_results_append:
  "collect_results f (xs @ ys) =
     rbind (collect_results f xs) (\<lambda>as. rbind (collect_results f ys) (\<lambda>bs. Inr (as @ bs)))"
proof (induction xs)
  case Nil
  show ?case by (cases "collect_results f ys") auto
next
  case (Cons x xs)
  then show ?case by (cases "f x"; cases "collect_results f xs"; cases "collect_results f ys") auto
qed

section \<open>Bytes of a string and constant-time comparison\<close>

definition as_bytes :: "string \<Rightarrow> byte list" where
  "as_bytes s = map of_char s"

lemma of_char_byte_eq_iff [simp]: "(of_char c :: byte) = of_char d \<longleftrightarrow> c = d"
proof
  assume "(of_char c :: byte) = of_char d"
  then have "(of_nat (of_char c) :: byte) = of_nat (of_char d)"
    by (simp add: of_nat_of_char)
  then have "(of_char c :: nat) mod 2 ^ 8 = of_char d mod 2 ^ 8"
    by (simp add: word_of_nat_eq_iff take_bit_eq_mod)
  then show "c = d" by simp
qed simp

lemma length_as_bytes [simp]: "length (as_bytes s) = length s"
  by (simp add: as_bytes_def)

lemma as_bytes_append [simp]: "as_bytes (s @ t) = as_bytes s @ as_bytes t"
  by (simp add: as_bytes_def)

lemma as_bytes_eq_iff [simp]: "as_bytes s = as_bytes t \<longleftrightarrow> s = t"
  by (simp add: as_bytes_def inj_map_eq_map inj_def)

text \<open>The accumulator loop shared by the two comparison routines of the sources.\<close>

definition xor_fold :: "byte list \<Rightarrow> byte list \<Rightarrow> byte" where
  "xor_fold xs ys = foldl (\<lambda>acc (a, b). acc OR (a XOR b)) 0 (zip xs ys)"

lemma word_or_eq_0_iff: "(a OR b :: 'a :: len word) = 0 \<longleftrightarrow> a = 0 \<and> b = 0"
  by (auto simp: bit_eq_iff bit_or_iff)

lemma word_xor_eq_0_iff: "(a XOR b :: 'a :: len word) = 0 \<longleftrightarrow> a = b"
  by (auto simp: bit_eq_iff bit_xor_iff)

lemma xor_foldl_eq_0_iff:
  assumes "length xs = length ys"
  shows "foldl (\<lambda>acc (a, b). acc OR (a XOR b)) z (zip xs ys) = (0 :: byte) \<longleftrightarrow> z = 0 \<and> xs = ys"
  using assms
  by (induction xs ys arbitrary: z rule: list_induct2)
    (simp_all add: word_or_eq_0_iff word_xor_eq_0_iff conj_assoc)

lemma xor_fold_eq_0_iff: "length xs = length ys \<Longrightarrow> xor_fold xs ys = 0 \<longleftrightarrow> xs = ys"
  by (simp add: xor_fold_def xor_foldl_eq_0_iff)

section \<open>Characters and strings\<close>

definition char_code :: "char \<Rightarrow> nat" where
  "char_code c = of_char c"

lemma char_code_inject [simp]: "char_code c = char_code d \<longleftrightarrow> c = d"
  by (simp add: char_code_def)

definition is_ascii_digit :: "char \<Rightarrow> bool" where
  "is_ascii_digit c \<longleftrightarrow> 48 \<le> char_code c \<and> char_code c \<le> 57"

definition is_ascii_lowercase :: "char \<Rightarrow> bool" where
  "is_ascii_lowercase c \<longleftrightarrow> 97 \<le> char_code c \<and> char_code c \<le> 122"

definition is_ascii_uppercase :: "char \<Rightarrow> bool" where
  "is_ascii_uppercase c \<longleftrightarrow> 65 \<le> char_code c \<and> char_code c \<le> 90"

definition is_ascii_alphanumeric :: "char \<Rightarrow> bool" where
  "is_ascii_alphanumeric c \<longleftrightarrow> is_ascii_digit c \<or> is_ascii_lowercase c \<or> is_ascii_uppercase c"

definition is_ascii_hexdigit :: "char \<Rightarrow> bool" where
  "is_ascii_hexdigit c \<longleftrightarrow> is_ascii_digit c
     \<or> (97 \<le> char_code c \<and> char_code c \<le> 102) \<or> (65 \<le> char_code c \<and> char_code c \<le> 70)"

definition is_ascii_control :: "char \<Rightarrow> bool" where
  "is_ascii_control c \<longleftrightarrow> char_code c < 32 \<or> char_code c = 127"

text \<open>The ASCII range in which \<^verbatim>\<open>HeaderValue::to_str\<close> succeeds.\<close>

definition is_visible_ascii :: "char \<Rightarrow> bool" where
  "is_visible_ascii c \<longleftrightarrow> (32 \<le> char_code c \<and> char_code c < 127) \<or> char_code c = 9"

definition ascii_lower :: "char \<Rightarrow> char" where
  "ascii_lower c = (if is_ascii_uppercase c then char_of (char_code c + 32) else c)"

definition to_ascii_lowercase :: "string \<Rightarrow> string" where
  "to_ascii_lowercase s = map ascii_lower s"

definition eq_ignore_ascii_case :: "string \<Rightarrow> string \<Rightarrow> bool" where
  "eq_ignore_ascii_case s t \<longleftrightarrow> to_ascii_lowercase s = to_ascii_lowercase t"

lemma eq_ignore_ascii_case_refl [simp]: "eq_ignore_ascii_case s s"
  by (simp add: eq_ignore_ascii_case_def)

lemma eq_ignore_ascii_case_sym: "eq_ignore_ascii_case s t \<Longrightarrow> eq_ignore_ascii_case t s"
  by (simp add: eq_ignore_ascii_case_def)

lemma eq_ignore_ascii_case_trans:
  "eq_ignore_ascii_case s t \<Longrightarrow> eq_ignore_ascii_case t u \<Longrightarrow> eq_ignore_ascii_case s u"
  by (simp add: eq_ignore_ascii_case_def)

text \<open>\<^verbatim>\<open>str::split(char)\<close> always yields at least one piece.\<close>

fun split_on :: "char \<Rightarrow> string \<Rightarrow> string list" where
  "split_on d [] = [[]]"
| "split_on d (c # cs) =
     (if c = d then [] # split_on d cs
      else case split_on d cs of [] \<Rightarrow> [[c]] | p # ps \<Rightarrow> (c # p) # ps)"

fun join :: "string \<Rightarrow> string list \<Rightarrow> string" where
  "join sep [] = []"
| "join sep [x] = x"
| "join sep (x # y # ys) = x @ sep @ join sep (y # ys)"

lemma split_on_not_Nil [simp]: "split_on d s \<noteq> []"
  by (induction s) (auto split: list.splits)

lemma split_on_no_delim: "p \<in> set (split_on d s) \<Longrightarrow> d \<notin> set p"
  by (induction s arbitrary: p) (auto split: list.splits if_splits)

lemma join_split_on: "join [d] (split_on d s) = s"
proof (induction s)
  case Nil
  show ?case by simp
next
  case (Cons c cs)
  obtain p ps where p: "split_on d cs = p # ps"
    by (cases "split_on d cs") auto
  then show ?case using Cons by (cases ps) auto
qed

lemma split_on_append_delim: "d \<notin> set x \<Longrightarrow> split_on d (x @ d # y) = x # split_on d y"
  by (induction x) auto

lemma split_on_no_delim_id: "d \<notin> set x \<Longrightarrow> split_on d x = [x]"
  by (induction x) auto

lemma split_on_join:
  "xs \<noteq> [] \<Longrightarrow> (\<And>x. x \<in> set xs \<Longrightarrow> d \<notin> set x) \<Longrightarrow> split_on d (join [d] xs) = xs"
  by (induction "[d]" xs rule: join.induct)
    (auto simp: split_on_append_delim split_on_no_delim_id)

lemma join_inject:
  assumes "join [d] xs = join [d] ys" "xs \<noteq> []" "ys \<noteq> []"
    and "\<forall>x \<in> set xs. d \<notin> set x" "\<forall>y \<in> set ys. d \<notin> set y"
  shows "xs = ys"
  using assms by (metis split_on_join)

text \<open>
  Unicode white space as UTF-8 byte sequences, and \<^verbatim>\<open>str::trim\<close> on them.  UTF-8 is
  self-synchronising, so a sequence found at an end of a valid string is the
  character there.
\<close>

definition ws_encodings :: "string list" where
  "ws_encodings =
    [[CHR 0x09], [CHR 0x0A], [CHR 0x0B], [CHR 0x0C], [CHR 0x0D], [CHR 0x20],
     [CHR 0xC2, CHR 0x85], [CHR 0xC2, CHR 0xA0], [CHR 0xE1, CHR 0x9A, CHR 0x80],
     [CHR 0xE2, CHR 0x80, CHR 0x80], [CHR 0xE2, CHR 0x80, CHR 0x81],
     [CHR 0xE2, CHR 0x80, CHR 0x82], [CHR 0xE2, CHR 0x80, CHR 0x83],
     [CHR 0xE2, CHR 0x80, CHR 0x84], [CHR 0xE2, CHR 0x80, CHR 0x85],
     [CHR 0xE2, CHR 0x80, CHR 0x86], [CHR 0xE2, CHR 0x80, CHR 0x87],
     [CHR 0xE2, CHR 0x80, CHR 0x88], [CHR 0xE2, CHR 0x80, CHR 0x89],
     [CHR 0xE2, CHR 0x80, CHR 0x8A], [CHR 0xE2, CHR 0x80, CHR 0xA8],
     [CHR 0xE2, CHR 0x80, CHR 0xA9], [CHR 0xE2, CHR 0x80, CHR 0xAF],
     [CHR 0xE2, CHR 0x81, CHR 0x9F], [CHR 0xE3, CHR 0x80, CHR 0x80]]"

fun strip_prefix :: "string \<Rightarrow> string \<Rightarrow> string option" where
  "strip_prefix [] s = Some s"
| "strip_prefix (p # ps) [] = None"
| "strip_prefix (p # ps) (c # cs) = (if p = c then strip_prefix ps cs else None)"

lemma strip_prefix_Some_iff: "strip_prefix p s = Some t \<longleftrightarrow> s = p @ t"
  by (induction p s rule: strip_prefix.induct) auto

fun strip_any :: "string list \<Rightarrow> string \<Rightarrow> string option" where
  "strip_any [] s = None"
| "strip_any (e # es) s =
     (case strip_prefix e s of Some t \<Rightarrow> (if e = [] then strip_any es s else Some t)
      | None \<Rightarrow> strip_any es s)"

lemma strip_any_length: "strip_any es s = Some t \<Longrightarrow> length t < length s"
  by (induction es) (auto simp: strip_prefix_Some_iff split: option.splits if_splits)

lemma strip_any_suffix: "strip_any es s = Some t \<Longrightarrow> suffix t s"
  by (induction es) (auto simp: strip_prefix_Some_iff suffix_def split: option.splits if_splits)

function trim_with :: "string list \<Rightarrow> string \<Rightarrow> string" where
  "trim_with es s = (case strip_any es s of None \<Rightarrow> s | Some t \<Rightarrow> trim_with es t)"
  by pat_completeness auto
termination
  by (relation "measure (\<lambda>(es, s). length s)") (auto simp: strip_any_length)

declare trim_with.simps [simp del]

definition trim :: "string \<Rightarrow> string" where
  "trim s = rev (trim_with (map rev ws_encodings) (rev (trim_with ws_encodings s)))"

lemma trim_with_suffix: "suffix (trim_with es s) s"
proof (induction es s rule: trim_with.induct)
  case (1 es s)
  show ?case
    by (subst trim_with.simps)
      (auto split: option.split dest: strip_any_suffix intro: suffix_order.trans 1)
qed

lemma trim_length_le: "length (trim s) \<le> length s"
  using suffix_length_le [OF trim_with_suffix] unfolding trim_def
  by (metis length_rev order_trans)

lemma set_trim_subset: "set (trim s) \<subseteq> set s"
  using set_mono_suffix [OF trim_with_suffix] unfolding trim_def
  by (metis set_rev order_trans)

section \<open>Decimal rendering and integer parsing\<close>

definition digit_char :: "nat \<Rightarrow> char" where
  "digit_char d = char_of (48 + d)"

fun show_nat :: "nat \<Rightarrow> string" where
  "show_nat n = (if n < 10 then [digit_char n] else show_nat (n div 10) @ [digit_char (n mod 10)])"

declare show_nat.simps [simp del]

definition show_int :: "int \<Rightarrow> string" where
  "show_int i = (if i < 0 then CHR ''-'' # show_nat (nat (- i)) else show_nat (nat i))"

fun digits_value :: "nat \<Rightarrow> string \<Rightarrow> nat option" where
  "digits_value acc [] = Some acc"
| "digits_value acc (c # cs) =
     (if is_ascii_digit c then digits_value (10 * acc + (char_code c - 48)) cs else None)"

definition parse_nat :: "string \<Rightarrow> nat option" where
  "parse_nat s = (if s = [] then None else digits_value 0 s)"

text \<open>\<^verbatim>\<open>str::parse::<i64>\<close>: an optional sign, at least one digit, and the range of the type.\<close>

definition in_i64 :: "int \<Rightarrow> bool" where
  "in_i64 i \<longleftrightarrow> - (2 ^ 63) \<le> i \<and> i < 2 ^ 63"

definition parse_int_in :: "(int \<Rightarrow> bool) \<Rightarrow> string \<Rightarrow> int option" where
  "parse_int_in ok s =
     (let signed = (case s of c # cs \<Rightarrow>
              if c = CHR ''-'' then map_option (\<lambda>n. - int n) (parse_nat cs)
              else if c = CHR ''+'' then map_option int (parse_nat cs)
              else map_option int (parse_nat s)
          | [] \<Rightarrow> None)
      in case signed of Some i \<Rightarrow> (if ok i then Some i else None) | None \<Rightarrow> None)"

definition parse_i64 :: "string \<Rightarrow> int option" where
  "parse_i64 = parse_int_in in_i64"

lemma char_code_digit [simp]: "d < 10 \<Longrightarrow> char_code (digit_char d) = 48 + d"
  by (simp add: char_code_def digit_char_def)

lemma is_ascii_digit_digit_char [simp]: "d < 10 \<Longrightarrow> is_ascii_digit (digit_char d)"
  by (simp add: is_ascii_digit_def)

lemma show_nat_not_Nil [simp]: "show_nat n \<noteq> []"
  by (subst show_nat.simps) simp

lemma show_nat_digits: "c \<in> set (show_nat n) \<Longrightarrow> is_ascii_digit c"
proof (induction n rule: show_nat.induct)
  case (1 n)
  then show ?case by (simp add: show_nat.simps [of n] split: if_splits) auto
qed

lemma digits_value_append:
  "digits_value acc (s @ t) = (case digits_value acc s of None \<Rightarrow> None | Some a \<Rightarrow> digits_value a t)"
  by (induction s arbitrary: acc) auto

lemma digits_value_show_nat: "digits_value 0 (show_nat n) = Some n"
proof (induction n rule: show_nat.induct)
  case (1 n)
  show ?case
  proof (cases "n < 10")
    case True
    then show ?thesis by (subst show_nat.simps) simp
  next
    case False
    with 1 show ?thesis
      by (subst show_nat.simps) (simp add: digits_value_append)
  qed
qed

lemma parse_nat_show_nat [simp]: "parse_nat (show_nat n) = Some n"
  by (simp add: parse_nat_def digits_value_show_nat)

lemma show_nat_inject [simp]: "show_nat m = show_nat n \<longleftrightarrow> m = n"
  by (metis option.inject parse_nat_show_nat)

lemma hd_show_nat_digit: "is_ascii_digit (hd (show_nat n))"
  by (rule show_nat_digits [OF hd_in_set]) simp

lemma minus_not_digit [simp]: "\<not> is_ascii_digit CHR ''-''" "\<not> is_ascii_digit CHR ''+''"
  by (simp_all add: is_ascii_digit_def char_code_def)

lemma parse_int_in_show_int: "ok i \<Longrightarrow> parse_int_in ok (show_int i) = Some i"
proof (cases "i < 0")
  case False
  assume "ok i"
  obtain c cs where c: "show_nat (nat i) = c # cs"
    by (cases "show_nat (nat i)") auto
  then have "is_ascii_digit c" using hd_show_nat_digit [of "nat i"] by simp
  then have "c \<noteq> CHR ''-''" "c \<noteq> CHR ''+''" by auto
  moreover have "parse_nat (c # cs) = Some (nat i)" by (metis c parse_nat_show_nat)
  ultimately show ?thesis using False \<open>ok i\<close> by (simp add: parse_int_in_def show_int_def c)
qed (simp add: parse_int_in_def show_int_def)

lemma parse_i64_show_int: "in_i64 i \<Longrightarrow> parse_i64 (show_int i) = Some i"
  by (simp add: parse_i64_def parse_int_in_show_int)

lemma parse_i64_range: "parse_i64 s = Some i \<Longrightarrow> in_i64 i"
  by (auto simp: parse_i64_def parse_int_in_def Let_def split: list.splits option.splits if_splits)

lemma show_int_inject [simp]: "show_int i = show_int j \<longleftrightarrow> i = j"
proof
  assume "show_int i = show_int j"
  then have "parse_int_in (\<lambda>_. True) (show_int i) = parse_int_in (\<lambda>_. True) (show_int j)" by simp
  then show "i = j" by (simp add: parse_int_in_show_int)
qed simp

lemma show_int_chars: "c \<in> set (show_int i) \<Longrightarrow> is_ascii_digit c \<or> c = CHR ''-''"
  by (auto simp: show_int_def dest: show_nat_digits split: if_splits)

section \<open>Lookup in lists\<close>

lemma find_append: "find P (xs @ ys) = (case find P xs of None \<Rightarrow> find P ys | Some a \<Rightarrow> Some a)"
  by (induction xs) auto

lemma find_SomeD: "find P xs = Some a \<Longrightarrow> a \<in> set xs \<and> P a"
  by (auto simp: find_Some_iff)

section \<open>Instants\<close>

definition nanos_per_sec :: int where
  "nanos_per_sec = 1000000000"

definition nanos_per_milli :: int where
  "nanos_per_milli = 1000000"

definition seconds :: "int \<Rightarrow> int" where
  "seconds n = n * nanos_per_sec"

text \<open>\<^verbatim>\<open>DateTime::timestamp\<close>: whole seconds since the epoch, rounded down.\<close>

definition timestamp :: "instant \<Rightarrow> int" where
  "timestamp t = t div nanos_per_sec"

text \<open>\<^verbatim>\<open>Duration::num_seconds\<close> rounds a difference towards zero.\<close>

definition num_seconds :: "int \<Rightarrow> int" where
  "num_seconds d = (if d < 0 then - ((- d) div nanos_per_sec) else d div nanos_per_sec)"

definition num_milliseconds :: "int \<Rightarrow> int" where
  "num_milliseconds d = (if d < 0 then - ((- d) div nanos_per_milli) else d div nanos_per_milli)"

text \<open>The instant that text with millisecond (second) precision denotes.\<close>

definition trunc_ms :: "instant \<Rightarrow> instant" where
  "trunc_ms t = (t div nanos_per_milli) * nanos_per_milli"

definition trunc_secs :: "instant \<Rightarrow> instant" where
  "trunc_secs t = (t div nanos_per_sec) * nanos_per_sec"

lemma trunc_ms_idem [simp]: "trunc_ms (trunc_ms t) = trunc_ms t"
  by (simp add: trunc_ms_def nanos_per_milli_def)

lemma trunc_ms_le: "trunc_ms t \<le> t"
  by (simp add: trunc_ms_def nanos_per_milli_def)

lemma trunc_ms_mono: "s \<le> t \<Longrightarrow> trunc_ms s \<le> trunc_ms t"
  by (simp add: trunc_ms_def nanos_per_milli_def zdiv_mono1)

lemma trunc_secs_le: "trunc_secs t \<le> t"
  by (simp add: trunc_secs_def nanos_per_sec_def)

lemma trunc_secs_mono: "s \<le> t \<Longrightarrow> trunc_secs s \<le> trunc_secs t"
  by (simp add: trunc_secs_def nanos_per_sec_def zdiv_mono1)

section \<open>JSON values\<close>

text \<open>
  \<^verbatim>\<open>serde_json::Value\<close>; an object is a \<^verbatim>\<open>BTreeMap\<close>, kept as the association list
  of its entries in key order.
\<close>

datatype json = JNull | JBool bool | JNum int | JStr string | JArr "json list"
  | JObj "(string \<times> json) list"

fun btree_insert :: "'k :: linorder \<Rightarrow> 'v \<Rightarrow> ('k \<times> 'v) list \<Rightarrow> ('k \<times> 'v) list" where
  "btree_insert k v [] = [(k, v)]"
| "btree_insert k v ((k', v') # ps) =
     (if k < k' then (k, v) # (k', v') # ps
      else if k = k' then (k, v) # ps
      else (k', v') # btree_insert k v ps)"

text \<open>The \<^verbatim>\<open>json!\<close> object literal: its entries inserted one after the other.\<close>

definition json_object :: "(string \<times> json) list \<Rightarrow> json" where
  "json_object kvs = JObj (foldl (\<lambda>m (k, v). btree_insert k v m) [] kvs)"

fun json_get :: "json \<Rightarrow> string \<Rightarrow> json option" where
  "json_get (JObj kvs) k = map_of kvs k"
| "json_get _ k = None"

fun json_opt_str :: "string option \<Rightarrow> json" where
  "json_opt_str None = JNull"
| "json_opt_str (Some s) = JStr s"

lemma map_of_btree_insert [simp]: "map_of (btree_insert k v m) = (map_of m)(k \<mapsto> v)"
  by (induction k v m rule: btree_insert.induct) (auto simp: fun_eq_iff)

lemma set_keys_btree_insert [simp]: "fst ` set (btree_insert k v m) = insert k (fst ` set m)"
  by (induction k v m rule: btree_insert.induct) auto

lemma Ball_keys_btree_insert:
  "(\<forall>p \<in> set (btree_insert k v m). P (fst p)) \<longleftrightarrow> P k \<and> (\<forall>p \<in> set m. P (fst p))"
  by (induction k v m rule: btree_insert.induct) auto

lemma sorted_keys_btree_insert:
  "sorted_wrt (<) (map fst m) \<Longrightarrow> sorted_wrt (<) (map fst (btree_insert k v m))"
proof (induction k v m rule: btree_insert.induct)
  case (2 k v k' v' ps)
  then show ?case
    by (auto simp: Ball_keys_btree_insert [of k v ps "(<) k'"] intro: less_trans)
qed simp

end
