(* ===== verification/Externals.thy ===== *)
theory Externals
  imports Prelude
begin

text \<open>
  The third-party functions that several components call.  Each is a field of
  the record \<open>externals\<close> and an argument of every definition that uses it;
  what the sources rely on is a named predicate on the record (a
  \<open>..._contract\<close>), stated from the documentation of the crate, and is a
  hypothesis of the theorems that need it.

  \<^item> \<open>sha256\<close> (\<^verbatim>\<open>sha2\<close>), \<open>hex_encode\<close> (\<^verbatim>\<open>hex\<close>);
  \<^item> \<open>to_rfc3339_millis\<close>, \<open>to_rfc3339_secs\<close> (\<^verbatim>\<open>to_rfc3339_opts\<close>), \<open>to_rfc3339_auto\<close> (\<^verbatim>\<open>to_rfc3339\<close>),
    \<open>parse_from_rfc3339\<close> (\<^verbatim>\<open>chrono\<close>);
  \<^item> \<open>struct_to_string\<close> (\<^verbatim>\<open>serde_json::to_string\<close> on a derived struct, given as its
    fields in declaration order), \<open>value_to_string\<close>, \<open>value_from_str\<close>;
  \<^item> \<open>from_openssh\<close>, \<open>to_openssh\<close>, \<open>key_fingerprint\<close> (\<^verbatim>\<open>ssh-key\<close>): an OpenSSH public key line
    as algorithm, key bytes and comment, and the fingerprint of the key bytes;
  \<^item> \<open>ed25519_key_ok\<close>, \<open>ed25519_public\<close>, \<open>ed25519_sign\<close>, \<open>ed25519_verify\<close> (\<^verbatim>\<open>ed25519-dalek\<close>), on key,
    message and signature bytes; \<open>base64_encode\<close>, \<open>base64_decode\<close> (\<^verbatim>\<open>base64\<close>);
  \<^item> \<open>unicode_lowercase\<close>: the Unicode tables behind \<^verbatim>\<open>str::to_lowercase\<close>;
  \<^item> \<open>unicode_debug\<close>: the Unicode tables that \<^verbatim>\<open>{:?}\<close> uses to print a character outside ASCII.
\<close>

datatype key_algorithm = Ed25519 | OtherAlgorithm string

record ssh_public_key =
  ssh_algorithm :: key_algorithm
  ssh_key_bytes :: "byte list"
  ssh_comment :: string

record externals =
  sha256 :: "byte list \<Rightarrow> byte list"
  hex_encode :: "byte list \<Rightarrow> string"
  to_rfc3339_millis :: "instant \<Rightarrow> string"
  to_rfc3339_secs :: "instant \<Rightarrow> string"
  to_rfc3339_auto :: "instant \<Rightarrow> string"
  parse_from_rfc3339 :: "string \<Rightarrow> (string, instant) result"
  struct_to_string :: "(string \<times> json) list \<Rightarrow> (string, string) result"
  value_to_string :: "json \<Rightarrow> (string, string) result"
  value_from_str :: "string \<Rightarrow> (string, json) result"
  from_openssh :: "string \<Rightarrow> ssh_public_key option"
  to_openssh :: "ssh_public_key \<Rightarrow> string option"
  key_fingerprint :: "ssh_public_key \<Rightarrow> string"
  ed25519_key_ok :: "byte list \<Rightarrow> bool"
  ed25519_public :: "byte list \<Rightarrow> byte list"
  ed25519_sign :: "byte list \<Rightarrow> byte list \<Rightarrow> byte list"
  ed25519_verify :: "byte list \<Rightarrow> byte list \<Rightarrow> byte list \<Rightarrow> bool"
  base64_encode :: "byte list \<Rightarrow> string"
  base64_decode :: "string \<Rightarrow> byte list option"
  unicode_lowercase :: "string \<Rightarrow> string"
  unicode_debug :: "string \<Rightarrow> string"

section \<open>Digests\<close>

definition sha256_hex :: "externals \<Rightarrow> byte list \<Rightarrow> string" where
  "sha256_hex x m = hex_encode x (sha256 x m)"

text \<open>A SHA-256 digest has 32 bytes and its hexadecimal form two characters for each.\<close>

definition digest_contract :: "externals \<Rightarrow> bool" where
  "digest_contract x \<longleftrightarrow> (\<forall>m. length (sha256_hex x m) = 64)"

text \<open>Hexadecimal text: two characters of \<^verbatim>\<open>0-9a-f\<close> for each byte.\<close>

definition hex_contract :: "externals \<Rightarrow> bool" where
  "hex_contract x \<longleftrightarrow>
     (\<forall>bs. length (hex_encode x bs) = 2 * length bs \<and> list_all is_ascii_hexdigit (hex_encode x bs))"

text \<open>
  Two given messages collide.  Digests are shorter than messages, so some pair always does; a
  statement about hashing therefore names the pair that would have to.
\<close>

definition sha256_collide :: "externals \<Rightarrow> byte list \<Rightarrow> byte list \<Rightarrow> bool" where
  "sha256_collide x m m' \<longleftrightarrow> m \<noteq> m' \<and> sha256_hex x m = sha256_hex x m'"

lemma sha256_hex_eqD: "sha256_hex x m = sha256_hex x m' \<Longrightarrow> m = m' \<or> sha256_collide x m m'"
  by (auto simp: sha256_collide_def)

lemma sha256_collide_irrefl [simp]: "\<not> sha256_collide x m m"
  by (simp add: sha256_collide_def)

section \<open>Timestamps\<close>

text \<open>The instants with a four-digit year, which RFC 3339 text denotes.\<close>

definition rfc3339_range :: "instant \<Rightarrow> bool" where
  "rfc3339_range t \<longleftrightarrow> seconds (- 62167219200) \<le> t \<and> t < seconds 253402300800"

definition rfc3339_contract :: "externals \<Rightarrow> bool" where
  "rfc3339_contract x \<longleftrightarrow>
     (\<forall>t. rfc3339_range t \<longrightarrow> parse_from_rfc3339 x (to_rfc3339_millis x t) = Inr (trunc_ms t)
        \<and> to_rfc3339_millis x (trunc_ms t) = to_rfc3339_millis x t
        \<and> parse_from_rfc3339 x (to_rfc3339_secs x t) = Inr (trunc_secs t))
   \<and> (\<forall>s t. rfc3339_range s \<longrightarrow> rfc3339_range t \<longrightarrow>
        (to_rfc3339_millis x s \<le> to_rfc3339_millis x t) = (trunc_ms s \<le> trunc_ms t))"

lemma rfc3339_contractD:
  assumes "rfc3339_contract x" "rfc3339_range t"
  shows "parse_from_rfc3339 x (to_rfc3339_millis x t) = Inr (trunc_ms t)"
    and "to_rfc3339_millis x (trunc_ms t) = to_rfc3339_millis x t"
    and "parse_from_rfc3339 x (to_rfc3339_secs x t) = Inr (trunc_secs t)"
  using assms by (simp_all add: rfc3339_contract_def)

lemma rfc3339_millis_order:
  assumes "rfc3339_contract x" "rfc3339_range s" "rfc3339_range t"
  shows "to_rfc3339_millis x s \<le> to_rfc3339_millis x t \<longleftrightarrow> trunc_ms s \<le> trunc_ms t"
  using assms by (simp add: rfc3339_contract_def)

section \<open>JSON text\<close>

fun json_wf :: "json \<Rightarrow> bool" where
  "json_wf (JArr vs) = (\<forall>v \<in> set vs. json_wf v)"
| "json_wf (JObj kvs) = (sorted_wrt (<) (map fst kvs) \<and> (\<forall>kv \<in> set kvs. json_wf (snd kv)))"
| "json_wf v = True"

text \<open>
  Serialising a value succeeds and parsing the text gives the value back;
  serialising a struct succeeds and different field values give different text.
\<close>

definition json_contract :: "externals \<Rightarrow> bool" where
  "json_contract x \<longleftrightarrow>
     (\<forall>v. json_wf v \<longrightarrow> (\<exists>s. value_to_string x v = Inr s \<and> value_from_str x s = Inr v))
   \<and> (\<forall>fs. \<exists>s. struct_to_string x fs = Inr s)
   \<and> (\<forall>fs gs s. struct_to_string x fs = Inr s \<longrightarrow> struct_to_string x gs = Inr s \<longrightarrow> fs = gs)"

lemma json_contract_value:
  assumes "json_contract x" "json_wf v"
  obtains s where "value_to_string x v = Inr s" "value_from_str x s = Inr v"
  using assms by (auto simp: json_contract_def)

lemma json_contract_struct:
  assumes "json_contract x"
  obtains s where "struct_to_string x fs = Inr s"
  using assms by (metis json_contract_def)

lemma struct_to_string_inject:
  assumes "json_contract x" "struct_to_string x fs = Inr s" "struct_to_string x gs = Inr s"
  shows "fs = gs"
  using assms by (metis json_contract_def)

lemma json_wf_btree_insert:
  "json_wf (JObj m) \<Longrightarrow> json_wf v \<Longrightarrow> json_wf (JObj (btree_insert k v m))"
proof -
  assume wf: "json_wf (JObj m)" "json_wf v"
  have "\<forall>kv \<in> set (btree_insert k v m). json_wf (snd kv)"
    using wf by (induction k v m rule: btree_insert.induct) (auto split: if_splits)
  with wf show ?thesis by (simp add: sorted_keys_btree_insert)
qed

lemma json_wf_json_object:
  assumes "\<forall>kv \<in> set kvs. json_wf (snd kv)"
  shows "json_wf (json_object kvs)"
proof -
  have "json_wf (JObj (foldl (\<lambda>m (k, v). btree_insert k v m) m kvs))" if "json_wf (JObj m)" for m
    using assms that
  proof (induction kvs arbitrary: m)
    case (Cons kv kvs)
    then show ?case using json_wf_btree_insert by (cases kv) (simp del: json_wf.simps)
  qed simp
  from this [of "[]"] show ?thesis by (simp add: json_object_def)
qed

section \<open>OpenSSH public keys\<close>

text \<open>
  The text of an Ed25519 key line, comment included, reads back as the same key.
  (A comment in the line is text without line breaks.)
\<close>

definition openssh_contract :: "externals \<Rightarrow> bool" where
  "openssh_contract x \<longleftrightarrow>
     (\<forall>s k. from_openssh x s = Some k \<longrightarrow> ssh_algorithm k = Ed25519 \<longrightarrow>
        (\<exists>t. to_openssh x k = Some t \<and> from_openssh x t = Some k))"

lemma openssh_contractD:
  assumes "openssh_contract x" "from_openssh x s = Some k" "ssh_algorithm k = Ed25519"
  obtains t where "to_openssh x k = Some t" "from_openssh x t = Some k"
  using assms by (auto simp: openssh_contract_def)

section \<open>Signatures\<close>

text \<open>
  Base64 text decodes to the bytes it was made from and is visible ASCII; a signature has 64 bytes and
  verifies under the public key of the seed that made it.
\<close>

definition base64_contract :: "externals \<Rightarrow> bool" where
  "base64_contract x \<longleftrightarrow> (\<forall>bs. base64_decode x (base64_encode x bs) = Some bs
     \<and> list_all is_visible_ascii (base64_encode x bs) \<and> (bs \<noteq> [] \<longrightarrow> base64_encode x bs \<noteq> []))"

definition ed25519_contract :: "externals \<Rightarrow> bool" where
  "ed25519_contract x \<longleftrightarrow>
     (\<forall>seed m. length seed = 32 \<longrightarrow> length (ed25519_sign x seed m) = 64
        \<and> length (ed25519_public x seed) = 32 \<and> ed25519_key_ok x (ed25519_public x seed)
        \<and> ed25519_verify x (ed25519_public x seed) m (ed25519_sign x seed m))"

end
