(* ===== verification/Errors.thy ===== *)
theory Errors
  imports Externals
begin

text \<open>
  The error types of \<^verbatim>\<open>src/errors.rs\<close>: the audit subsystem's errors and the single
  error type of the HTTP handlers with its mapping to status codes, stable
  codes, client messages and responses.
\<close>

datatype audit_error = Serialization string | Corrupt string | Repository string

fun audit_error_display :: "audit_error \<Rightarrow> string" where
  "audit_error_display (Serialization m) = ''audit serialization error: '' @ m"
| "audit_error_display (Corrupt m) = ''corrupt audit row: '' @ m"
| "audit_error_display (Repository m) = ''audit repository error: '' @ m"

datatype api_error =
    BadRequest string
  | Unauthorized string
  | Forbidden string
  | NotFound string
  | Conflict string
  | TooManyRequests string
  | Internal string

fun api_status :: "api_error \<Rightarrow> nat" where
  "api_status (BadRequest _) = 400"
| "api_status (Unauthorized _) = 401"
| "api_status (Forbidden _) = 403"
| "api_status (NotFound _) = 404"
| "api_status (Conflict _) = 409"
| "api_status (TooManyRequests _) = 429"
| "api_status (Internal _) = 500"

fun api_code :: "api_error \<Rightarrow> string" where
  "api_code (BadRequest _) = ''bad_request''"
| "api_code (Unauthorized _) = ''unauthorized''"
| "api_code (Forbidden _) = ''forbidden''"
| "api_code (NotFound _) = ''not_found''"
| "api_code (Conflict _) = ''conflict''"
| "api_code (TooManyRequests _) = ''rate_limited''"
| "api_code (Internal _) = ''internal_error''"

fun api_client_message :: "api_error \<Rightarrow> string" where
  "api_client_message (Internal _) = ''internal server error''"
| "api_client_message (BadRequest m) = m"
| "api_client_message (Unauthorized m) = m"
| "api_client_message (Forbidden m) = m"
| "api_client_message (NotFound m) = m"
| "api_client_message (Conflict m) = m"
| "api_client_message (TooManyRequests m) = m"

record error_response =
  er_status :: nat
  er_code :: string
  er_message :: string
  er_www_authenticate :: "string option"

definition api_into_response :: "api_error \<Rightarrow> error_response" where
  "api_into_response e =
     \<lparr> er_status = api_status e, er_code = api_code e, er_message = api_client_message e,
       er_www_authenticate = (case e of Unauthorized _ \<Rightarrow> Some ''Bearer'' | _ \<Rightarrow> None) \<rparr>"

fun api_from_audit :: "audit_error \<Rightarrow> api_error" where
  "api_from_audit e = Internal (audit_error_display e)"

lemma api_status_code_agree: "api_status e = api_status e' \<longleftrightarrow> api_code e = api_code e'"
  by (cases e; cases e') simp_all

end
