(* ===== verification/Instances.thy ===== *)
theory Instances
  imports Externals
begin

text \<open>
  A reference instance of the third-party functions, executable throughout, on
  which every contract of \<open>Externals\<close> is proved.  It shows that the hypotheses
  of the properties can hold, and is the concrete input of their witnesses.
\<close>

section \<open>Hexadecimal digits\<close>

definition hex_digit :: "nat \<Rightarrow> char" where
  "hex_digit n = (if n < 10 then char_of (48 + n) else char_of (87 + n))"

definition ref_hex :: "byte list \<Rightarrow> string" where
  "ref_hex bs = concat (map (\<lambda>b. [hex_digit (unat b div 16), hex_digit (unat b mod 16)]) bs)"

definition ref_sha256 :: "byte list \<Rightarrow> byte list" where
  "ref_sha256 m = take 32 (m @ replicate 32 0)"

definition hex_value :: "char \<Rightarrow> nat" where
  "hex_value c = (if char_code c < 58 then char_code c - 48 else char_code c - 87)"

fun ref_unhex :: "string \<Rightarrow> byte list option" where
  "ref_unhex [] = Some []"
| "ref_unhex (a # b # r) = map_option ((#) (of_nat (16 * hex_value a + hex_value b))) (ref_unhex r)"
| "ref_unhex [a] = None"

lemma hex_value_digit: "n < 16 \<Longrightarrow> hex_value (hex_digit n) = n"
  by (auto simp: hex_value_def hex_digit_def char_code_def)

lemma ref_unhex_hex: "ref_unhex (ref_hex bs) = Some bs"
proof (induction bs)
  case (Cons b bs)
  have "unat b < 256" using unsigned_less [of b, where ?'a = nat] by simp
  then have "unat b div 16 < 16" by auto
  moreover have "(of_nat (16 * (unat b div 16) + unat b mod 16) :: byte) = b"
    by (simp only: mult_div_mod_eq) (metis of_nat_unat ucast_id)
  ultimately show ?case using Cons by (simp add: ref_hex_def hex_value_digit)
qed (simp add: ref_hex_def)

lemma length_ref_hex: "length (ref_hex bs) = 2 * length bs"
  by (induction bs) (simp_all add: ref_hex_def)

section \<open>Timestamps as fixed-width counts of milliseconds\<close>

primrec fixed_dec :: "nat \<Rightarrow> nat \<Rightarrow> string" where
  "fixed_dec 0 n = []"
| "fixed_dec (Suc k) n = digit_char (n div 10 ^ k) # fixed_dec k (n mod 10 ^ k)"

definition ref_millis :: "instant \<Rightarrow> string" where
  "ref_millis t = fixed_dec 15 (nat (t div nanos_per_milli + 62167219200000))"

definition ref_parse :: "string \<Rightarrow> (string, instant) result" where
  "ref_parse s = (case parse_nat s of
      None \<Rightarrow> Inl ''malformed timestamp''
    | Some n \<Rightarrow> Inr ((int n - 62167219200000) * nanos_per_milli))"

lemma digit_char_less: "a < 10 \<Longrightarrow> b < 10 \<Longrightarrow> digit_char a < digit_char b \<longleftrightarrow> a < b"
  by (simp add: less_char_def digit_char_def)

lemma digit_char_eq: "a < 10 \<Longrightarrow> b < 10 \<Longrightarrow> digit_char a = digit_char b \<longleftrightarrow> a = b"
  by (metis char_code_digit add_left_cancel)

lemma le_div_mod_iff:
  "(m :: nat) \<le> n \<longleftrightarrow> m div d < n div d \<or> m div d = n div d \<and> m mod d \<le> n mod d"
proof (cases "m div d" "n div d" rule: linorder_cases)
  case less
  then have "\<not> n \<le> m" using div_le_mono [of n m d] by linarith
  with less show ?thesis by simp
next
  case equal
  then show ?thesis
    using div_mult_mod_eq [of m d] div_mult_mod_eq [of n d] by (metis nat_add_left_cancel_le less_irrefl)
next
  case greater
  then have "\<not> m \<le> n" using div_le_mono [of m n d] by linarith
  with greater show ?thesis by simp
qed

lemma fixed_dec_le:
  "m < 10 ^ k \<Longrightarrow> n < 10 ^ k \<Longrightarrow> fixed_dec k m \<le> fixed_dec k n \<longleftrightarrow> m \<le> n"
proof (induction k arbitrary: m n)
  case (Suc k)
  have d: "m div 10 ^ k < 10" "n div 10 ^ k < 10"
    using Suc.prems by (simp_all add: less_mult_imp_div_less mult.commute)
  have IH: "fixed_dec k (m mod 10 ^ k) \<le> fixed_dec k (n mod 10 ^ k) \<longleftrightarrow> m mod 10 ^ k \<le> n mod 10 ^ k"
    by (rule Suc.IH) simp_all
  have "m \<le> n \<longleftrightarrow> m div 10 ^ k < n div 10 ^ k
      \<or> m div 10 ^ k = n div 10 ^ k \<and> m mod 10 ^ k \<le> n mod 10 ^ k"
    by (rule le_div_mod_iff)
  with IH d show ?case by (simp add: digit_char_less digit_char_eq)
qed simp

lemma digits_value_fixed_dec:
  "n < 10 ^ k \<Longrightarrow> digits_value a (fixed_dec k n) = Some (a * 10 ^ k + n)"
proof (induction k arbitrary: n a)
  case (Suc k)
  have d: "n div 10 ^ k < 10" using Suc.prems by (simp add: less_mult_imp_div_less mult.commute)
  have "(10 * a + n div 10 ^ k) * 10 ^ k + n mod 10 ^ k = a * 10 ^ Suc k + n"
    by (simp add: algebra_simps)
  with d show ?case by (simp add: Suc.IH)
qed simp

lemma ref_millis_bound:
  "rfc3339_range t \<Longrightarrow> 0 \<le> t div nanos_per_milli + 62167219200000
     \<and> nat (t div nanos_per_milli + 62167219200000) < 10 ^ 15"
proof -
  assume "rfc3339_range t"
  then have "- 62167219200000000000 \<le> t" "t < 253402300800000000000"
    by (simp_all add: rfc3339_range_def seconds_def nanos_per_sec_def)
  then have "- 62167219200000 \<le> t div 1000000" "t div 1000000 < 253402300800000"
    by linarith+
  then show ?thesis by (simp add: nanos_per_milli_def nat_less_iff)
qed

lemma parse_nat_fixed_dec: "n < 10 ^ Suc k \<Longrightarrow> parse_nat (fixed_dec (Suc k) n) = Some n"
  using digits_value_fixed_dec [of n "Suc k" 0] by (simp add: parse_nat_def del: fixed_dec.simps)
    (simp add: fixed_dec.simps)

lemma ref_parse_millis: "rfc3339_range t \<Longrightarrow> ref_parse (ref_millis t) = Inr (trunc_ms t)"
proof -
  assume t: "rfc3339_range t"
  define n where "n = t div nanos_per_milli + 62167219200000"
  have n: "0 \<le> n" "nat n < 10 ^ Suc 14" using ref_millis_bound [OF t] by (simp_all add: n_def)
  have "ref_millis t = fixed_dec (Suc 14) (nat n)" by (simp add: ref_millis_def n_def del: fixed_dec.simps)
  then have "parse_nat (ref_millis t) = Some (nat n)" using parse_nat_fixed_dec [OF n(2)] by simp
  then show ?thesis using n(1) by (simp add: ref_parse_def trunc_ms_def n_def)
qed

lemma trunc_ms_div [simp]: "trunc_ms t div nanos_per_milli = t div nanos_per_milli"
  by (simp add: trunc_ms_def nanos_per_milli_def)

lemma trunc_ms_trunc_secs [simp]: "trunc_ms (trunc_secs t) = trunc_secs t"
  by (simp add: trunc_ms_def trunc_secs_def nanos_per_milli_def nanos_per_sec_def)

lemma rfc3339_range_trunc_secs: "rfc3339_range t \<Longrightarrow> rfc3339_range (trunc_secs t)"
  unfolding rfc3339_range_def trunc_secs_def seconds_def nanos_per_sec_def by (simp, linarith)

lemma ref_millis_le:
  assumes "rfc3339_range s" "rfc3339_range t"
  shows "ref_millis s \<le> ref_millis t \<longleftrightarrow> trunc_ms s \<le> trunc_ms t"
proof -
  have "trunc_ms s \<le> trunc_ms t \<longleftrightarrow> s div nanos_per_milli \<le> t div nanos_per_milli"
    by (simp add: trunc_ms_def nanos_per_milli_def)
  then show ?thesis
    using ref_millis_bound [OF assms(1)] ref_millis_bound [OF assms(2)]
    by (simp add: ref_millis_def fixed_dec_le nat_le_eq_zle)
qed

section \<open>A self-delimiting text form of JSON values\<close>

definition enc_str :: "string \<Rightarrow> string" where
  "enc_str s = show_nat (length s) @ '':'' @ s"

fun enc_json :: "json \<Rightarrow> string" where
  "enc_json JNull = ''n''"
| "enc_json (JBool b) = (if b then ''t'' else ''f'')"
| "enc_json (JNum i) = ''i'' @ show_int i @ '';''"
| "enc_json (JStr s) = ''s'' @ enc_str s"
| "enc_json (JArr vs) = ''a'' @ show_nat (length vs) @ '':'' @ concat (map enc_json vs)"
| "enc_json (JObj kvs) = ''o'' @ show_nat (length kvs) @ '':''
     @ concat (map (\<lambda>kv. enc_str (fst kv) @ enc_json (snd kv)) kvs)"

definition until :: "char \<Rightarrow> string \<Rightarrow> string \<times> string" where
  "until d s = (takeWhile (\<lambda>c. c \<noteq> d) s, tl (dropWhile (\<lambda>c. c \<noteq> d) s))"

definition dec_str :: "string \<Rightarrow> (string \<times> string) option" where
  "dec_str s = (case until CHR '':'' s of (n, r) \<Rightarrow>
     (case parse_nat n of None \<Rightarrow> None | Some k \<Rightarrow> Some (take k r, drop k r)))"

fun dec_many :: "(string \<Rightarrow> ('a \<times> string) option) \<Rightarrow> nat \<Rightarrow> string \<Rightarrow> ('a list \<times> string) option" where
  "dec_many p 0 s = Some ([], s)"
| "dec_many p (Suc n) s = (case p s of None \<Rightarrow> None | Some (a, r) \<Rightarrow>
     (case dec_many p n r of None \<Rightarrow> None | Some (as, r') \<Rightarrow> Some (a # as, r')))"

definition dec_pair :: "(string \<Rightarrow> (json \<times> string) option) \<Rightarrow> string \<Rightarrow> ((string \<times> json) \<times> string) option" where
  "dec_pair p s = (case dec_str s of None \<Rightarrow> None | Some (k, r) \<Rightarrow>
     (case p r of None \<Rightarrow> None | Some (v, r') \<Rightarrow> Some ((k, v), r')))"

primrec dec_json :: "nat \<Rightarrow> string \<Rightarrow> (json \<times> string) option" where
  "dec_json 0 s = None"
| "dec_json (Suc f) s = (case s of [] \<Rightarrow> None | c # r \<Rightarrow>
     if c = CHR ''n'' then Some (JNull, r)
     else if c = CHR ''t'' then Some (JBool True, r)
     else if c = CHR ''f'' then Some (JBool False, r)
     else if c = CHR ''i'' then
       (case until CHR '';'' r of (n, r') \<Rightarrow>
          map_option (\<lambda>i. (JNum i, r')) (parse_int_in (\<lambda>_. True) n))
     else if c = CHR ''s'' then map_option (\<lambda>(t, r'). (JStr t, r')) (dec_str r)
     else (case until CHR '':'' r of (n, r') \<Rightarrow> (case parse_nat n of None \<Rightarrow> None | Some k \<Rightarrow>
       if c = CHR ''a'' then map_option (\<lambda>(vs, r''). (JArr vs, r'')) (dec_many (dec_json f) k r')
       else map_option (\<lambda>(kvs, r''). (JObj kvs, r'')) (dec_many (dec_pair (dec_json f)) k r'))))"

definition ref_from_str :: "string \<Rightarrow> (string, json) result" where
  "ref_from_str s = (case dec_json (length s) s of Some (v, []) \<Rightarrow> Inr v | _ \<Rightarrow> Inl ''malformed JSON'')"

lemma until_append: "d \<notin> set s \<Longrightarrow> until d (s @ d # r) = (s, r)"
  by (auto simp: until_def takeWhile_append dropWhile_append)

lemma colon_semi_not_numeric:
  "CHR '':'' \<notin> set (show_nat n)" "CHR '';'' \<notin> set (show_int i)"
  by (auto dest!: show_nat_digits show_int_chars simp: is_ascii_digit_def char_code_def)

lemma dec_str_enc_str: "dec_str (enc_str s @ r) = Some (s, r)"
  by (simp add: dec_str_def enc_str_def until_append colon_semi_not_numeric)

lemma dec_many_concat:
  "(\<And>a r. a \<in> set as \<Longrightarrow> p (e a @ r) = Some (a, r)) \<Longrightarrow>
   dec_many p (length as) (concat (map e as) @ r) = Some (as, r)"
  by (induction as arbitrary: r) auto

lemma length_elem_le_concat: "a \<in> set as \<Longrightarrow> length (e a) \<le> length (concat (map e as))"
  by (induction as) auto

lemma dec_json_enc_json: "length (enc_json v) \<le> f \<Longrightarrow> dec_json f (enc_json v @ r) = Some (v, r)"
proof (induction f arbitrary: v r)
  case 0
  then show ?case by (cases v) (auto split: if_splits)
next
  case (Suc f)
  note sub = length_elem_le_concat
  show ?case
  proof (cases v)
    case (JNum i)
    then show ?thesis
      by (simp add: until_append colon_semi_not_numeric parse_int_in_show_int)
  next
    case (JStr s)
    then show ?thesis by (simp add: dec_str_enc_str)
  next
    case (JArr vs)
    have "dec_json f (enc_json a @ r') = Some (a, r')" if "a \<in> set vs" for a r'
      using Suc.prems sub [OF that, of enc_json] by (intro Suc.IH) (simp add: JArr)
    from dec_many_concat [OF this] show ?thesis
      by (simp add: JArr until_append colon_semi_not_numeric)
  next
    case (JObj kvs)
    let ?e = "\<lambda>kv. enc_str (fst kv) @ enc_json (snd kv)"
    have "dec_pair (dec_json f) (?e kv @ r') = Some (kv, r')" if "kv \<in> set kvs" for kv r'
    proof -
      have "dec_json f (enc_json (snd kv) @ r') = Some (snd kv, r')"
        using Suc.prems sub [OF that, of ?e] by (intro Suc.IH) (simp add: JObj)
      then show ?thesis by (simp add: dec_pair_def dec_str_enc_str)
    qed
    from dec_many_concat [where e = ?e, OF this] show ?thesis
      by (simp add: JObj until_append colon_semi_not_numeric)
  qed simp_all
qed

lemma ref_from_str_enc_json: "ref_from_str (enc_json v) = Inr v"
  using dec_json_enc_json [of v "length (enc_json v)" "[]"] by (simp add: ref_from_str_def)

lemma enc_json_inject: "enc_json v = enc_json w \<Longrightarrow> v = w"
  by (metis ref_from_str_enc_json Inr_inject)

section \<open>OpenSSH key lines\<close>

definition byte_chars :: "byte list \<Rightarrow> string" where
  "byte_chars bs = map (\<lambda>b. char_of (unat b)) bs"

definition ref_from_openssh :: "string \<Rightarrow> ssh_public_key option" where
  "ref_from_openssh s = (case strip_prefix ''ssh-ed25519 '' s of
      None \<Rightarrow> None
    | Some t \<Rightarrow> Some \<lparr> ssh_algorithm = Ed25519,
        ssh_key_bytes = as_bytes (takeWhile (\<lambda>c. c \<noteq> CHR '' '') t),
        ssh_comment = tl (dropWhile (\<lambda>c. c \<noteq> CHR '' '') t) \<rparr>)"

definition ref_to_openssh :: "ssh_public_key \<Rightarrow> string option" where
  "ref_to_openssh k = (case ssh_algorithm k of
      Ed25519 \<Rightarrow> Some (''ssh-ed25519 '' @ byte_chars (ssh_key_bytes k)
        @ (if ssh_comment k = [] then [] else CHR '' '' # ssh_comment k))
    | OtherAlgorithm _ \<Rightarrow> None)"

lemma byte_chars_as_bytes [simp]: "byte_chars (as_bytes s) = s"
proof -
  have "unat (of_char c :: byte) = of_char c" for c
  proof -
    have "unat (of_nat (of_char c) :: byte) = of_char c mod 2 ^ 8"
      by (simp add: unat_of_nat)
    then show ?thesis by (simp add: of_nat_of_char)
  qed
  then show ?thesis by (simp add: byte_chars_def as_bytes_def comp_def)
qed

lemma strip_prefix_append [simp]: "strip_prefix p (p @ s) = Some s"
  by (simp add: strip_prefix_Some_iff)

lemma ref_openssh: "ref_from_openssh s = Some k \<Longrightarrow>
   \<exists>t. ref_to_openssh k = Some t \<and> ref_from_openssh t = Some k"
proof -
  assume "ref_from_openssh s = Some k"
  then obtain t where k: "k = \<lparr> ssh_algorithm = Ed25519,
        ssh_key_bytes = as_bytes (takeWhile (\<lambda>c. c \<noteq> CHR '' '') t),
        ssh_comment = tl (dropWhile (\<lambda>c. c \<noteq> CHR '' '') t) \<rparr>"
    by (auto simp: ref_from_openssh_def split: option.splits)
  have sp: "CHR '' '' \<notin> set (takeWhile (\<lambda>c. c \<noteq> CHR '' '') t)" by (auto dest: set_takeWhileD)
  then show ?thesis
    unfolding ref_to_openssh_def ref_from_openssh_def k
    by (simp del: append.simps add: takeWhile_append dropWhile_append)
qed

section \<open>The instance\<close>

definition ref_externals :: externals where
  "ref_externals =
    \<lparr> sha256 = ref_sha256, hex_encode = ref_hex,
      to_rfc3339_millis = ref_millis, to_rfc3339_secs = (\<lambda>t. ref_millis (trunc_secs t)),
      to_rfc3339_auto = ref_millis,
      parse_from_rfc3339 = ref_parse,
      struct_to_string = (\<lambda>fs. Inr (enc_json (JObj fs))),
      value_to_string = (\<lambda>v. Inr (enc_json v)), value_from_str = ref_from_str,
      from_openssh = ref_from_openssh, to_openssh = ref_to_openssh,
      key_fingerprint = (\<lambda>k. ''SHA256:'' @ ref_hex (ssh_key_bytes k)),
      ed25519_key_ok = (\<lambda>k. length k = 32), ed25519_public = (\<lambda>seed. seed),
      ed25519_sign = (\<lambda>seed m. ref_sha256 (seed @ m) @ ref_sha256 m),
      ed25519_verify = (\<lambda>k m sig. sig = ref_sha256 (k @ m) @ ref_sha256 m),
      base64_encode = ref_hex, base64_decode = ref_unhex,
      unicode_lowercase = to_ascii_lowercase, unicode_debug = (\<lambda>ch. ch) \<rparr>"

lemma ref_digest_contract: "digest_contract ref_externals"
  by (auto simp: digest_contract_def sha256_hex_def ref_externals_def length_ref_hex ref_sha256_def
      min_def)

lemma ref_rfc3339_contract: "rfc3339_contract ref_externals"
  by (auto simp: rfc3339_contract_def ref_externals_def ref_parse_millis rfc3339_range_trunc_secs
      ref_millis_le) (simp add: ref_millis_def)

lemma ref_json_contract: "json_contract ref_externals"
  by (auto simp: json_contract_def ref_externals_def ref_from_str_enc_json dest: enc_json_inject
      simp del: enc_json.simps)

lemma ref_openssh_contract: "openssh_contract ref_externals"
  using ref_openssh by (simp add: openssh_contract_def ref_externals_def)

lemma hex_digit_is_hex: "n < 16 \<Longrightarrow> is_ascii_hexdigit (hex_digit n)"
  by (auto simp: hex_digit_def is_ascii_hexdigit_def is_ascii_digit_def char_code_def)

lemma ref_hex_digits: "list_all is_ascii_hexdigit (ref_hex bs)"
proof (induction bs)
  case (Cons b bs)
  have "unat b < 256" using unsigned_less [of b, where ?'a = nat] by simp
  then have "unat b div 16 < 16" "unat b mod 16 < 16" by auto
  with Cons show ?case by (simp add: ref_hex_def hex_digit_is_hex)
qed (simp add: ref_hex_def)

lemma ref_hex_contract: "hex_contract ref_externals"
  by (simp add: hex_contract_def ref_externals_def length_ref_hex ref_hex_digits)

lemma ref_hex_visible: "list_all is_visible_ascii (ref_hex bs)"
  by (rule list.pred_mono_strong [OF ref_hex_digits])
    (auto simp: is_ascii_hexdigit_def is_ascii_digit_def is_visible_ascii_def)

lemma ref_hex_not_Nil: "bs \<noteq> [] \<Longrightarrow> ref_hex bs \<noteq> []"
  by (cases bs) (simp_all add: ref_hex_def)

lemma ref_base64_contract: "base64_contract ref_externals"
  by (simp add: base64_contract_def ref_externals_def ref_unhex_hex ref_hex_visible
      ref_hex_not_Nil)

lemma ref_ed25519_contract: "ed25519_contract ref_externals"
  by (auto simp: ed25519_contract_def ref_externals_def ref_sha256_def min_def)

end
