(* ===== verification/AuditLog.thy ===== *)
theory AuditLog
  imports Errors Instances
begin

text \<open>
  The tamper-evident audit log (\<^verbatim>\<open>src/audit/{model,hash,verifier,repository,service}.rs\<close>):
  the canonical form and digest of an entry, the \<^verbatim>\<open>audit_log\<close> table as the list of its
  rows, the transactional append, the chain verifier and the service on top of them.
  The argument \<open>up\<close> of an operation says whether the storage layer answers; when it
  does not, the operation returns the \<^verbatim>\<open>Repository\<close> error and changes nothing.

  Shown here: the two comparisons of digests decide equality; every append extends
  the table by exactly one row and an appended-to intact log verifies; the verifier
  accepts exactly the well-linked chains and, when it does not, names the first
  broken entry; two verified logs with the same tip are the same log, or a
  SHA-256 collision is at hand.
\<close>

section \<open>Model\<close>

record new_audit_entry =
  nae_event_type :: string
  nae_actor :: string
  nae_subject :: "string option"
  nae_metadata :: json

record audit_entry =
  ae_id :: int
  ae_chain_position :: int
  ae_event_type :: string
  ae_actor :: string
  ae_subject :: "string option"
  ae_metadata :: json
  ae_recorded_at :: instant
  ae_previous_hash :: string
  ae_canonical_json :: string
  ae_entry_hash :: string

record audit_row =
  ar_id :: int
  ar_chain_position :: int
  ar_event_type :: string
  ar_actor :: string
  ar_subject :: "string option"
  ar_metadata :: string
  ar_recorded_at :: string
  ar_previous_hash :: string
  ar_canonical_json :: string
  ar_entry_hash :: string

record audit_tip =
  tip_chain_position :: int
  tip_entry_hash :: string

datatype audit_verification_result =
    Valid nat
  | Broken int string

type_synonym audit_log = "audit_row list"

definition new_entry :: "string \<Rightarrow> string \<Rightarrow> new_audit_entry" where
  "new_entry event_type actor =
     \<lparr> nae_event_type = event_type, nae_actor = actor, nae_subject = None, nae_metadata = JNull \<rparr>"

definition with_subject :: "string \<Rightarrow> new_audit_entry \<Rightarrow> new_audit_entry" where
  "with_subject s e = e\<lparr> nae_subject := Some s \<rparr>"

definition with_metadata :: "json \<Rightarrow> new_audit_entry \<Rightarrow> new_audit_entry" where
  "with_metadata m e = e\<lparr> nae_metadata := m \<rparr>"

section \<open>Canonical form and digest\<close>

definition GENESIS_PREVIOUS_HASH :: string where
  "GENESIS_PREVIOUS_HASH = ''df245b05e4a1ca45e4eb8a6e002f84f9abf9f22dd751b84129c351546d02656b''"

definition canonicalize ::
  "externals \<Rightarrow> int \<Rightarrow> string \<Rightarrow> string \<Rightarrow> string option \<Rightarrow> instant \<Rightarrow> json \<Rightarrow> (audit_error, string) result"
where
  "canonicalize x chain_position event_type actor subject recorded_at metadata =
     map_err (\<lambda>err. Serialization (''failed to serialize canonical entry: '' @ err))
       (struct_to_string x
         [(''chain_position'', JNum chain_position), (''event_type'', JStr event_type),
          (''actor'', JStr actor), (''subject'', json_opt_str subject),
          (''recorded_at'', JStr (to_rfc3339_millis x recorded_at)), (''metadata'', metadata)])"

definition compute_entry_hash :: "externals \<Rightarrow> string \<Rightarrow> string \<Rightarrow> string" where
  "compute_entry_hash x canonical_json previous_hash =
     sha256_hex x (as_bytes canonical_json @ as_bytes previous_hash)"

definition hashes_equal :: "string \<Rightarrow> string \<Rightarrow> bool" where
  "hashes_equal left right =
     (if length left \<noteq> length right then False
      else xor_fold (as_bytes left) (as_bytes right) = 0)"

definition recompute_canonical_json :: "externals \<Rightarrow> audit_entry \<Rightarrow> (audit_error, string) result" where
  "recompute_canonical_json x e =
     canonicalize x (ae_chain_position e) (ae_event_type e) (ae_actor e) (ae_subject e)
       (ae_recorded_at e) (ae_metadata e)"

section \<open>Verifier\<close>

text \<open>One turn of the verification loop: the failure it reports, if any.\<close>

definition check_entry :: "externals \<Rightarrow> int \<Rightarrow> string \<Rightarrow> audit_entry \<Rightarrow> string option" where
  "check_entry x expected_position expected_previous_hash e =
     (if ae_chain_position e \<noteq> expected_position then
        Some (''expected chain_position '' @ show_int expected_position @ '', found ''
              @ show_int (ae_chain_position e))
      else if \<not> hashes_equal (ae_previous_hash e) expected_previous_hash then
        Some ''previous_hash does not match prior entry_hash''
      else case recompute_canonical_json x e of
        Inl err \<Rightarrow> Some (''failed to recompute canonical_json: '' @ audit_error_display err)
      | Inr canonical \<Rightarrow>
          if canonical \<noteq> ae_canonical_json e then
            Some ''canonical_json does not match stored columns''
          else if \<not> hashes_equal (compute_entry_hash x (ae_canonical_json e) (ae_previous_hash e))
                      (ae_entry_hash e) then
            Some ''entry_hash does not match recomputed digest''
          else None)"

fun verify_loop :: "externals \<Rightarrow> nat \<Rightarrow> string \<Rightarrow> audit_entry list \<Rightarrow> audit_verification_result" where
  "verify_loop x index expected_previous_hash [] = Valid index"
| "verify_loop x index expected_previous_hash (e # es) =
     (case check_entry x (int index + 1) expected_previous_hash e of
        Some reason \<Rightarrow> Broken (ae_chain_position e) reason
      | None \<Rightarrow> verify_loop x (index + 1) (ae_entry_hash e) es)"

definition verify_chain :: "externals \<Rightarrow> audit_entry list \<Rightarrow> audit_verification_result" where
  "verify_chain x entries = verify_loop x 0 GENESIS_PREVIOUS_HASH entries"

fun is_valid :: "audit_verification_result \<Rightarrow> bool" where
  "is_valid (Valid _) = True"
| "is_valid (Broken _ _) = False"

section \<open>Repository\<close>

definition entry_of_row :: "externals \<Rightarrow> audit_row \<Rightarrow> (audit_error, audit_entry) result" where
  "entry_of_row x r =
     rbind (map_err (\<lambda>err. Corrupt (''invalid metadata json: '' @ err))
              (value_from_str x (ar_metadata r))) (\<lambda>metadata.
     rbind (map_err (\<lambda>err. Corrupt (''invalid recorded_at: '' @ err))
              (parse_from_rfc3339 x (ar_recorded_at r))) (\<lambda>recorded_at.
     Inr \<lparr> ae_id = ar_id r, ae_chain_position = ar_chain_position r,
           ae_event_type = ar_event_type r, ae_actor = ar_actor r, ae_subject = ar_subject r,
           ae_metadata = metadata, ae_recorded_at = recorded_at,
           ae_previous_hash = ar_previous_hash r, ae_canonical_json = ar_canonical_json r,
           ae_entry_hash = ar_entry_hash r \<rparr>))"

definition order_asc :: "audit_log \<Rightarrow> audit_log" where
  "order_asc log = sort_key ar_chain_position log"

definition latest_row :: "audit_log \<Rightarrow> audit_row option" where
  "latest_row log = (case rev (order_asc log) of [] \<Rightarrow> None | r # _ \<Rightarrow> Some r)"

definition next_rowid :: "audit_log \<Rightarrow> int" where
  "next_rowid log = foldr max (map ar_id log) 0 + 1"

definition insert_audit_row :: "audit_log \<Rightarrow> audit_row \<Rightarrow> (audit_error, audit_log) result" where
  "insert_audit_row log r =
     (if ar_chain_position r \<in> ar_chain_position ` set log
      then Inl (Repository ''UNIQUE constraint failed: audit_log.chain_position'')
      else Inr (log @ [r]))"

definition append_entry ::
  "externals \<Rightarrow> bool \<Rightarrow> audit_log \<Rightarrow> new_audit_entry \<Rightarrow> instant
     \<Rightarrow> (audit_error, audit_entry) result \<times> audit_log"
where
  "append_entry x up log new recorded_at =
     (let recorded_at_text = to_rfc3339_millis x recorded_at in
      let outcome =
        rbind (map_err (\<lambda>err. Corrupt (''invalid recorded_at: '' @ err))
                 (parse_from_rfc3339 x recorded_at_text)) (\<lambda>recorded_at.
        rbind (map_err (\<lambda>err. Serialization (''failed to serialize metadata: '' @ err))
                 (value_to_string x (nae_metadata new))) (\<lambda>metadata_text.
        rbind (ensure up (Repository ''storage unavailable'')) (\<lambda>_.
        let (chain_position, previous_hash) =
              (case latest_row log of
                 Some r \<Rightarrow> (ar_chain_position r + 1, ar_entry_hash r)
               | None \<Rightarrow> (1, GENESIS_PREVIOUS_HASH)) in
        rbind (canonicalize x chain_position (nae_event_type new) (nae_actor new)
                 (nae_subject new) recorded_at (nae_metadata new)) (\<lambda>canonical_json.
        let entry_hash = compute_entry_hash x canonical_json previous_hash;
            row = \<lparr> ar_id = next_rowid log, ar_chain_position = chain_position,
                    ar_event_type = nae_event_type new, ar_actor = nae_actor new,
                    ar_subject = nae_subject new, ar_metadata = metadata_text,
                    ar_recorded_at = recorded_at_text, ar_previous_hash = previous_hash,
                    ar_canonical_json = canonical_json, ar_entry_hash = entry_hash \<rparr>;
            entry = \<lparr> ae_id = next_rowid log, ae_chain_position = chain_position,
                      ae_event_type = nae_event_type new, ae_actor = nae_actor new,
                      ae_subject = nae_subject new, ae_metadata = nae_metadata new,
                      ae_recorded_at = recorded_at, ae_previous_hash = previous_hash,
                      ae_canonical_json = canonical_json, ae_entry_hash = entry_hash \<rparr> in
        rbind (insert_audit_row log row) (\<lambda>log'. Inr (entry, log'))))))
      in case outcome of Inl err \<Rightarrow> (Inl err, log) | Inr (entry, log') \<Rightarrow> (Inr entry, log'))"

definition latest_entry :: "externals \<Rightarrow> bool \<Rightarrow> audit_log \<Rightarrow> (audit_error, audit_entry option) result" where
  "latest_entry x up log =
     rbind (ensure up (Repository ''storage unavailable'')) (\<lambda>_.
     case latest_row log of
       None \<Rightarrow> Inr None
     | Some r \<Rightarrow> rbind (entry_of_row x r) (\<lambda>e. Inr (Some e)))"

definition list_entries :: "externals \<Rightarrow> bool \<Rightarrow> audit_log \<Rightarrow> (audit_error, audit_entry list) result" where
  "list_entries x up log =
     rbind (ensure up (Repository ''storage unavailable'')) (\<lambda>_.
     collect_results (entry_of_row x) (order_asc log))"

section \<open>Service\<close>

definition append_audit_event ::
  "externals \<Rightarrow> bool \<Rightarrow> instant \<Rightarrow> audit_log \<Rightarrow> new_audit_entry
     \<Rightarrow> (audit_error, audit_entry) result \<times> audit_log"
where
  "append_audit_event x up now log event = append_entry x up log event now"

definition audit_verify ::
  "externals \<Rightarrow> bool \<Rightarrow> audit_log \<Rightarrow> (audit_error, audit_verification_result) result"
where
  "audit_verify x up log = rbind (list_entries x up log) (\<lambda>entries. Inr (verify_chain x entries))"

definition get_tip :: "externals \<Rightarrow> bool \<Rightarrow> audit_log \<Rightarrow> (audit_error, audit_tip option) result" where
  "get_tip x up log =
     rbind (latest_entry x up log) (\<lambda>e.
     Inr (map_option (\<lambda>entry. \<lparr> tip_chain_position = ae_chain_position entry,
                               tip_entry_hash = ae_entry_hash entry \<rparr>) e))"

section \<open>Digest comparison\<close>

lemma hashes_equal_iff [simp]: "hashes_equal l r \<longleftrightarrow> l = r"
  by (auto simp: hashes_equal_def xor_fold_eq_0_iff)

text \<open>The bytes that the digest of an entry is taken of.\<close>

definition hashed_bytes :: "audit_entry \<Rightarrow> byte list" where
  "hashed_bytes e = as_bytes (ae_canonical_json e) @ as_bytes (ae_previous_hash e)"

lemma compute_entry_hash_eqD:
  assumes "compute_entry_hash x (ae_canonical_json e) (ae_previous_hash e)
      = compute_entry_hash x (ae_canonical_json e') (ae_previous_hash e')"
    and "length (ae_previous_hash e) = length (ae_previous_hash e')"
  shows "sha256_collide x (hashed_bytes e) (hashed_bytes e')
    \<or> ae_canonical_json e = ae_canonical_json e' \<and> ae_previous_hash e = ae_previous_hash e'"
  using sha256_hex_eqD [OF assms(1) [unfolded compute_entry_hash_def]] assms(2)
  by (auto simp: hashed_bytes_def simp flip: as_bytes_append)

lemma length_compute_entry_hash: "digest_contract x \<Longrightarrow> length (compute_entry_hash x c p) = 64"
  by (simp add: digest_contract_def compute_entry_hash_def)

section \<open>The chain that the verifier accepts\<close>

text \<open>An entry linked to the hash before it, and a list of entries so linked.\<close>

definition linked :: "externals \<Rightarrow> int \<Rightarrow> string \<Rightarrow> audit_entry \<Rightarrow> bool" where
  "linked x position prev e \<longleftrightarrow>
     ae_chain_position e = position \<and> ae_previous_hash e = prev
   \<and> recompute_canonical_json x e = Inr (ae_canonical_json e)
   \<and> ae_entry_hash e = compute_entry_hash x (ae_canonical_json e) (ae_previous_hash e)"

definition last_hash :: "string \<Rightarrow> audit_entry list \<Rightarrow> string" where
  "last_hash prev es = (if es = [] then prev else ae_entry_hash (last es))"

fun well_linked :: "externals \<Rightarrow> nat \<Rightarrow> string \<Rightarrow> audit_entry list \<Rightarrow> bool" where
  "well_linked x index prev [] = True"
| "well_linked x index prev (e # es) =
     (linked x (int index + 1) prev e \<and> well_linked x (index + 1) (ae_entry_hash e) es)"

lemma check_entry_None_iff: "check_entry x i p e = None \<longleftrightarrow> linked x i p e"
  by (auto simp: check_entry_def linked_def split: sum.splits)

lemma verify_loop_Valid_iff:
  "verify_loop x i p es = Valid n \<longleftrightarrow> well_linked x i p es \<and> n = i + length es"
  by (induction es arbitrary: i p)
    (auto simp: check_entry_None_iff [symmetric] split: option.splits)

lemma last_hash_Cons [simp]: "last_hash p (e # es) = last_hash (ae_entry_hash e) es"
  by (simp add: last_hash_def)

lemma last_hash_Nil [simp]: "last_hash p [] = p"
  by (simp add: last_hash_def)

lemma last_hash_snoc [simp]: "last_hash p (es @ [e]) = ae_entry_hash e"
  by (simp add: last_hash_def)

lemma well_linked_append:
  "well_linked x i p (es @ fs) \<longleftrightarrow>
     well_linked x i p es \<and> well_linked x (i + length es) (last_hash p es) fs"
  by (induction es arbitrary: i p) (auto simp: add.commute add.left_commute)

lemma verify_loop_append:
  assumes "well_linked x i p es"
  shows "verify_loop x i p (es @ fs) = verify_loop x (i + length es) (last_hash p es) fs"
  using assms
  by (induction es arbitrary: i p) (auto simp: check_entry_None_iff [symmetric])

lemma well_linked_positions:
  "well_linked x i p es \<Longrightarrow> map ae_chain_position es = map (\<lambda>k. int k + 1) [i..<i + length es]"
proof (induction es arbitrary: i p)
  case (Cons e es)
  from Cons.prems have "well_linked x (Suc i) (ae_entry_hash e) es" by simp
  from Cons.IH [OF this]
  have "map ae_chain_position es = map (\<lambda>k. int k + 1) [Suc i..<Suc i + length es]" .
  with Cons.prems show ?case by (simp add: linked_def upt_conv_Cons del: upt_Suc)
qed simp

lemma well_linked_hash_length:
  assumes "digest_contract x" "length p = 64" "well_linked x i p es"
  shows "length (last_hash p es) = 64"
  using assms(2,3)
proof (induction es arbitrary: i p)
  case (Cons e es)
  from Cons.prems have "length (ae_entry_hash e) = 64"
    by (simp add: linked_def length_compute_entry_hash [OF assms(1)])
  with Cons.IH [of "ae_entry_hash e" "Suc i"] Cons.prems show ?case by simp
qed simp

lemma length_GENESIS [simp]: "length GENESIS_PREVIOUS_HASH = 64"
  by (simp add: GENESIS_PREVIOUS_HASH_def)

section \<open>Tamper evidence\<close>

text \<open>The columns that the digest covers, with the time as it is rendered.\<close>

definition business_columns ::
  "externals \<Rightarrow> audit_entry \<Rightarrow> int \<times> string \<times> string \<times> string option \<times> string \<times> json"
where
  "business_columns x e =
     (ae_chain_position e, ae_event_type e, ae_actor e, ae_subject e,
      to_rfc3339_millis x (ae_recorded_at e), ae_metadata e)"

lemma json_opt_str_inject [simp]: "json_opt_str s = json_opt_str t \<longleftrightarrow> s = t"
  by (cases s; cases t) auto

lemma recompute_canonical_json_inject:
  assumes "json_contract x"
    and "recompute_canonical_json x e = Inr c" "recompute_canonical_json x e' = Inr c"
  shows "business_columns x e = business_columns x e'"
  using struct_to_string_inject [OF assms(1)] assms(2,3)
  by (fastforce simp: recompute_canonical_json_def canonicalize_def business_columns_def)

lemma well_linked_tip_determines:
  assumes "digest_contract x" "json_contract x" "length p = 64"
  shows "well_linked x i p es \<Longrightarrow> well_linked x i p es' \<Longrightarrow> length es = length es' \<Longrightarrow>
    last_hash p es = last_hash p es' \<Longrightarrow>
    (\<exists>k < length es. sha256_collide x (hashed_bytes (es ! k)) (hashed_bytes (es' ! k)))
    \<or> map (business_columns x) es = map (business_columns x) es'"
proof (induction es arbitrary: es' rule: rev_induct)
  case (snoc e es)
  then obtain e' fs where es': "es' = fs @ [e']" and len: "length es = length fs"
    by (cases es' rule: rev_cases) auto
  have wl: "well_linked x i p es" "well_linked x i p fs"
    and l: "linked x (int (i + length es) + 1) (last_hash p es) e"
    and l': "linked x (int (i + length es) + 1) (last_hash p fs) e'"
    using snoc.prems len by (auto simp: es' well_linked_append)
  have prev: "ae_previous_hash e = last_hash p es" "ae_previous_hash e' = last_hash p fs"
    using l l' by (simp_all add: linked_def)
  have "compute_entry_hash x (ae_canonical_json e) (ae_previous_hash e)
      = compute_entry_hash x (ae_canonical_json e') (ae_previous_hash e')"
    using snoc.prems(4) l l' by (simp add: es' linked_def)
  then consider "sha256_collide x (hashed_bytes e) (hashed_bytes e')"
    | "ae_canonical_json e = ae_canonical_json e'" "last_hash p es = last_hash p fs"
    using compute_entry_hash_eqD well_linked_hash_length [OF assms(1,3)] wl prev by metis
  then show ?case
  proof cases
    case 1
    then show ?thesis using len by (intro disjI1 exI [of _ "length es"]) (simp add: es' nth_append)
  next
    case 2
    then have "business_columns x e = business_columns x e'"
      using l l' recompute_canonical_json_inject [OF assms(2)] by (simp add: linked_def)
    moreover have "(\<exists>k < length es. sha256_collide x (hashed_bytes (es ! k)) (hashed_bytes (fs ! k)))
        \<or> map (business_columns x) es = map (business_columns x) fs"
      by (rule snoc.IH [OF wl len 2(2)])
    ultimately show ?thesis using len by (fastforce simp: es' nth_append less_Suc_eq)
  qed
qed simp

section \<open>Appending\<close>

text \<open>A table whose rows, in insertion order, read back as a well-linked chain.\<close>

definition log_intact :: "externals \<Rightarrow> audit_log \<Rightarrow> bool" where
  "log_intact x log \<longleftrightarrow>
     (\<exists>es. collect_results (entry_of_row x) log = Inr es \<and> well_linked x 0 GENESIS_PREVIOUS_HASH es)"

lemma entry_of_row_columns:
  "entry_of_row x r = Inr e \<Longrightarrow>
     ae_chain_position e = ar_chain_position r \<and> ae_entry_hash e = ar_entry_hash r \<and> ae_id e = ar_id r"
  by (auto simp: entry_of_row_def result_simps)

lemma collect_entries_columns:
  assumes "collect_results (entry_of_row x) log = Inr es"
  shows "map ae_chain_position es = map ar_chain_position log"
    and "map ae_entry_hash es = map ar_entry_hash log"
  using assms unfolding collect_results_Inr_iff
  by (induction rule: list_all2_induct) (auto dest: entry_of_row_columns)

lemma sorted_upt_positions: "sorted (map (\<lambda>k. int k + 1) [0..<n])"
  by (induction n) (auto simp: sorted_append)

lemma log_intact_positions:
  "log_intact x log \<Longrightarrow> map ar_chain_position log = map (\<lambda>k. int k + 1) [0..<length log]"
  using well_linked_positions collect_entries_columns collect_results_length
  unfolding log_intact_def by fastforce

lemma order_asc_intact: "log_intact x log \<Longrightarrow> order_asc log = log"
  using log_intact_positions sorted_upt_positions
  by (metis order_asc_def sorted_sort_id sort_key_id_if_sorted)

lemma latest_row_intact:
  "log_intact x log \<Longrightarrow> latest_row log = (if log = [] then None else Some (last log))"
  by (auto simp: latest_row_def order_asc_intact last_rev hd_rev split: list.splits)

lemma list_entries_intact:
  assumes "log_intact x log"
  obtains es where "list_entries x True log = Inr es" "well_linked x 0 GENESIS_PREVIOUS_HASH es"
    "length es = length log"
  using assms order_asc_intact [OF assms] collect_results_length
  by (fastforce simp: list_entries_def log_intact_def)

lemma audit_verify_intact: "log_intact x log \<Longrightarrow> audit_verify x True log = Inr (Valid (length log))"
  by (erule list_entries_intact) (simp add: audit_verify_def verify_chain_def verify_loop_Valid_iff)

text \<open>Every append either adds one row at the end or leaves the table as it was.\<close>

lemma append_entry_cases:
  assumes "append_entry x up log new t = (res, log')"
  obtains (failed) err where "res = Inl err" "log' = log"
    | (appended) entry row where "res = Inr entry" "log' = log @ [row]" "up"
        "ar_chain_position row = ae_chain_position entry"
        "ar_entry_hash row = ae_entry_hash entry"
        "ar_event_type row = nae_event_type new" "ar_actor row = nae_actor new"
        "ar_subject row = nae_subject new"
  using assms
  by (auto simp: append_entry_def Let_def insert_audit_row_def result_simps
      split: sum.splits prod.splits option.splits if_splits)

lemma append_entry_down: "append_entry x False log new t = (res, log') \<Longrightarrow> log' = log \<and> (\<exists>e. res = Inl e)"
  by (erule append_entry_cases) auto

text \<open>The position and the hash that the next append links to.\<close>

definition chain_tip :: "audit_log \<Rightarrow> int \<times> string" where
  "chain_tip log =
     (case latest_row log of Some r \<Rightarrow> (ar_chain_position r + 1, ar_entry_hash r)
      | None \<Rightarrow> (1, GENESIS_PREVIOUS_HASH))"

lemma chain_tip_intact:
  assumes log: "log_intact x log" and es: "collect_results (entry_of_row x) log = Inr es"
  shows "chain_tip log = (int (length log) + 1, last_hash GENESIS_PREVIOUS_HASH es)"
proof (cases "log = []")
  case True
  with es show ?thesis by (simp add: chain_tip_def latest_row_def order_asc_def)
next
  case False
  then have ne: "es \<noteq> []" using collect_results_length [OF es] by auto
  have "ar_entry_hash (last log) = ae_entry_hash (last es)"
    using collect_entries_columns(2) [OF es] ne False by (metis last_map)
  moreover have "ar_chain_position (last log) = int (length log)"
    using arg_cong [OF log_intact_positions [OF log], of last] False
    by (simp add: last_map of_nat_diff Suc_le_eq)
  ultimately show ?thesis
    using False ne by (simp add: latest_row_intact [OF log] chain_tip_def last_hash_def)
qed

lemma chain_tip_fresh:
  "log_intact x log \<Longrightarrow> int (length log) + 1 \<notin> ar_chain_position ` set log"
proof -
  assume "log_intact x log"
  then have "set (map ar_chain_position log) = set (map (\<lambda>k. int k + 1) [0..<length log])"
    by (simp only: log_intact_positions)
  then show ?thesis by auto
qed

lemma canonicalize_ok:
  assumes "json_contract x"
  obtains cj where "canonicalize x position event_type actor subject t metadata = Inr cj"
  using json_contract_struct [OF assms] unfolding canonicalize_def map_err_Inr_iff by blast

lemma append_entry_intact:
  assumes x: "json_contract x" "rfc3339_contract x"
    and log: "log_intact x log" and wf: "json_wf (nae_metadata new)" and t: "rfc3339_range t"
  obtains entry row where "append_entry x True log new t = (Inr entry, log @ [row])"
    "entry_of_row x row = Inr entry" "log_intact x (log @ [row])"
    "ae_event_type entry = nae_event_type new" "ae_actor entry = nae_actor new"
    "ae_subject entry = nae_subject new" "ae_metadata entry = nae_metadata new"
    "ae_recorded_at entry = trunc_ms t" "ae_chain_position entry = int (length log) + 1"
proof -
  obtain ms where ms: "value_to_string x (nae_metadata new) = Inr ms"
      "value_from_str x ms = Inr (nae_metadata new)"
    using json_contract_value [OF x(1) wf] .
  obtain es where es: "collect_results (entry_of_row x) log = Inr es"
      "well_linked x 0 GENESIS_PREVIOUS_HASH es" using log by (auto simp: log_intact_def)
  have len: "length es = length log" using es collect_results_length by fastforce
  define pos where "pos = int (length log) + 1"
  define prev where "prev = last_hash GENESIS_PREVIOUS_HASH es"
  have tip: "chain_tip log = (pos, prev)"
    using chain_tip_intact [OF log es(1)] by (simp add: pos_def prev_def)
  obtain cj where cj: "canonicalize x pos (nae_event_type new) (nae_actor new) (nae_subject new)
      (trunc_ms t) (nae_metadata new) = Inr cj"
    using canonicalize_ok [OF x(1)] .
  have fresh: "pos \<notin> ar_chain_position ` set log"
    using chain_tip_fresh [OF log] by (simp add: pos_def)
  define h where "h = compute_entry_hash x cj prev"
  define row where "row = \<lparr> ar_id = next_rowid log, ar_chain_position = pos,
     ar_event_type = nae_event_type new, ar_actor = nae_actor new, ar_subject = nae_subject new,
     ar_metadata = ms, ar_recorded_at = to_rfc3339_millis x t, ar_previous_hash = prev,
     ar_canonical_json = cj, ar_entry_hash = h \<rparr>"
  define entry where "entry = \<lparr> ae_id = next_rowid log, ae_chain_position = pos,
     ae_event_type = nae_event_type new, ae_actor = nae_actor new, ae_subject = nae_subject new,
     ae_metadata = nae_metadata new, ae_recorded_at = trunc_ms t, ae_previous_hash = prev,
     ae_canonical_json = cj, ae_entry_hash = h \<rparr>"
  note rt = rfc3339_contractD [OF x(2) t]
  have app: "append_entry x True log new t = (Inr entry, log @ [row])"
    unfolding append_entry_def Let_def
    by (simp add: rt ms tip [unfolded chain_tip_def] cj insert_audit_row_def fresh row_def entry_def h_def)
  have row: "entry_of_row x row = Inr entry"
    by (simp add: entry_of_row_def row_def entry_def rt ms)
  have "linked x pos prev entry"
    by (simp add: linked_def entry_def recompute_canonical_json_def cj h_def)
  then have "log_intact x (log @ [row])"
    using es row len
    by (simp add: log_intact_def collect_results_append well_linked_append pos_def prev_def)
  then show thesis using that [OF app row] by (simp add: entry_def pos_def)
qed

section \<open>The append-only contract\<close>

text \<open>
  What the clients of a log rely on: an append that fails leaves the rows as they
  were, one that succeeds adds a row at the end.
\<close>

locale append_only_log =
  fixes append :: "'ev \<Rightarrow> 'row list \<Rightarrow> ('e, 'r) result \<times> 'row list"
  assumes append_Inl: "append ev rows = (Inl err, rows') \<Longrightarrow> rows' = rows"
    and append_Inr: "append ev rows = (Inr res, rows') \<Longrightarrow> \<exists>row. rows' = rows @ [row]"
begin

lemma append_prefix: "append ev rows = (res, rows') \<Longrightarrow> prefix rows rows'"
  by (cases res) (auto dest: append_Inl append_Inr)

lemma append_all_prefix: "prefix rows (foldl (\<lambda>rows ev. snd (append ev rows)) rows evs)"
proof (induction evs arbitrary: rows)
  case (Cons ev evs)
  have "prefix rows (snd (append ev rows))"
    by (metis append_prefix prod.collapse)
  with Cons [of "snd (append ev rows)"] show ?case by (auto intro: prefix_order.trans)
qed simp

lemma append_all_length: "length (foldl (\<lambda>rows ev. snd (append ev rows)) rows evs) \<le> length rows + length evs"
proof (induction evs arbitrary: rows)
  case (Cons ev evs)
  have "length (snd (append ev rows)) \<le> Suc (length rows)"
    by (cases "append ev rows"; cases "fst (append ev rows)") (auto dest: append_Inl append_Inr)
  with Cons [of "snd (append ev rows)"] show ?case by simp
qed simp

end

interpretation audit_store: append_only_log "\<lambda>(up, now, event) log. append_audit_event x up now log event"
  for x
  by unfold_locales
    (auto simp: append_audit_event_def elim!: append_entry_cases)

section \<open>Logs that the service builds\<close>

inductive audit_reachable :: "externals \<Rightarrow> audit_log \<Rightarrow> bool" for x where
  empty: "audit_reachable x []"
| append: "audit_reachable x (snd (append_audit_event x up now log event))"
    if "audit_reachable x log" "json_wf (nae_metadata event)" "rfc3339_range now"

lemma log_intact_Nil [simp]: "log_intact x []"
  by (simp add: log_intact_def)

lemma append_audit_event_intact:
  assumes "json_contract x" "rfc3339_contract x"
    and "log_intact x log" "json_wf (nae_metadata event)" "rfc3339_range now"
  shows "log_intact x (snd (append_audit_event x up now log event))"
proof (cases up)
  case True
  then show ?thesis
    by (simp add: append_audit_event_def) (rule append_entry_intact [OF assms], simp)
next
  case False
  with assms(3) show ?thesis
    by (cases "append_entry x False log event now")
      (auto simp: append_audit_event_def dest: append_entry_down)
qed

lemma audit_reachable_intact:
  assumes "json_contract x" "rfc3339_contract x" "audit_reachable x log"
  shows "log_intact x log"
  using assms(3)
  by induction (simp_all add: append_audit_event_intact [OF assms(1,2)])

section \<open>Properties\<close>

lemma well_linked_nth:
  "well_linked x k p es \<longleftrightarrow>
     (\<forall>i < length es. linked x (int (k + i) + 1)
        (if i = 0 then p else ae_entry_hash (es ! (i - 1))) (es ! i))"
proof (induction es arbitrary: k p)
  case (Cons e es)
  have "(\<forall>i < length (e # es). P i) \<longleftrightarrow> P 0 \<and> (\<forall>i < length es. P (Suc i))" for P
    by (auto simp: less_Suc_eq_0_disj)
  moreover have "ae_entry_hash ((e # es) ! i) = (if i = 0 then ae_entry_hash e else ae_entry_hash (es ! (i - 1)))"
    for i by (cases i) simp_all
  ultimately show ?case by (simp add: Cons [of "Suc k" "ae_entry_hash e"])
qed simp

lemma verify_loop_BrokenD:
  "verify_loop x k p es = Broken position reason \<Longrightarrow>
     \<exists>pre e post. es = pre @ e # post \<and> well_linked x k p pre \<and> position = ae_chain_position e \<and>
        check_entry x (int (k + length pre) + 1) (last_hash p pre) e = Some reason"
proof (induction es arbitrary: k p)
  case (Cons e es)
  show ?case
  proof (cases "check_entry x (int k + 1) p e")
    case None
    then obtain pre e' post where "es = pre @ e' # post" "well_linked x (Suc k) (ae_entry_hash e) pre"
      "position = ae_chain_position e'"
      "check_entry x (int (Suc k + length pre) + 1) (last_hash (ae_entry_hash e) pre) e' = Some reason"
      using Cons.IH [of "Suc k" "ae_entry_hash e"] Cons.prems by auto
    then show ?thesis using None
      by (intro exI [of _ "e # pre"] exI [of _ e'] exI [of _ post]) (simp add: check_entry_None_iff)
  next
    case (Some r)
    with Cons.prems show ?thesis by (intro exI [of _ "[]"]) auto
  qed
qed simp

text \<open>C10. The verifier is exact: it reports \<^verbatim>\<open>Valid\<close> with the number of entries precisely when
  every entry carries its own 1-based position, links to the hash of the entry before it (the
  genesis hash for the first), stores the canonical form of its own columns, and stores the
  digest of that form and of its link.\<close>

theorem verify_chain_exact:
  "verify_chain x es = Valid n \<longleftrightarrow>
     n = length es \<and>
     (\<forall>i < length es. linked x (int i + 1)
        (if i = 0 then GENESIS_PREVIOUS_HASH else ae_entry_hash (es ! (i - 1))) (es ! i))"
  (is "_ = (_ \<and> ?Q es)")
  by (auto simp: verify_chain_def verify_loop_Valid_iff well_linked_nth)

text \<open>A broken chain is reported at its first bad entry: the reported position and reason
  are those of the first entry that fails a check, all entries before it being linked.\<close>

theorem verify_chain_first_broken:
  "verify_chain x es = Broken position reason \<longleftrightarrow>
     (\<exists>pre e post. es = pre @ e # post \<and> verify_chain x pre = Valid (length pre) \<and>
        position = ae_chain_position e \<and>
        check_entry x (int (length pre) + 1) (last_hash GENESIS_PREVIOUS_HASH pre) e = Some reason)"
  using verify_loop_BrokenD [of x 0 GENESIS_PREVIOUS_HASH es position reason]
  by (auto simp: verify_chain_def verify_loop_Valid_iff verify_loop_append)

text \<open>C1. Tamper evidence: two logs that both verify, have the same number of entries and end in
  the same hash agree on every business column of every entry (position, event, actor, subject,
  rendered time, metadata), unless at some position the bytes hashed for the entry of the one log
  and those hashed for the entry of the other are different and have the same SHA-256 digest.
  Whoever rewrites history under an unchanged tip therefore exhibits a collision, in the very
  entries they rewrote.\<close>

theorem tamper_evident:
  assumes "digest_contract x" "json_contract x"
    and "verify_chain x es = Valid n" "verify_chain x es' = Valid n"
    and "last_hash GENESIS_PREVIOUS_HASH es = last_hash GENESIS_PREVIOUS_HASH es'"
  shows "map (business_columns x) es = map (business_columns x) es'
    \<or> (\<exists>k < length es. sha256_collide x (hashed_bytes (es ! k)) (hashed_bytes (es' ! k)))"
  using assms well_linked_tip_determines [OF assms(1,2) length_GENESIS, of 0 es es']
  by (auto simp: verify_chain_def verify_loop_Valid_iff)

text \<open>C2. Logs built by the service verify: whatever sequence of appends (successful or failed)
  led to a log, verification accepts all of its rows, and with storage available the next append
  succeeds, is placed at the next position and leaves a log that verifies again.\<close>

theorem reachable_log_verifies:
  assumes "json_contract x" "rfc3339_contract x" "audit_reachable x log"
    and "json_wf (nae_metadata event)" "rfc3339_range now"
  shows "audit_verify x True log = Inr (Valid (length log)) \<and>
    (\<exists>entry row. append_audit_event x True now log event = (Inr entry, log @ [row]) \<and>
       entry_of_row x row = Inr entry \<and> ae_chain_position entry = int (length log) + 1 \<and>
       ae_recorded_at entry = trunc_ms now \<and>
       audit_verify x True (log @ [row]) = Inr (Valid (length log + 1)))"
proof -
  note intact = audit_reachable_intact [OF assms(1-3)]
  from append_entry_intact [OF assms(1,2) intact assms(4,5)] obtain entry row where
    "append_entry x True log event now = (Inr entry, log @ [row])"
    "entry_of_row x row = Inr entry" "log_intact x (log @ [row])"
    "ae_recorded_at entry = trunc_ms now" "ae_chain_position entry = int (length log) + 1"
    by metis
  then show ?thesis
    using audit_verify_intact [OF intact] audit_verify_intact [of x "log @ [row]"]
    by (auto simp: append_audit_event_def)
qed

text \<open>The log is append-only: whatever events are submitted, with storage failing at any of
  them, the rows already written stay in place as a prefix of the table, and at most one row is
  added for each event.\<close>

theorem audit_log_append_only:
  "let log' = foldl (\<lambda>log (up, now, event). snd (append_audit_event x up now log event)) log events
   in prefix log log' \<and> length log' \<le> length log + length events"
  using audit_store.append_all_prefix [of log x events] audit_store.append_all_length [of x log events]
  by (simp add: Let_def case_prod_unfold)

section \<open>Witnesses\<close>

definition demo_event :: new_audit_entry where
  "demo_event = with_subject ''web-01'' (new_entry ''machine.enrolled'' ''system'')"

lemma demo_chain:
  obtains e row where "verify_chain ref_externals [e] = Valid 1" "entry_of_row ref_externals row = Inr e"
    "ae_actor e = ''system''"
    "append_audit_event ref_externals True 0 [] demo_event = (Inr e, [row])"
proof -
  have "json_wf (nae_metadata demo_event)" "rfc3339_range 0"
    by (simp_all add: demo_event_def with_subject_def new_entry_def rfc3339_range_def seconds_def
        nanos_per_sec_def)
  then obtain e row where e: "append_entry ref_externals True [] demo_event 0 = (Inr e, [] @ [row])"
      "entry_of_row ref_externals row = Inr e" "log_intact ref_externals ([] @ [row])"
      "ae_actor e = nae_actor demo_event"
    using append_entry_intact [OF ref_json_contract ref_rfc3339_contract log_intact_Nil] by metis
  then have "verify_chain ref_externals [e] = Valid 1"
    by (auto simp: log_intact_def verify_chain_def verify_loop_Valid_iff simp del: verify_loop.simps)
  with e show thesis
    by (intro that) (simp_all add: append_audit_event_def demo_event_def with_subject_def new_entry_def)
qed

theorem verify_chain_exact_witness:
  "\<exists>e. verify_chain ref_externals [e] = Valid 1 \<and> linked ref_externals 1 GENESIS_PREVIOUS_HASH e"
proof -
  obtain e where "verify_chain ref_externals [e] = Valid 1" by (rule demo_chain)
  with verify_chain_exact [of ref_externals "[e]" 1] show ?thesis by auto
qed

text \<open>
  Two different entries (the row identifier is not covered) that both verify and end in the same hash,
  without a collision.
\<close>

theorem tamper_evident_witness:
  "\<exists>e e'. e \<noteq> e' \<and> verify_chain ref_externals [e] = Valid 1 \<and> verify_chain ref_externals [e'] = Valid 1
     \<and> ae_entry_hash e = ae_entry_hash e' \<and> hashed_bytes e = hashed_bytes e'
     \<and> business_columns ref_externals e = business_columns ref_externals e'"
proof -
  obtain e where e: "verify_chain ref_externals [e] = Valid 1" by (rule demo_chain)
  define e' where "e' = e\<lparr> ae_id := ae_id e + 1 \<rparr>"
  have e': "verify_chain ref_externals [e'] = Valid 1"
    using e by (auto simp: verify_chain_def verify_loop_Valid_iff linked_def recompute_canonical_json_def e'_def
        simp del: verify_loop.simps)
  have same: "ae_entry_hash e = ae_entry_hash e'" "hashed_bytes e = hashed_bytes e'" "e \<noteq> e'"
    by (cases e; simp add: e'_def hashed_bytes_def)+
  then have "business_columns ref_externals e = business_columns ref_externals e'"
    using tamper_evident [OF ref_digest_contract ref_json_contract e e'] by (simp add: last_hash_def)
  with e e' same show ?thesis by blast
qed

theorem reachable_log_verifies_witness:
  "\<exists>entry row. append_audit_event ref_externals True 0 [] demo_event = (Inr entry, [row]) \<and>
     audit_verify ref_externals True [row] = Inr (Valid 1)"
proof -
  have "json_wf (nae_metadata demo_event)" "rfc3339_range 0"
    by (simp_all add: demo_event_def with_subject_def new_entry_def rfc3339_range_def seconds_def
        nanos_per_sec_def)
  with reachable_log_verifies [OF ref_json_contract ref_rfc3339_contract audit_reachable.empty]
  show ?thesis by fastforce
qed

end
