(* ===== verification/TextOps.thy ===== *)
theory TextOps
  imports Instances
begin

text \<open>
  Text operations of the Rust standard library that the HTTP-facing components
  use beyond those of the prelude: characters of UTF-8 text, control
  characters, splitting, padding-free trimming of one character, the debug form of
  strings, and the values of HTTP headers.
\<close>

section \<open>Characters of UTF-8 text\<close>

definition is_continuation :: "char \<Rightarrow> bool" where
  "is_continuation c \<longleftrightarrow> 128 \<le> char_code c \<and> char_code c < 192"

text \<open>\<^verbatim>\<open>str::chars\<close>: the encodings of the characters, a lead byte with its continuation bytes.\<close>

function utf8_chars :: "string \<Rightarrow> string list" where
  "utf8_chars [] = []"
| "utf8_chars (c # cs) =
     (c # takeWhile is_continuation cs) # utf8_chars (dropWhile is_continuation cs)"
  by pat_completeness auto

termination
  by (relation "measure length") (auto simp: le_imp_less_Suc length_dropWhile_le)

text \<open>\<^verbatim>\<open>char::is_control\<close>: U+0000 to U+001F and U+007F to U+009F.\<close>

fun is_control :: "string \<Rightarrow> bool" where
  "is_control [c] \<longleftrightarrow> char_code c < 32 \<or> char_code c = 127"
| "is_control [c, d] \<longleftrightarrow> char_code c = 194 \<and> 128 \<le> char_code d \<and> char_code d < 160"
| "is_control _ \<longleftrightarrow> False"

definition has_control :: "string \<Rightarrow> bool" where
  "has_control s \<longleftrightarrow> list_ex is_control (utf8_chars s)"

lemma concat_utf8_chars [simp]: "concat (utf8_chars s) = s"
  by (induction s rule: utf8_chars.induct) simp_all

text \<open>Encodings of characters: nonempty, continuation bytes exactly after the first byte.\<close>

definition is_char_encoding :: "string \<Rightarrow> bool" where
  "is_char_encoding ch \<longleftrightarrow> (\<exists>c cs. ch = c # cs \<and> list_all is_continuation cs)"

lemma utf8_chars_encodings: "list_all is_char_encoding (utf8_chars s)"
  by (induction s rule: utf8_chars.induct)
    (auto simp: is_char_encoding_def list_all_iff dest: set_takeWhileD)

lemma is_ascii_not_continuation: "char_code c < 128 \<Longrightarrow> \<not> is_continuation c"
  by (simp add: is_continuation_def)

lemma utf8_chars_ascii:
  "list_all (\<lambda>c. char_code c < 128) s \<Longrightarrow> utf8_chars s = map (\<lambda>c. [c]) s"
proof (induction s rule: utf8_chars.induct)
  case (2 c cs)
  have "takeWhile is_continuation cs = []" "dropWhile is_continuation cs = cs"
    using 2(2) by (cases cs; simp add: is_ascii_not_continuation)+
  with 2 show ?case by simp
qed simp

lemma utf8_chars_concat:
  assumes "list_all (\<lambda>ch. \<exists>c cs. ch = c # cs \<and> \<not> is_continuation c \<and> list_all is_continuation cs) chs"
  shows "utf8_chars (concat chs) = chs"
  using assms
proof (induction chs)
  case (Cons ch chs)
  from Cons.prems obtain c cs where ch: "ch = c # cs" "list_all is_continuation cs" by auto
  have hd: "concat chs = [] \<or> \<not> is_continuation (hd (concat chs))"
    using Cons.prems by (cases chs) auto
  have "takeWhile is_continuation (cs @ concat chs) = cs"
    "dropWhile is_continuation (cs @ concat chs) = concat chs"
    using ch(2) hd by (auto simp: takeWhile_append2 dropWhile_append2 list_all_iff
        takeWhile_eq_Nil_iff dropWhile_eq_self_iff)
  with Cons ch show ?case by simp
qed simp

section \<open>Splitting and trimming\<close>

text \<open>\<^verbatim>\<open>split_once(c)\<close>, at the first occurrence of a one-byte character.\<close>

fun split_once :: "char \<Rightarrow> string \<Rightarrow> (string \<times> string) option" where
  "split_once d [] = None"
| "split_once d (c # cs) =
     (if c = d then Some ([], cs) else map_option (\<lambda>(a, b). (c # a, b)) (split_once d cs))"

lemma split_once_Some_iff:
  "split_once d s = Some (a, b) \<longleftrightarrow> s = a @ d # b \<and> d \<notin> set a"
proof (induction s arbitrary: a)
  case (Cons c cs)
  then show ?case by (cases a) auto
qed simp

text \<open>\<^verbatim>\<open>split_once(p)\<close> and \<^verbatim>\<open>rsplit_once(p)\<close> for a string pattern.\<close>

fun split_once_str :: "string \<Rightarrow> string \<Rightarrow> (string \<times> string) option" where
  "split_once_str p [] = map_option (\<lambda>t. ([], t)) (strip_prefix p [])"
| "split_once_str p (c # cs) =
     (case strip_prefix p (c # cs) of
        Some t \<Rightarrow> Some ([], t)
      | None \<Rightarrow> map_option (\<lambda>(a, b). (c # a, b)) (split_once_str p cs))"

definition rsplit_once_str :: "string \<Rightarrow> string \<Rightarrow> (string \<times> string) option" where
  "rsplit_once_str p s =
     map_option (\<lambda>(a, b). (rev b, rev a)) (split_once_str (rev p) (rev s))"

definition trim_start_matches :: "char \<Rightarrow> string \<Rightarrow> string" where
  "trim_start_matches d s = dropWhile (\<lambda>c. c = d) s"

definition trim_end_matches :: "char \<Rightarrow> string \<Rightarrow> string" where
  "trim_end_matches d s = rev (dropWhile (\<lambda>c. c = d) (rev s))"

definition trim_matches :: "char \<Rightarrow> string \<Rightarrow> string" where
  "trim_matches d s = trim_end_matches d (trim_start_matches d s)"

text \<open>\<^verbatim>\<open>Some(s)\<close> with the text trimmed, or nothing for blank text.\<close>

definition non_blank :: "string \<Rightarrow> string option" where
  "non_blank s = (if s = [] then None else Some s)"

section \<open>Debug form of strings\<close>

definition lower_hex_digit :: "nat \<Rightarrow> char" where
  "lower_hex_digit n = (if n < 10 then char_of (48 + n) else char_of (87 + n))"

definition lower_hex :: "nat \<Rightarrow> string" where
  "lower_hex n = (if n < 16 then [lower_hex_digit n] else [lower_hex_digit (n div 16), lower_hex_digit (n mod 16)])"

definition debug_char :: "externals \<Rightarrow> string \<Rightarrow> string" where
  "debug_char x ch =
     (case ch of
        [c] \<Rightarrow>
          if c = CHR 0x22 then [CHR 0x5C, CHR 0x22]
          else if c = CHR 0x5C then [CHR 0x5C, CHR 0x5C]
          else if char_code c = 9 then [CHR 0x5C, CHR ''t'']
          else if char_code c = 10 then [CHR 0x5C, CHR ''n'']
          else if char_code c = 13 then [CHR 0x5C, CHR ''r'']
          else if char_code c = 0 then [CHR 0x5C, CHR ''0'']
          else if char_code c < 32 \<or> char_code c = 127
            then [CHR 0x5C] @ ''u{'' @ lower_hex (char_code c) @ ''}''
          else [c]
      | _ \<Rightarrow> unicode_debug x ch)"

definition debug_string :: "externals \<Rightarrow> string \<Rightarrow> string" where
  "debug_string x s = [CHR 0x22] @ concat (map (debug_char x) (utf8_chars s)) @ [CHR 0x22]"

definition intercalate :: "string \<Rightarrow> string list \<Rightarrow> string" where
  "intercalate d ps = (case ps of [] \<Rightarrow> [] | p # ps' \<Rightarrow> p @ concat (map (\<lambda>q. d @ q) ps'))"

definition debug_strings :: "externals \<Rightarrow> string list \<Rightarrow> string" where
  "debug_strings x ss = ''['' @ intercalate '', '' (map (debug_string x) ss) @ '']''"

definition quoted :: "string \<Rightarrow> string" where
  "quoted s = [CHR 0x27] @ s @ [CHR 0x27]"

section \<open>HTTP headers\<close>

type_synonym headers = "(string \<times> string) list"

text \<open>
  \<^verbatim>\<open>HeaderMap::get\<close> with \<^verbatim>\<open>HeaderValue::to_str\<close>: the first value under a (lower-case)
  name, and whether it is visible ASCII.
\<close>

definition header_str :: "headers \<Rightarrow> string \<Rightarrow> string option" where
  "header_str h name =
     (case map_of h name of
        Some v \<Rightarrow> if list_all is_visible_ascii v then Some v else None
      | None \<Rightarrow> None)"

lemma header_str_ascii: "header_str h name = Some v \<Longrightarrow> list_all (\<lambda>c. char_code c < 128) v"
  by (auto simp: header_str_def list_all_iff is_visible_ascii_def split: option.splits if_splits)

end
