(* ===== verification/RequestContext.thy ===== *)
theory RequestContext
  imports AuditLog TextOps
begin

text \<open>
  The client context recorded with audit entries (\<^verbatim>\<open>src/audit/context.rs\<close>): the
  record built from request headers, the cleaning of header values, and
  its JSON form.  The lemmas show that whatever a client sends, every text it
  contributes is free of control characters and of bounded length.
\<close>

definition MAX_VALUE_LEN :: nat where "MAX_VALUE_LEN = 256"

record request_audit_context =
  rac_provider :: "string option"
  rac_request_id :: "string option"
  rac_session_id :: "string option"
  rac_machine_id :: "string option"
  rac_remote_ip :: "string option"
  rac_forwarded_for :: "string option"
  rac_user_agent :: "string option"
  rac_cli_version :: "string option"
  rac_cli_build :: "string option"
  rac_platform :: "string option"
  rac_platform_version :: "string option"
  rac_arch :: "string option"
  rac_hostname :: "string option"
  rac_timezone :: "string option"
  rac_utc_offset :: "string option"
  rac_client_timestamp :: "string option"
  rac_server_timestamp :: string
  rac_clock_drift_ms :: "int option"
  rac_locale :: "string option"
  rac_secure_storage :: "string option"
  rac_ssh_version :: "string option"
  rac_terminal :: "string option"
  rac_ci :: "bool option"
  rac_container :: "bool option"
  rac_certificate_id :: "string option"
  rac_request_duration_ms :: "int option"

definition sanitize :: "string \<Rightarrow> string" where
  "sanitize v = concat (take MAX_VALUE_LEN (filter (\<lambda>ch. \<not> is_control ch) (utf8_chars v)))"

definition header_value :: "headers \<Rightarrow> string \<Rightarrow> string option" where
  "header_value h name =
     map_option sanitize (Option.bind (map_option trim (header_str h name)) non_blank)"

definition remote_ip :: "headers \<Rightarrow> string option" where
  "remote_ip h =
     (case header_value h ''x-real-ip'' of
        Some real \<Rightarrow> Some real
      | None \<Rightarrow>
          Option.bind (header_value h ''x-forwarded-for'')
            (\<lambda>chain. non_blank (trim (hd (split_on (CHR '','') chain)))))"

definition parse_rfc3339 :: "externals \<Rightarrow> string \<Rightarrow> instant option" where
  "parse_rfc3339 x s = (case parse_from_rfc3339 x s of Inr t \<Rightarrow> Some t | Inl _ \<Rightarrow> None)"

definition from_headers ::
  "externals \<Rightarrow> headers \<Rightarrow> string option \<Rightarrow> instant \<Rightarrow> request_audit_context" where
  "from_headers x h request_id now =
     (let get = header_value h;
          client_timestamp = get ''x-mayfly-client-timestamp'';
          clock_drift_ms = map_option (\<lambda>client. num_milliseconds (now - client))
            (Option.bind client_timestamp (parse_rfc3339 x))
      in \<lparr> rac_provider = None,
           rac_request_id = map_option sanitize request_id,
           rac_session_id = get ''x-mayfly-session-id'',
           rac_machine_id = get ''x-mayfly-machine-id'',
           rac_remote_ip = remote_ip h,
           rac_forwarded_for = header_value h ''x-forwarded-for'',
           rac_user_agent = header_value h ''user-agent'',
           rac_cli_version = get ''x-mayfly-client-version'',
           rac_cli_build = get ''x-mayfly-client-build'',
           rac_platform = get ''x-mayfly-platform'',
           rac_platform_version = get ''x-mayfly-platform-version'',
           rac_arch = get ''x-mayfly-arch'',
           rac_hostname = get ''x-mayfly-hostname'',
           rac_timezone = get ''x-mayfly-timezone'',
           rac_utc_offset = get ''x-mayfly-utc-offset'',
           rac_client_timestamp = client_timestamp,
           rac_server_timestamp = to_rfc3339_millis x now,
           rac_clock_drift_ms = clock_drift_ms,
           rac_locale = get ''x-mayfly-locale'',
           rac_secure_storage = get ''x-mayfly-secure-storage'',
           rac_ssh_version = get ''x-mayfly-ssh-version'',
           rac_terminal = get ''x-mayfly-terminal'',
           rac_ci = map_option (\<lambda>v. v = ''true'') (get ''x-mayfly-ci''),
           rac_container = map_option (\<lambda>v. v = ''true'') (get ''x-mayfly-container''),
           rac_certificate_id = None,
           rac_request_duration_ms = None \<rparr>)"

definition with_provider :: "string \<Rightarrow> request_audit_context \<Rightarrow> request_audit_context" where
  "with_provider p ctx = ctx\<lparr> rac_provider := Some p \<rparr>"

text \<open>\<^verbatim>\<open>skip_serializing_if = "Option::is_none"\<close>.\<close>

definition present :: "string \<Rightarrow> ('a \<Rightarrow> json) \<Rightarrow> 'a option \<Rightarrow> (string \<times> json) list" where
  "present name f v = (case v of Some a \<Rightarrow> [(name, f a)] | None \<Rightarrow> [])"

definition context_to_value :: "request_audit_context \<Rightarrow> json" where
  "context_to_value c =
     json_object
      (present ''provider'' JStr (rac_provider c)
       @ present ''request_id'' JStr (rac_request_id c)
       @ present ''session_id'' JStr (rac_session_id c)
       @ present ''machine_id'' JStr (rac_machine_id c)
       @ present ''remote_ip'' JStr (rac_remote_ip c)
       @ present ''forwarded_for'' JStr (rac_forwarded_for c)
       @ present ''user_agent'' JStr (rac_user_agent c)
       @ present ''cli_version'' JStr (rac_cli_version c)
       @ present ''cli_build'' JStr (rac_cli_build c)
       @ present ''platform'' JStr (rac_platform c)
       @ present ''platform_version'' JStr (rac_platform_version c)
       @ present ''arch'' JStr (rac_arch c)
       @ present ''hostname'' JStr (rac_hostname c)
       @ present ''timezone'' JStr (rac_timezone c)
       @ present ''utc_offset'' JStr (rac_utc_offset c)
       @ present ''client_timestamp'' JStr (rac_client_timestamp c)
       @ [(''server_timestamp'', JStr (rac_server_timestamp c))]
       @ present ''clock_drift_ms'' JNum (rac_clock_drift_ms c)
       @ present ''locale'' JStr (rac_locale c)
       @ present ''secure_storage'' JStr (rac_secure_storage c)
       @ present ''ssh_version'' JStr (rac_ssh_version c)
       @ present ''terminal'' JStr (rac_terminal c)
       @ present ''ci'' JBool (rac_ci c)
       @ present ''container'' JBool (rac_container c)
       @ present ''certificate_id'' JStr (rac_certificate_id c)
       @ present ''request_duration_ms'' JNum (rac_request_duration_ms c))"

section \<open>Cleaned text\<close>

definition clean :: "string \<Rightarrow> bool" where
  "clean v \<longleftrightarrow> length (utf8_chars v) \<le> MAX_VALUE_LEN \<and> \<not> has_control v"

text \<open>
  Text whose first byte may start a character: every Rust string.  The bytes of
  a Rust string are valid UTF-8, in particular no continuation byte comes first.
\<close>

definition utf8_start :: "string \<Rightarrow> bool" where
  "utf8_start s \<longleftrightarrow> (case s of [] \<Rightarrow> True | c # _ \<Rightarrow> \<not> is_continuation c)"

lemma utf8_chars_starts:
  assumes "utf8_start s"
  shows "list_all (\<lambda>ch. \<exists>c cs. ch = c # cs \<and> \<not> is_continuation c \<and> list_all is_continuation cs)
           (utf8_chars s)"
  using assms
proof (induction s rule: utf8_chars.induct)
  case (2 c cs)
  have "utf8_start (dropWhile is_continuation cs)"
    by (induction cs) (auto simp: utf8_start_def)
  moreover have "list_all is_continuation (takeWhile is_continuation cs)"
    by (auto simp: list_all_iff dest: set_takeWhileD)
  ultimately show ?case using 2 by (simp add: utf8_start_def)
qed simp

lemma sanitize_chars:
  assumes "utf8_start s"
  shows "utf8_chars (sanitize s) = take MAX_VALUE_LEN (filter (\<lambda>ch. \<not> is_control ch) (utf8_chars s))"
  unfolding sanitize_def
  by (rule utf8_chars_concat)
    (use utf8_chars_starts [OF assms] in \<open>auto simp: list_all_iff dest!: in_set_takeD\<close>)

lemma clean_sanitize: "utf8_start s \<Longrightarrow> clean (sanitize s)"
  by (auto simp: clean_def has_control_def sanitize_chars list_ex_iff dest: in_set_takeD)

lemma sanitize_clean:
  assumes "clean s" shows "sanitize s = s"
  using assms by (auto simp: clean_def sanitize_def has_control_def list_ex_iff filter_id_conv)

lemma ascii_utf8_start: "list_all (\<lambda>c. char_code c < 128) s \<Longrightarrow> utf8_start s"
  by (auto simp: utf8_start_def is_ascii_not_continuation split: list.splits)

lemma ascii_subset_clean:
  assumes "clean s" "list_all (\<lambda>c. char_code c < 128) s" "set t \<subseteq> set s" "length t \<le> length s"
  shows "clean t"
proof -
  have "list_all (\<lambda>c. char_code c < 128) t" using assms(2,3) by (auto simp: list_all_iff)
  with assms show ?thesis
    by (auto simp: clean_def has_control_def utf8_chars_ascii list_ex_iff)
qed

lemma header_value_clean:
  assumes "header_value h name = Some v"
  shows "clean v \<and> list_all (\<lambda>c. char_code c < 128) v"
proof -
  from assms obtain w where w: "header_str h name = Some w" "v = sanitize (trim w)"
    by (auto simp: header_value_def non_blank_def bind_eq_Some_conv split: if_splits)
  have ascii: "list_all (\<lambda>c. char_code c < 128) (trim w)"
    using header_str_ascii [OF w(1)] set_trim_subset [of w] by (auto simp: list_all_iff)
  have "set (sanitize (trim w)) \<subseteq> set (trim w)"
    using ascii by (auto simp: sanitize_def utf8_chars_ascii dest!: in_set_takeD)
  with ascii w(2) clean_sanitize [OF ascii_utf8_start [OF ascii]] show ?thesis
    by (auto simp: list_all_iff)
qed

lemma hd_split_on: "hd (split_on d s) = takeWhile (\<lambda>c. c \<noteq> d) s"
proof (induction s)
  case (Cons c cs)
  then show ?case by (cases "split_on d cs") auto
qed simp

lemma remote_ip_clean: "remote_ip h = Some v \<Longrightarrow> clean v"
proof (cases "header_value h ''x-real-ip''")
  case (Some real)
  moreover assume "remote_ip h = Some v"
  ultimately show ?thesis using header_value_clean by (auto simp: remote_ip_def)
next
  case None
  moreover assume "remote_ip h = Some v"
  ultimately obtain chain where chain: "header_value h ''x-forwarded-for'' = Some chain"
    "v = trim (takeWhile (\<lambda>c. c \<noteq> CHR '','') chain)"
    by (auto simp: remote_ip_def hd_split_on non_blank_def bind_eq_Some_conv split: if_splits)
  have "set v \<subseteq> set chain"
    using set_trim_subset chain(2) by (auto dest: set_takeWhileD)
  moreover have "length v \<le> length chain"
    using le_trans [OF trim_length_le length_takeWhile_le] chain(2) by simp
  ultimately show ?thesis using header_value_clean [OF chain(1)] by (blast intro: ascii_subset_clean)
qed

text \<open>The text fields of a context that come from the client.\<close>

definition client_texts :: "request_audit_context \<Rightarrow> string option list" where
  "client_texts c =
     [rac_request_id c, rac_session_id c, rac_machine_id c, rac_remote_ip c, rac_forwarded_for c,
      rac_user_agent c, rac_cli_version c, rac_cli_build c, rac_platform c, rac_platform_version c,
      rac_arch c, rac_hostname c, rac_timezone c, rac_utc_offset c, rac_client_timestamp c,
      rac_locale c, rac_secure_storage c, rac_ssh_version c, rac_terminal c]"

lemma json_wf_present: "(\<And>a. json_wf (f a)) \<Longrightarrow> \<forall>kv \<in> set (present n f v). json_wf (snd kv)"
  by (cases v) (auto simp: present_def)

lemma json_wf_context [simp]: "json_wf (context_to_value c)"
  unfolding context_to_value_def
  by (rule json_wf_json_object, unfold set_append ball_Un, intro conjI json_wf_present) simp_all

text \<open>
  Whatever headers a request carries, every text the audit context takes from
  the client has at most 256 characters and no control character (so no line break
  can be injected into the audit trail), and cleaning is idempotent on it.  The
  request id is a Rust string, whose bytes do not begin inside a character.
\<close>

theorem audit_context_clean:
  assumes "case request_id of Some r \<Rightarrow> utf8_start r | None \<Rightarrow> True"
    and "Some v \<in> set (client_texts (from_headers x h request_id now))"
  shows "length (utf8_chars v) \<le> 256 \<and> \<not> has_control v \<and> sanitize v = v"
proof -
  have "clean v"
    using assms header_value_clean remote_ip_clean clean_sanitize
    by (auto simp: client_texts_def from_headers_def Let_def split: option.splits)
  then show ?thesis using sanitize_clean by (auto simp: clean_def MAX_VALUE_LEN_def)
qed

definition demo_headers :: headers where
  "demo_headers = [(''user-agent'', ''cli'' @ [CHR 0x09] @ ''/1''), (''x-forwarded-for'', ''10.0.0.1, 10.0.0.2'')]"

theorem audit_context_clean_witness:
  "rac_user_agent (from_headers ref_externals demo_headers None 0) = Some ''cli/1''
   \<and> length (utf8_chars ''cli/1'') \<le> 256 \<and> \<not> has_control ''cli/1'' \<and> sanitize ''cli/1'' = ''cli/1''"
proof -
  have "header_value demo_headers ''user-agent'' = Some ''cli/1''"
    by code_simp
  then have "rac_user_agent (from_headers ref_externals demo_headers None 0) = Some ''cli/1''"
    by (simp add: from_headers_def Let_def)
  then have "Some ''cli/1'' \<in> set (client_texts (from_headers ref_externals demo_headers None 0))"
    by (simp add: client_texts_def)
  with audit_context_clean [of None "''cli/1''" ref_externals demo_headers 0]
    \<open>rac_user_agent _ = _\<close> show ?thesis by simp
qed

end
