(* ===== verification/AuditQuery.thy ===== *)
theory AuditQuery
  imports RequestContext
begin

text \<open>
  Search over the audit log (\<^verbatim>\<open>src/audit/query.rs\<close>, \<^verbatim>\<open>push_filters\<close>, \<^verbatim>\<open>search\<close> and \<^verbatim>\<open>count\<close> of
  \<^verbatim>\<open>src/audit/repository.rs\<close>, and the search handlers of \<^verbatim>\<open>src/routes/ops.rs\<close>).  The SQL the
  code builds is modelled by its meaning in SQLite: \<^verbatim>\<open>LIKE\<close> with \<^verbatim>\<open>ESCAPE\<close>, \<^verbatim>\<open>COLLATE NOCASE\<close>,
  \<^verbatim>\<open>json_extract\<close>, byte-wise comparison of text.  The lemmas show what a page is, that
  the escaped prefix is matched literally, and that the SQL classification of
  failures is the one the console displays.
\<close>

section \<open>Queries\<close>

datatype order = Ascending | Descending

datatype result_filter = Success | Failure

definition result_filter_parse :: "externals \<Rightarrow> string \<Rightarrow> result_filter option" where
  "result_filter_parse x v =
     (let s = unicode_lowercase x (trim v) in
      if s \<in> {''success'', ''ok'', ''succeeded''} then Some Success
      else if s \<in> {''failure'', ''failed'', ''fail'', ''denied'', ''error''} then Some Failure
      else None)"

definition FAILURE_KEYWORDS :: "string list" where
  "FAILURE_KEYWORDS = [''denied'', ''failed'', ''rejected'', ''rollback'', ''error'']"

definition MAX_LIMIT :: int where "MAX_LIMIT = 1000"
definition DEFAULT_LIMIT :: int where "DEFAULT_LIMIT = 50"

record audit_query =
  aq_event_type :: "string option"
  aq_event_prefix :: "string option"
  aq_actor :: "string option"
  aq_subject :: "string option"
  aq_machine :: "string option"
  aq_provider :: "string option"
  aq_serial :: "string option"
  aq_request_id :: "string option"
  aq_result :: "result_filter option"
  aq_since :: "instant option"
  aq_until :: "instant option"
  aq_after_position :: "int option"
  aq_before_position :: "int option"
  aq_limit :: int
  aq_order :: order

definition default_query :: audit_query where
  "default_query =
     \<lparr> aq_event_type = None, aq_event_prefix = None, aq_actor = None, aq_subject = None,
       aq_machine = None, aq_provider = None, aq_serial = None, aq_request_id = None,
       aq_result = None, aq_since = None, aq_until = None, aq_after_position = None,
       aq_before_position = None, aq_limit = 0, aq_order = Descending \<rparr>"

definition recent_query :: audit_query where
  "recent_query = default_query\<lparr> aq_limit := DEFAULT_LIMIT \<rparr>"

definition effective_limit :: "audit_query \<Rightarrow> int" where
  "effective_limit q = max 1 (min MAX_LIMIT (aq_limit q))"

record audit_page =
  pg_entries :: "audit_entry list"
  pg_has_more :: bool

section \<open>SQLite text matching\<close>

text \<open>
  \<^verbatim>\<open>text LIKE pattern ESCAPE '\'\<close>: a percent sign stands for any text, an underscore for one
  character, a backslash takes the next character literally, and letters of ASCII match in
  either case.
\<close>

function like :: "string \<Rightarrow> string \<Rightarrow> bool" where
  "like [] t = (t = [])"
| "like (p # ps) t =
     (if p = CHR ''%'' then like ps t \<or> (case t of [] \<Rightarrow> False | c # cs \<Rightarrow> like (p # ps) cs)
      else if p = CHR 0x5C then
        (case ps of [] \<Rightarrow> False
         | q # qs \<Rightarrow> (case t of [] \<Rightarrow> False | c # cs \<Rightarrow> ascii_lower q = ascii_lower c \<and> like qs cs))
      else if p = CHR ''_'' then
        (case t of [] \<Rightarrow> False | c # cs \<Rightarrow> like ps (dropWhile is_continuation cs))
      else (case t of [] \<Rightarrow> False | c # cs \<Rightarrow> ascii_lower p = ascii_lower c \<and> like ps cs))"
  by pat_completeness auto

termination
  by (relation "measures [\<lambda>(p, t). length p + length t]")
    (auto simp: le_imp_less_Suc length_dropWhile_le le_SucI)

definition like_escape :: "string \<Rightarrow> string" where
  "like_escape v =
     concat (map (\<lambda>c. if c = CHR ''_'' then [CHR 0x5C, CHR ''_''] else [c])
       (concat (map (\<lambda>c. if c = CHR ''%'' then [CHR 0x5C, CHR ''%''] else [c])
         (concat (map (\<lambda>c. if c = CHR 0x5C then [CHR 0x5C, CHR 0x5C] else [c]) v)))))"

text \<open>\<^verbatim>\<open>json_extract(metadata, path) = text\<close>: numbers, booleans and missing values equal no text.\<close>

fun json_path :: "json \<Rightarrow> string list \<Rightarrow> json option" where
  "json_path v [] = Some v"
| "json_path v (k # ks) = (case json_get v k of None \<Rightarrow> None | Some w \<Rightarrow> json_path w ks)"

definition json_text :: "externals \<Rightarrow> json \<Rightarrow> string option" where
  "json_text x v =
     (case v of
        JStr s \<Rightarrow> Some s
      | JArr _ \<Rightarrow> (case value_to_string x v of Inr s \<Rightarrow> Some s | Inl _ \<Rightarrow> None)
      | JObj _ \<Rightarrow> (case value_to_string x v of Inr s \<Rightarrow> Some s | Inl _ \<Rightarrow> None)
      | _ \<Rightarrow> None)"

definition json_extract_text ::
  "externals \<Rightarrow> audit_row \<Rightarrow> string list \<Rightarrow> (audit_error, string option) result" where
  "json_extract_text x r path =
     (case value_from_str x (ar_metadata r) of
        Inl _ \<Rightarrow> Inl (Repository ''malformed JSON'')
      | Inr v \<Rightarrow> Inr (Option.bind (json_path v path) (json_text x)))"

definition eq_text :: "string option \<Rightarrow> string \<Rightarrow> bool" where
  "eq_text v s \<longleftrightarrow> v = Some s"

definition eq_nocase :: "string option \<Rightarrow> string \<Rightarrow> bool" where
  "eq_nocase v s \<longleftrightarrow> (case v of Some t \<Rightarrow> eq_ignore_ascii_case t s | None \<Rightarrow> False)"

definition failure_predicate :: "string \<Rightarrow> bool" where
  "failure_predicate event_type \<longleftrightarrow>
     like ''%denied%'' (to_ascii_lowercase event_type)
   \<or> like ''%failed%'' (to_ascii_lowercase event_type)
   \<or> like ''%rejected%'' (to_ascii_lowercase event_type)
   \<or> like ''%rollback%'' (to_ascii_lowercase event_type)
   \<or> like ''%error%'' (to_ascii_lowercase event_type)"

section \<open>Filters, search and count\<close>

text \<open>The clauses of the \<^verbatim>\<open>WHERE\<close> condition, in the order they are pushed.\<close>

type_synonym clause = "audit_row \<Rightarrow> (audit_error, bool) result"

definition opt_clause :: "'a option \<Rightarrow> ('a \<Rightarrow> clause) \<Rightarrow> clause list" where
  "opt_clause v f = (case v of Some a \<Rightarrow> [f a] | None \<Rightarrow> [])"

definition push_filters :: "externals \<Rightarrow> audit_query \<Rightarrow> clause list" where
  "push_filters x q =
     opt_clause (aq_event_type q) (\<lambda>v r. Inr (ar_event_type r = v))
   @ opt_clause (aq_event_prefix q) (\<lambda>v r. Inr (like (like_escape v @ ''%'') (ar_event_type r)))
   @ opt_clause (aq_actor q) (\<lambda>v r. Inr (eq_nocase (Some (ar_actor r)) v))
   @ opt_clause (aq_subject q) (\<lambda>v r. Inr (eq_text (ar_subject r) v))
   @ opt_clause (aq_machine q) (\<lambda>v r.
       if eq_text (ar_subject r) v then Inr True
       else rbind (json_extract_text x r [''hostname'']) (\<lambda>h. Inr (eq_text h v)))
   @ opt_clause (aq_provider q) (\<lambda>v r.
       rbind (json_extract_text x r [''provider'']) (\<lambda>p. Inr (eq_nocase p v)))
   @ opt_clause (aq_serial q) (\<lambda>v r.
       rbind (json_extract_text x r [''serial'']) (\<lambda>s. Inr (eq_text s v)))
   @ opt_clause (aq_request_id q) (\<lambda>v r.
       rbind (json_extract_text x r [''client'', ''request_id'']) (\<lambda>i. Inr (eq_text i v)))
   @ opt_clause (aq_result q) (\<lambda>v r.
       Inr (case v of Failure \<Rightarrow> failure_predicate (ar_event_type r)
            | Success \<Rightarrow> \<not> failure_predicate (ar_event_type r)))
   @ opt_clause (aq_since q) (\<lambda>v r. Inr (ar_recorded_at r \<ge> to_rfc3339_millis x v))
   @ opt_clause (aq_until q) (\<lambda>v r. Inr (ar_recorded_at r \<le> to_rfc3339_millis x v))
   @ opt_clause (aq_after_position q) (\<lambda>v r. Inr (ar_chain_position r > v))
   @ opt_clause (aq_before_position q) (\<lambda>v r. Inr (ar_chain_position r < v))"

fun all_clauses :: "clause list \<Rightarrow> clause" where
  "all_clauses [] r = Inr True"
| "all_clauses (c # cs) r = rbind (c r) (\<lambda>b. if b then all_clauses cs r else Inr False)"

fun where_rows :: "clause \<Rightarrow> audit_log \<Rightarrow> (audit_error, audit_log) result" where
  "where_rows cl [] = Inr []"
| "where_rows cl (r # rs) =
     rbind (cl r) (\<lambda>b. rbind (where_rows cl rs) (\<lambda>rs'. Inr (if b then r # rs' else rs')))"

definition order_rows :: "order \<Rightarrow> audit_log \<Rightarrow> audit_log" where
  "order_rows o1 rows = (case o1 of Ascending \<Rightarrow> order_asc rows | Descending \<Rightarrow> rev (order_asc rows))"

definition search :: "externals \<Rightarrow> bool \<Rightarrow> audit_log \<Rightarrow> audit_query \<Rightarrow> (audit_error, audit_page) result" where
  "search x up log q =
     (let limit = effective_limit q in
      rbind (ensure up (Repository ''storage unavailable'')) (\<lambda>_.
      rbind (where_rows (all_clauses (push_filters x q)) log) (\<lambda>matching.
      rbind (collect_results (entry_of_row x) (take (nat (limit + 1)) (order_rows (aq_order q) matching)))
        (\<lambda>entries.
      let has_more = int (length entries) > limit in
      Inr \<lparr> pg_entries = (if has_more then take (nat limit) entries else entries),
            pg_has_more = has_more \<rparr>))))"

definition count_matching :: "externals \<Rightarrow> bool \<Rightarrow> audit_log \<Rightarrow> audit_query \<Rightarrow> (audit_error, int) result" where
  "count_matching x up log q =
     rbind (ensure up (Repository ''storage unavailable'')) (\<lambda>_.
     rbind (where_rows (all_clauses (push_filters x q)) log) (\<lambda>matching.
     Inr (int (length matching))))"

section \<open>The search handlers\<close>

record audit_search_params =
  sp_event_type :: "string option"
  sp_actor :: "string option"
  sp_operator :: "string option"
  sp_username :: "string option"
  sp_subject :: "string option"
  sp_machine :: "string option"
  sp_provider :: "string option"
  sp_serial :: "string option"
  sp_request_id :: "string option"
  sp_result :: "string option"
  sp_since :: "string option"
  sp_until :: "string option"
  sp_after :: "int option"
  sp_before :: "int option"
  sp_limit :: "int option"
  sp_order :: "string option"

definition non_empty :: "string option \<Rightarrow> string option" where
  "non_empty v = Option.bind (map_option trim v) non_blank"

fun first_non_empty :: "string option list \<Rightarrow> string option" where
  "first_non_empty [] = None"
| "first_non_empty (v # vs) =
     (case non_empty v of Some s \<Rightarrow> Some s | None \<Rightarrow> first_non_empty vs)"

definition parse_time ::
  "externals \<Rightarrow> string option \<Rightarrow> string \<Rightarrow> (api_error, instant option) result" where
  "parse_time x v field =
     (case non_empty v of
        None \<Rightarrow> Inr None
      | Some s \<Rightarrow>
          map_err (\<lambda>e. BadRequest (''invalid '' @ field @ '' timestamp '' @ [CHR 0x27] @ s @ [CHR 0x27]
                                   @ '': '' @ e))
            (rbind (parse_from_rfc3339 x s) (\<lambda>t. Inr (Some t))))"

definition ends_with :: "char \<Rightarrow> string \<Rightarrow> bool" where
  "ends_with c s \<longleftrightarrow> s \<noteq> [] \<and> last s = c"

definition into_query ::
  "externals \<Rightarrow> audit_search_params \<Rightarrow> order \<Rightarrow> (api_error, audit_query) result" where
  "into_query x p default_order =
     (let actor = first_non_empty [sp_actor p, sp_operator p, sp_username p];
          (event_type, event_prefix) =
            (case non_empty (sp_event_type p) of
               Some v \<Rightarrow>
                 if ends_with (CHR ''.'') v then (None, Some v)
                 else if ends_with (CHR ''*'') v then (None, Some (trim_end_matches (CHR ''*'') v))
                 else (Some v, None)
             | None \<Rightarrow> (None, None)) in
      rbind (case non_empty (sp_result p) of
               None \<Rightarrow> Inr None
             | Some v \<Rightarrow> rbind (ok_or (BadRequest (''unknown result '' @ quoted v)) (result_filter_parse x v))
                           (\<lambda>f. Inr (Some f))) (\<lambda>result.
      rbind (case map_option (unicode_lowercase x) (non_empty (sp_order p)) of
               None \<Rightarrow> Inr default_order
             | Some v \<Rightarrow>
                 if v = ''asc'' \<or> v = ''ascending'' then Inr Ascending
                 else if v = ''desc'' \<or> v = ''descending'' then Inr Descending
                 else Inl (BadRequest (''unknown order '' @ quoted v))) (\<lambda>order.
      rbind (parse_time x (sp_since p) ''since'') (\<lambda>since.
      rbind (parse_time x (sp_until p) ''until'') (\<lambda>until.
      Inr \<lparr> aq_event_type = event_type, aq_event_prefix = event_prefix, aq_actor = actor,
            aq_subject = non_empty (sp_subject p), aq_machine = non_empty (sp_machine p),
            aq_provider = non_empty (sp_provider p), aq_serial = non_empty (sp_serial p),
            aq_request_id = non_empty (sp_request_id p), aq_result = result,
            aq_since = since, aq_until = until, aq_after_position = sp_after p,
            aq_before_position = sp_before p,
            aq_limit = (case sp_limit p of Some l \<Rightarrow> l | None \<Rightarrow> DEFAULT_LIMIT),
            aq_order = order \<rparr>)))))"

definition str_contains :: "string \<Rightarrow> string \<Rightarrow> bool" where
  "str_contains hay needle \<longleftrightarrow> sublist needle hay"

definition classify_result :: "externals \<Rightarrow> string \<Rightarrow> string" where
  "classify_result x event_type =
     (if list_ex (str_contains (unicode_lowercase x event_type)) FAILURE_KEYWORDS
      then ''failure'' else ''success'')"

record audit_entry_view =
  ev_position :: int
  ev_event_type :: string
  ev_actor :: string
  ev_subject :: "string option"
  ev_result :: string
  ev_recorded_at :: string
  ev_metadata :: json
  ev_entry_hash :: string

definition view_from_entry :: "externals \<Rightarrow> audit_entry \<Rightarrow> audit_entry_view" where
  "view_from_entry x e =
     \<lparr> ev_position = ae_chain_position e, ev_event_type = ae_event_type e, ev_actor = ae_actor e,
       ev_subject = ae_subject e, ev_result = classify_result x (ae_event_type e),
       ev_recorded_at = to_rfc3339_millis x (ae_recorded_at e), ev_metadata = ae_metadata e,
       ev_entry_hash = ae_entry_hash e \<rparr>"

record audit_search_response =
  asr_entries :: "audit_entry_view list"
  asr_count :: nat
  asr_has_more :: bool
  asr_last_position :: "int option"
  asr_order :: string

definition max_opt :: "int list \<Rightarrow> int option" where
  "max_opt xs = (case xs of [] \<Rightarrow> None | y # ys \<Rightarrow> Some (foldl max y ys))"

definition run_search ::
  "externals \<Rightarrow> bool \<Rightarrow> audit_log \<Rightarrow> audit_query \<Rightarrow> (api_error, audit_search_response) result" where
  "run_search x up log q =
     rbind (map_err (\<lambda>e. Internal (audit_error_display e)) (search x up log q)) (\<lambda>page.
     let entries = map (view_from_entry x) (pg_entries page) in
     Inr \<lparr> asr_entries = entries, asr_count = length entries, asr_has_more = pg_has_more page,
           asr_last_position = max_opt (map ev_position entries),
           asr_order = (case aq_order q of Ascending \<Rightarrow> ''asc'' | Descending \<Rightarrow> ''desc'') \<rparr>)"

section \<open>What the patterns match\<close>

definition like_literal :: "char \<Rightarrow> bool" where
  "like_literal c \<longleftrightarrow> c \<noteq> CHR ''%'' \<and> c \<noteq> CHR ''_'' \<and> c \<noteq> CHR 0x5C"

lemma like_escape_alt:
  "like_escape v = concat (map (\<lambda>c. if like_literal c then [c] else [CHR 0x5C, c]) v)"
  by (induction v) (simp_all add: like_escape_def like_literal_def)

lemma like_percent: "like ''%'' t"
  by (induction t) simp_all

lemma like_escaped_prefix:
  "like (like_escape p @ ''%'') t \<longleftrightarrow> prefix (to_ascii_lowercase p) (to_ascii_lowercase t)"
proof (induction p arbitrary: t)
  case Nil
  then show ?case using like_percent by (simp add: like_escape_alt to_ascii_lowercase_def)
next
  case (Cons c p)
  then show ?case
    by (cases t) (auto simp: like_escape_alt to_ascii_lowercase_def like_literal_def)
qed

lemma like_literal_prefix:
  "list_all like_literal p \<Longrightarrow> like (p @ ''%'') t \<longleftrightarrow> prefix (to_ascii_lowercase p) (to_ascii_lowercase t)"
proof (induction p arbitrary: t)
  case Nil
  then show ?case using like_percent by (simp add: to_ascii_lowercase_def)
next
  case (Cons c p)
  then show ?case by (cases t) (auto simp: to_ascii_lowercase_def like_literal_def)
qed

lemma like_infix:
  assumes "list_all like_literal p"
  shows "like (''%'' @ p @ ''%'') t \<longleftrightarrow> sublist (to_ascii_lowercase p) (to_ascii_lowercase t)"
proof (induction t)
  case Nil
  then show ?case using like_literal_prefix [OF assms, of "[]"] by (simp add: to_ascii_lowercase_def)
next
  case (Cons c cs)
  then show ?case using like_literal_prefix [OF assms, of "c # cs"]
    by (simp add: to_ascii_lowercase_def sublist_Cons_right)
qed

lemma to_ascii_lowercase_idem [simp]: "to_ascii_lowercase (to_ascii_lowercase s) = to_ascii_lowercase s"
proof -
  have "ascii_lower (ascii_lower c) = ascii_lower c" for c
    by (auto simp: ascii_lower_def is_ascii_uppercase_def char_code_def of_char_of)
  then show ?thesis by (simp add: to_ascii_lowercase_def)
qed

lemma failure_predicate_iff:
  "failure_predicate e \<longleftrightarrow> list_ex (str_contains (to_ascii_lowercase e)) FAILURE_KEYWORDS"
proof -
  have low: "to_ascii_lowercase k = k" if "k \<in> set FAILURE_KEYWORDS" for k
    using that by (auto simp: FAILURE_KEYWORDS_def) code_simp+
  have "like (''%'' @ k @ ''%'') (to_ascii_lowercase e) \<longleftrightarrow> str_contains (to_ascii_lowercase e) k"
    if "k \<in> set FAILURE_KEYWORDS" for k
  proof -
    have "list_all like_literal k"
      using that by (auto simp: FAILURE_KEYWORDS_def) code_simp+
    then show ?thesis using low [OF that] by (simp only: like_infix to_ascii_lowercase_idem str_contains_def)
  qed
  then have "list_ex (\<lambda>k. like (''%'' @ k @ ''%'') (to_ascii_lowercase e)) FAILURE_KEYWORDS
      \<longleftrightarrow> list_ex (str_contains (to_ascii_lowercase e)) FAILURE_KEYWORDS"
    by (auto simp: list_ex_iff simp del: like.simps)
  then show ?thesis
    by (simp add: failure_predicate_def FAILURE_KEYWORDS_def del: like.simps)
qed

section \<open>Pages\<close>

definition row_sat :: "externals \<Rightarrow> audit_query \<Rightarrow> audit_row \<Rightarrow> bool" where
  "row_sat x q r \<longleftrightarrow> all_clauses (push_filters x q) r = Inr True"

definition read_entry :: "externals \<Rightarrow> audit_row \<Rightarrow> audit_entry" where
  "read_entry x r = projr (entry_of_row x r)"

text \<open>The entries that match a query, oldest first.\<close>

definition matching_entries :: "externals \<Rightarrow> audit_log \<Rightarrow> audit_query \<Rightarrow> audit_entry list" where
  "matching_entries x log q = map (read_entry x) (filter (row_sat x q) log)"

lemma all_clauses_True_iff: "all_clauses cs r = Inr True \<longleftrightarrow> (\<forall>c \<in> set cs. c r = Inr True)"
  by (induction cs r rule: all_clauses.induct) (auto simp: result_simps)

lemma all_clauses_total: "(\<forall>c \<in> set cs. \<exists>b. c r = Inr b) \<Longrightarrow> \<exists>b. all_clauses cs r = Inr b"
proof (induction cs r rule: all_clauses.induct)
  case (2 c cs r)
  then obtain b where "c r = Inr b" by auto
  with 2 show ?case by (cases b) auto
qed auto

lemma set_opt_clause: "c \<in> set (opt_clause v f) \<longleftrightarrow> (\<exists>a. v = Some a \<and> c = f a)"
  by (simp add: opt_clause_def split: option.splits) auto

lemma clauses_total:
  assumes "value_from_str x (ar_metadata r) = Inr v"
  shows "\<exists>b. all_clauses (push_filters x q) r = Inr b"
proof (rule all_clauses_total, rule ballI)
  fix c assume "c \<in> set (push_filters x q)"
  then show "\<exists>b. c r = Inr b"
    unfolding push_filters_def set_append Un_iff set_opt_clause
    by (elim disjE exE conjE) (auto simp: json_extract_text_def assms)
qed

lemma where_rows_filter:
  assumes "\<forall>r \<in> set log. \<exists>b. cl r = Inr b"
  shows "where_rows cl log = Inr (filter (\<lambda>r. cl r = Inr True) log)"
  using assms
proof (induction log)
  case (Cons r log)
  then obtain b where "cl r = Inr b" by auto
  with Cons show ?case by (cases b) auto
qed simp

lemma intact_rows_read:
  assumes "log_intact x log" "r \<in> set log"
  shows "entry_of_row x r = Inr (read_entry x r)" and "\<exists>v. value_from_str x (ar_metadata r) = Inr v"
proof -
  from assms obtain es where "list_all2 (\<lambda>r e. entry_of_row x r = Inr e) log es"
    unfolding log_intact_def collect_results_Inr_iff by blast
  with assms(2) obtain e where e: "entry_of_row x r = Inr e"
    by (auto simp: in_set_conv_nth dest: list_all2_nthD)
  then show "entry_of_row x r = Inr (read_entry x r)" by (simp add: read_entry_def)
  from e show "\<exists>v. value_from_str x (ar_metadata r) = Inr v"
    by (auto simp: entry_of_row_def result_simps)
qed

lemma where_rows_intact:
  assumes "log_intact x log"
  shows "where_rows (all_clauses (push_filters x q)) log = Inr (filter (row_sat x q) log)"
proof -
  have "\<forall>r \<in> set log. \<exists>b. all_clauses (push_filters x q) r = Inr b"
    using intact_rows_read(2) [OF assms] clauses_total by blast
  from where_rows_filter [OF this] show ?thesis by (simp add: row_sat_def [abs_def])
qed

lemma collect_read:
  assumes "log_intact x log" "set rs \<subseteq> set log"
  shows "collect_results (entry_of_row x) rs = Inr (map (read_entry x) rs)"
  using assms(2) intact_rows_read(1) [OF assms(1)]
  by (induction rs) auto

lemma sorted_positions_intact:
  assumes "log_intact x log"
  shows "sorted_wrt (\<lambda>r s. ar_chain_position r < ar_chain_position s) log"
proof -
  have "sorted_wrt (<) (map ar_chain_position log)"
    unfolding log_intact_positions [OF assms] by (simp add: sorted_wrt_map sorted_wrt_iff_nth_less)
  then show ?thesis by (simp add: sorted_wrt_map)
qed

lemma order_asc_sorted:
  "sorted_wrt (\<lambda>r s. ar_chain_position r < ar_chain_position s) rows \<Longrightarrow> order_asc rows = rows"
  unfolding order_asc_def
  by (rule sort_key_id_if_sorted) (auto simp: sorted_map elim: sorted_wrt_mono_rel [rotated])

lemma search_intact:
  assumes "log_intact x log"
  shows "search x True log q =
    (let matches = (case aq_order q of Ascending \<Rightarrow> matching_entries x log q
                    | Descending \<Rightarrow> rev (matching_entries x log q));
         limit = nat (effective_limit q)
     in Inr \<lparr> pg_entries = take limit matches, pg_has_more = (limit < length matches) \<rparr>)"
proof -
  let ?rows = "filter (row_sat x q) log"
  have asc: "order_asc ?rows = ?rows"
    by (rule order_asc_sorted, rule sorted_wrt_filter, rule sorted_positions_intact [OF assms])
  have pos: "1 \<le> effective_limit q" by (simp add: effective_limit_def)
  let ?o = "order_rows (aq_order q) ?rows"
  have sub: "set (take n ?o) \<subseteq> set log" for n
    using asc by (auto simp: order_rows_def split: order.splits dest!: in_set_takeD)
  have ents: "map (read_entry x) ?o = (case aq_order q of Ascending \<Rightarrow> matching_entries x log q
                    | Descending \<Rightarrow> rev (matching_entries x log q))"
    by (simp add: order_rows_def asc matching_entries_def rev_map split: order.splits)
  have n: "nat (effective_limit q + 1) = Suc (nat (effective_limit q))" using pos by simp
  have more: "effective_limit q < int (length (take (Suc (nat (effective_limit q))) xs)) \<longleftrightarrow>
      nat (effective_limit q) < length xs" for xs :: "audit_entry list"
    using pos by (auto simp: min_def)
  show ?thesis
    unfolding search_def Let_def where_rows_intact [OF assms] rbind.simps ensure_def if_True
      collect_read [OF assms sub] n take_map ents [symmetric] more
    using pos by (auto simp: take_map min_def)
qed

lemma count_matching_intact:
  "log_intact x log \<Longrightarrow> count_matching x True log q = Inr (int (length (matching_entries x log q)))"
  by (simp add: count_matching_def ensure_def where_rows_intact matching_entries_def)

text \<open>The cursor clause on its own.\<close>

lemma row_sat_after:
  "row_sat x (q\<lparr> aq_after_position := Some p \<rparr>) r \<longleftrightarrow>
     row_sat x (q\<lparr> aq_after_position := None \<rparr>) r \<and> p < ar_chain_position r"
  by (auto simp: row_sat_def all_clauses_True_iff push_filters_def opt_clause_def)

lemma row_sat_weaken: "row_sat x q r \<Longrightarrow> row_sat x (q\<lparr> aq_after_position := None \<rparr>) r"
  by (auto simp: row_sat_def all_clauses_True_iff push_filters_def opt_clause_def)

lemma row_sat_cursor:
  assumes "row_sat x q r" "ar_chain_position r \<le> p"
  shows "row_sat x (q\<lparr> aq_after_position := Some p \<rparr>) s \<longleftrightarrow> row_sat x q s \<and> p < ar_chain_position s"
proof (cases "aq_after_position q")
  case None
  then have "q\<lparr> aq_after_position := None \<rparr> = q" by simp
  then show ?thesis by (simp add: row_sat_after)
next
  case (Some a)
  then have q: "q\<lparr> aq_after_position := Some a \<rparr> = q" by simp
  have "a < ar_chain_position r" using assms(1) row_sat_after [of x a q r] by (simp add: q)
  then show ?thesis
    using row_sat_after [of x p q s] row_sat_after [of x a q s] assms(2) by (simp only: q) auto
qed

lemma le_last_sorted:
  "sorted_wrt (\<lambda>a b. f a < f b) xs \<Longrightarrow> a \<in> set xs \<Longrightarrow> (f a :: int) \<le> f (last xs)"
  by (induction xs rule: rev_induct) (auto simp: sorted_wrt_append)

lemma filter_after_page:
  assumes "sorted_wrt (\<lambda>a b. f a < f b) xs" "0 < n" "n \<le> length xs"
  shows "filter (\<lambda>a. (f (last (take n xs)) :: int) < f a) xs = drop n xs"
proof -
  have ne: "take n xs \<noteq> []" using assms(2,3) by auto
  have "sorted_wrt (\<lambda>a b. f a < f b) (take n xs @ drop n xs)" using assms(1) by simp
  then have s: "sorted_wrt (\<lambda>a b. f a < f b) (take n xs)"
    and lt: "\<forall>a \<in> set (take n xs). \<forall>b \<in> set (drop n xs). f a < f b"
    unfolding sorted_wrt_append by blast+
  from s have "\<forall>a \<in> set (take n xs). f a \<le> f (last (take n xs))"
    using le_last_sorted [of f "take n xs"] by blast
  then have "filter (\<lambda>a. f (last (take n xs)) < f a) (take n xs) = []"
    by (auto simp: filter_empty_conv)
  moreover have "filter (\<lambda>a. f (last (take n xs)) < f a) (drop n xs) = drop n xs"
    using lt last_in_set [OF ne] by (auto simp: filter_id_conv)
  ultimately have "filter (\<lambda>a. f (last (take n xs)) < f a) (take n xs @ drop n xs) = drop n xs"
    by (simp only: filter_append append_Nil)
  then show ?thesis by simp
qed

lemma next_page_matches:
  assumes log: "log_intact x log" and n: "0 < n" "n \<le> length (matching_entries x log q)"
  shows "matching_entries x log
      (q\<lparr> aq_after_position := Some (ae_chain_position (last (take n (matching_entries x log q)))) \<rparr>)
    = drop n (matching_entries x log q)"
proof -
  let ?m = "filter (row_sat x q) log"
  have srt: "sorted_wrt (\<lambda>r s. ar_chain_position r < ar_chain_position s) ?m"
    by (rule sorted_wrt_filter, rule sorted_positions_intact [OF log])
  have n': "n \<le> length ?m" using n(2) by (simp add: matching_entries_def)
  have ne: "take n ?m \<noteq> []" using n(1) n' by auto
  let ?l = "last (take n ?m)"
  have l: "?l \<in> set ?m" using last_in_set [OF ne] by (auto dest: in_set_takeD)
  have pos: "ae_chain_position (last (take n (matching_entries x log q))) = ar_chain_position ?l"
    using entry_of_row_columns [OF intact_rows_read(1) [OF log, of ?l]] l ne
    by (simp add: matching_entries_def take_map last_map)
  have "filter (row_sat x (q\<lparr> aq_after_position := Some (ar_chain_position ?l) \<rparr>)) log
      = filter (\<lambda>r. ar_chain_position ?l < ar_chain_position r) ?m"
    using row_sat_cursor [of x q ?l "ar_chain_position ?l"] l by (auto intro: filter_cong)
  also have "\<dots> = drop n ?m" by (rule filter_after_page [OF srt n(1) n'])
  finally show ?thesis unfolding pos by (simp add: matching_entries_def drop_map)
qed

text \<open>A client that follows the cursor until no entry remains.\<close>

fun follow_pages ::
  "nat \<Rightarrow> externals \<Rightarrow> audit_log \<Rightarrow> audit_query \<Rightarrow> (audit_error, audit_entry list) result option" where
  "follow_pages 0 x log q = None"
| "follow_pages (Suc n) x log q =
     (case search x True log q of
        Inl e \<Rightarrow> Some (Inl e)
      | Inr page \<Rightarrow>
          if pg_has_more page then
            map_option (\<lambda>res. rbind res (\<lambda>rest. Inr (pg_entries page @ rest)))
              (follow_pages n x log
                (q\<lparr> aq_after_position := Some (ae_chain_position (last (pg_entries page))) \<rparr>))
          else Some (Inr (pg_entries page)))"

lemma effective_limit_bounds: "1 \<le> effective_limit q \<and> effective_limit q \<le> 1000"
  by (simp add: effective_limit_def MAX_LIMIT_def)

lemma follow_pages_complete:
  assumes "log_intact x log" "aq_order q = Ascending" "length (matching_entries x log q) < n"
  shows "follow_pages n x log q = Some (Inr (matching_entries x log q))"
  using assms(2,3)
proof (induction n arbitrary: q)
  case (Suc n)
  let ?m = "matching_entries x log q" and ?l = "nat (effective_limit q)"
  have l: "0 < ?l" using effective_limit_bounds [of q] by simp
  show ?case
  proof (cases "?l < length ?m")
    case True
    let ?q = "q\<lparr> aq_after_position := Some (ae_chain_position (last (take ?l ?m))) \<rparr>"
    have next_matches: "matching_entries x log ?q = drop ?l ?m"
      by (rule next_page_matches [OF assms(1) l less_imp_le [OF True]])
    then have "follow_pages n x log ?q = Some (Inr (drop ?l ?m))"
      using Suc.IH [of ?q] Suc.prems l True by simp
    then show ?thesis
      using Suc.prems(1) True by (simp add: search_intact [OF assms(1)] Let_def)
  next
    case False
    then show ?thesis
      using Suc.prems(1) by (simp add: search_intact [OF assms(1)] Let_def)
  qed
qed simp

text \<open>
  C16. Cursor paging over an intact audit log is complete and bounded: a search returns
  the first matches in the requested order, at most 1000 of them, and says that more remain exactly
  when they do; the count is the number of matches; and a client that follows the
  ascending cursor until no entry remains ends after finitely many pages with every matching entry,
  once and in order.
\<close>

theorem paging_complete:
  assumes "log_intact x log"
  shows "\<exists>page. search x True log q = Inr page
      \<and> pg_entries page = take (nat (effective_limit q))
          (if aq_order q = Ascending then matching_entries x log q else rev (matching_entries x log q))
      \<and> length (pg_entries page) \<le> 1000
      \<and> (pg_has_more page \<longleftrightarrow> int (length (matching_entries x log q)) > effective_limit q)
      \<and> count_matching x True log q = Inr (int (length (matching_entries x log q)))
      \<and> (aq_order q = Ascending \<longrightarrow>
           (\<exists>n. follow_pages n x log q = Some (Inr (matching_entries x log q))))"
proof -
  have "length (take (nat (effective_limit q)) es) \<le> 1000" for es :: "audit_entry list"
    using effective_limit_bounds [of q] by (auto simp: min_def)
  moreover have "nat (effective_limit q) < n \<longleftrightarrow> int n > effective_limit q" for n
    using effective_limit_bounds [of q] by auto
  ultimately show ?thesis
    using search_intact [OF assms, of q] count_matching_intact [OF assms, of q]
      follow_pages_complete [OF assms, of q] lessI
    by (cases "aq_order q") (auto simp: Let_def)
qed

text \<open>Two entries in pages of one: the first page says that more remain, and following the cursor returns both.\<close>

theorem paging_complete_witness:
  "\<exists>log page n es. search ref_externals True log (default_query\<lparr> aq_limit := 1, aq_order := Ascending \<rparr>) = Inr page
     \<and> length (pg_entries page) = 1 \<and> pg_has_more page
     \<and> follow_pages n ref_externals log (default_query\<lparr> aq_limit := 1, aq_order := Ascending \<rparr>) = Some (Inr es) \<and> length es = 2"
proof -
  let ?q = "default_query\<lparr> aq_limit := 1, aq_order := Ascending \<rparr>"
  have ev: "json_wf (nae_metadata demo_event)" "rfc3339_range 0"
    by (simp_all add: demo_event_def with_subject_def new_entry_def rfc3339_range_def seconds_def nanos_per_sec_def)
  note grow = append_entry_intact [OF ref_json_contract ref_rfc3339_contract _ ev]
  obtain row where "log_intact ref_externals ([] @ [row])" by (rule grow [OF log_intact_Nil])
  then obtain row' where log: "log_intact ref_externals ([row] @ [row'])" by (metis append_Nil grow)
  have "row_sat ref_externals ?q r" for r
    by (simp add: row_sat_def push_filters_def default_query_def opt_clause_def)
  then have two: "length (matching_entries ref_externals [row, row'] ?q) = 2" by (simp add: matching_entries_def)
  have lim: "effective_limit ?q = 1" by (simp add: effective_limit_def MAX_LIMIT_def)
  from paging_complete [OF log, of ?q] two lim show ?thesis by (fastforce simp: min_def)
qed

section \<open>Classification of failures\<close>

text \<open>On ASCII text, lower-casing by the Unicode tables is lower-casing of ASCII.\<close>

definition lowercase_contract :: "externals \<Rightarrow> bool" where
  "lowercase_contract x \<longleftrightarrow>
     (\<forall>s. list_all (\<lambda>c. char_code c < 128) s \<longrightarrow> unicode_lowercase x s = to_ascii_lowercase s)"

lemma ref_lowercase_contract: "lowercase_contract ref_externals"
  by (simp add: lowercase_contract_def ref_externals_def)

text \<open>
  The \<^verbatim>\<open>result\<close> filter in SQL and the classification that the console shows agree: for an
  ASCII event type, a row passes the failure filter exactly when its view is displayed as
  \<^verbatim>\<open>failure\<close>, and passes the success filter exactly when it is displayed as \<^verbatim>\<open>success\<close>.
\<close>

theorem result_filter_agrees:
  assumes "lowercase_contract x" "list_all (\<lambda>c. char_code c < 128) (ar_event_type r)"
    "entry_of_row x r = Inr e"
  shows "(row_sat x (default_query\<lparr> aq_result := Some Failure \<rparr>) r \<longleftrightarrow> ev_result (view_from_entry x e) = ''failure'')
    \<and> (row_sat x (default_query\<lparr> aq_result := Some Success \<rparr>) r \<longleftrightarrow> ev_result (view_from_entry x e) = ''success'')"
proof -
  have "ae_event_type e = ar_event_type r" using assms(3) by (auto simp: entry_of_row_def result_simps)
  moreover have "failure_predicate (ar_event_type r) \<longleftrightarrow> classify_result x (ar_event_type r) = ''failure''"
    using assms(1,2) by (simp add: failure_predicate_iff classify_result_def lowercase_contract_def)
  moreover have "\<not> failure_predicate (ar_event_type r) \<longleftrightarrow> classify_result x (ar_event_type r) = ''success''"
    using assms(1,2) by (simp add: failure_predicate_iff classify_result_def lowercase_contract_def)
  ultimately show ?thesis
    by (simp add: row_sat_def default_query_def push_filters_def opt_clause_def view_from_entry_def)
qed

theorem result_filter_agrees_witness:
  "\<exists>r e. entry_of_row ref_externals r = Inr e
     \<and> row_sat ref_externals (default_query\<lparr> aq_result := Some Failure \<rparr>) r
     \<and> ev_result (view_from_entry ref_externals e) = ''failure''"
proof -
  obtain s where s: "value_from_str ref_externals s = Inr JNull"
    using json_contract_value [OF ref_json_contract, of JNull] by auto
  let ?r = "\<lparr> ar_id = 1, ar_chain_position = 1, ar_event_type = ''ops.admin_denied'', ar_actor = ''a'',
    ar_subject = None, ar_metadata = s, ar_recorded_at = to_rfc3339_millis ref_externals 0,
    ar_previous_hash = [], ar_canonical_json = [], ar_entry_hash = [] \<rparr>"
  have "rfc3339_range 0"
    by (simp add: rfc3339_range_def seconds_def nanos_per_sec_def)
  then have "parse_from_rfc3339 ref_externals (to_rfc3339_millis ref_externals 0) = Inr (trunc_ms 0)"
    using ref_rfc3339_contract by (simp add: rfc3339_contract_def)
  with s obtain e where e: "entry_of_row ref_externals ?r = Inr e" "ae_event_type e = ''ops.admin_denied''"
    by (simp add: entry_of_row_def)
  have ascii: "list_all (\<lambda>c. char_code c < 128) ''ops.admin_denied''" by code_simp
  have "classify_result ref_externals ''ops.admin_denied'' = ''failure''"
    by (simp add: classify_result_def FAILURE_KEYWORDS_def str_contains_def ref_externals_def) code_simp
  with result_filter_agrees [OF ref_lowercase_contract _ e(1)] ascii e show ?thesis
    by (intro exI [of _ ?r] exI [of _ e]) (simp add: view_from_entry_def)
qed

end
