(* ===== verification/Machines.thy ===== *)
theory Machines
  imports AuditLog
begin

text \<open>
  Enrolled machines and enrollment tokens
  (\<^verbatim>\<open>src/machines/{models,validation,token,repository}.rs\<close>): the lifecycle status, host
  name and key validation, the token format and its hash, and the two SQLite
  repositories over tables of text rows with their uniqueness constraints.

  Shown here: the status codec is a bijection onto its four strings; token comparison
  decides equality; minted tokens are well formed; rows written by the repositories
  read back as the records they return, up to the millisecond the text keeps; every
  write keeps the uniqueness constraints of both tables; a single-use token is
  consumed at most once.
\<close>

section \<open>Models\<close>

datatype machine_status = Pending | Active | Disabled | Revoked

fun status_as_str :: "machine_status \<Rightarrow> string" where
  "status_as_str Pending = ''pending''"
| "status_as_str Active = ''active''"
| "status_as_str Disabled = ''disabled''"
| "status_as_str Revoked = ''revoked''"

definition status_from_db_str :: "string \<Rightarrow> machine_status option" where
  "status_from_db_str s =
     (if s = ''pending'' then Some Pending
      else if s = ''active'' then Some Active
      else if s = ''disabled'' then Some Disabled
      else if s = ''revoked'' then Some Revoked
      else None)"

record machine =
  m_machine_id :: string
  m_hostname :: string
  m_public_key :: string
  m_os :: string
  m_arch :: string
  m_agent_version :: string
  m_status :: machine_status
  m_ip :: "string option"
  m_current_generation :: int
  m_synced_generation :: "int option"
  m_bundle_fingerprint :: "string option"
  m_last_sync :: "instant option"
  m_last_seen :: "instant option"
  m_enrolled_at :: instant
  m_created_at :: instant
  m_updated_at :: instant

record new_machine =
  nm_machine_id :: string
  nm_hostname :: string
  nm_public_key :: string
  nm_os :: string
  nm_arch :: string
  nm_agent_version :: string
  nm_status :: machine_status
  nm_enrolled_at :: instant

record enrollment_token =
  et_id :: string
  et_token_hash :: string
  et_created_at :: instant
  et_expires_at :: instant
  et_used_at :: "instant option"
  et_created_by :: string
  et_single_use :: bool

record new_enrollment_token =
  net_id :: string
  net_token_hash :: string
  net_created_at :: instant
  net_expires_at :: instant
  net_created_by :: string
  net_single_use :: bool

section \<open>Validation\<close>

definition MAX_HOSTNAME_LEN :: nat where "MAX_HOSTNAME_LEN = 253"
definition MAX_LABEL_LEN :: nat where "MAX_LABEL_LEN = 63"

definition is_valid_label :: "string \<Rightarrow> bool" where
  "is_valid_label label \<longleftrightarrow>
     label \<noteq> [] \<and> length label \<le> MAX_LABEL_LEN
   \<and> hd label \<noteq> CHR ''-'' \<and> last label \<noteq> CHR ''-''
   \<and> list_all (\<lambda>c. is_ascii_alphanumeric c \<or> c = CHR ''-'') label"

definition is_valid_hostname :: "string \<Rightarrow> bool" where
  "is_valid_hostname hostname =
     (if hostname = [] \<or> length hostname > MAX_HOSTNAME_LEN then False
      else list_all is_valid_label (split_on CHR ''.'' hostname))"

datatype public_key_error = Malformed | NotEd25519

definition validate_ed25519_public_key ::
  "externals \<Rightarrow> string \<Rightarrow> (public_key_error, string) result" where
  "validate_ed25519_public_key x public_key =
     (case from_openssh x public_key of
        None \<Rightarrow> Inl Malformed
      | Some key \<Rightarrow>
          if ssh_algorithm key \<noteq> Ed25519 then Inl NotEd25519
          else ok_or Malformed (to_openssh x key))"

definition public_key_fingerprint :: "externals \<Rightarrow> string \<Rightarrow> string option" where
  "public_key_fingerprint x public_key = map_option (key_fingerprint x) (from_openssh x public_key)"

section \<open>Token cryptography\<close>

definition TOKEN_PREFIX :: string where "TOKEN_PREFIX = ''mf_enroll_''"
definition TOKEN_ENTROPY_BYTES :: nat where "TOKEN_ENTROPY_BYTES = 32"
definition MAX_TOKEN_LEN :: nat where "MAX_TOKEN_LEN = 256"

text \<open>The random bytes come from the operating system and are an argument.\<close>

definition generate_token :: "externals \<Rightarrow> byte list \<Rightarrow> string" where
  "generate_token x bytes = TOKEN_PREFIX @ hex_encode x bytes"

definition hash_token :: "externals \<Rightarrow> string \<Rightarrow> string" where
  "hash_token x token = sha256_hex x (as_bytes token)"

definition is_well_formed :: "string \<Rightarrow> bool" where
  "is_well_formed token =
     (if length token > MAX_TOKEN_LEN then False
      else case strip_prefix TOKEN_PREFIX token of
        None \<Rightarrow> False
      | Some sfx \<Rightarrow> sfx \<noteq> [] \<and> list_all (\<lambda>c. is_ascii_alphanumeric c \<or> c = CHR ''_'') sfx)"

definition constant_time_eq :: "byte list \<Rightarrow> byte list \<Rightarrow> bool" where
  "constant_time_eq a b = (if length a \<noteq> length b then False else xor_fold a b = 0)"

section \<open>Storage errors and column codecs\<close>

datatype sqlx_error = SqlDecode string | SqlDatabase string | SqlIo

fun sqlx_display :: "sqlx_error \<Rightarrow> string" where
  "sqlx_display (SqlDecode m) = m"
| "sqlx_display (SqlDatabase m) = m"
| "sqlx_display SqlIo = ''storage unavailable''"

definition to_text :: "externals \<Rightarrow> instant \<Rightarrow> string" where
  "to_text x t = to_rfc3339_millis x t"

definition parse_dt :: "externals \<Rightarrow> string \<Rightarrow> (sqlx_error, instant) result" where
  "parse_dt x value =
     map_err (\<lambda>err. SqlDecode (''invalid stored timestamp: '' @ err)) (parse_from_rfc3339 x value)"

fun transpose_opt :: "('a \<Rightarrow> ('e, 'b) result) \<Rightarrow> 'a option \<Rightarrow> ('e, 'b option) result" where
  "transpose_opt f None = Inr None"
| "transpose_opt f (Some a) = rbind (f a) (\<lambda>b. Inr (Some b))"

section \<open>The machines table\<close>

record machine_row =
  mr_machine_id :: string
  mr_hostname :: string
  mr_public_key :: string
  mr_os :: string
  mr_arch :: string
  mr_agent_version :: string
  mr_status :: string
  mr_ip :: "string option"
  mr_current_generation :: int
  mr_synced_generation :: "int option"
  mr_bundle_fingerprint :: "string option"
  mr_last_sync :: "string option"
  mr_last_seen :: "string option"
  mr_enrolled_at :: string
  mr_created_at :: string
  mr_updated_at :: string

type_synonym machine_table = "machine_row list"

definition machine_of_row :: "externals \<Rightarrow> machine_row \<Rightarrow> (sqlx_error, machine) result" where
  "machine_of_row x r =
     rbind (ok_or (SqlDecode (''unknown machine status '' @ [CHR 0x27] @ mr_status r @ [CHR 0x27]))
              (status_from_db_str (mr_status r))) (\<lambda>status.
     rbind (transpose_opt (parse_dt x) (mr_last_seen r)) (\<lambda>last_seen.
     rbind (transpose_opt (parse_dt x) (mr_last_sync r)) (\<lambda>last_sync.
     rbind (parse_dt x (mr_enrolled_at r)) (\<lambda>enrolled_at.
     rbind (parse_dt x (mr_created_at r)) (\<lambda>created_at.
     rbind (parse_dt x (mr_updated_at r)) (\<lambda>updated_at.
     Inr \<lparr> m_machine_id = mr_machine_id r, m_hostname = mr_hostname r,
           m_public_key = mr_public_key r, m_os = mr_os r, m_arch = mr_arch r,
           m_agent_version = mr_agent_version r, m_status = status, m_ip = mr_ip r,
           m_current_generation = mr_current_generation r,
           m_synced_generation = mr_synced_generation r,
           m_bundle_fingerprint = mr_bundle_fingerprint r,
           m_last_sync = last_sync, m_last_seen = last_seen, m_enrolled_at = enrolled_at,
           m_created_at = created_at, m_updated_at = updated_at \<rparr>))))))"

text \<open>\<^verbatim>\<open>SELECT ... WHERE column = ?\<close> with \<^verbatim>\<open>fetch_optional\<close>, then the row conversion.\<close>

definition find_machine ::
  "externals \<Rightarrow> (machine_row \<Rightarrow> string) \<Rightarrow> machine_table \<Rightarrow> string \<Rightarrow> (sqlx_error, machine option) result"
where
  "find_machine x column tbl value =
     transpose_opt (machine_of_row x) (find (\<lambda>r. column r = value) tbl)"

definition find_by_hostname :: "externals \<Rightarrow> machine_table \<Rightarrow> string \<Rightarrow> (sqlx_error, machine option) result" where
  "find_by_hostname x = find_machine x mr_hostname"

definition find_by_public_key :: "externals \<Rightarrow> machine_table \<Rightarrow> string \<Rightarrow> (sqlx_error, machine option) result" where
  "find_by_public_key x = find_machine x mr_public_key"

definition find_by_id :: "externals \<Rightarrow> machine_table \<Rightarrow> string \<Rightarrow> (sqlx_error, machine option) result" where
  "find_by_id x = find_machine x mr_machine_id"

definition machine_unique_violation :: "machine_table \<Rightarrow> new_machine \<Rightarrow> string option" where
  "machine_unique_violation tbl new =
     (if nm_machine_id new \<in> mr_machine_id ` set tbl
      then Some ''UNIQUE constraint failed: machines.machine_id''
      else if nm_hostname new \<in> mr_hostname ` set tbl
      then Some ''UNIQUE constraint failed: machines.hostname''
      else if nm_public_key new \<in> mr_public_key ` set tbl
      then Some ''UNIQUE constraint failed: machines.public_key''
      else None)"

definition inserted_machine :: "new_machine \<Rightarrow> machine" where
  "inserted_machine new =
     \<lparr> m_machine_id = nm_machine_id new, m_hostname = nm_hostname new,
       m_public_key = nm_public_key new, m_os = nm_os new, m_arch = nm_arch new,
       m_agent_version = nm_agent_version new, m_status = nm_status new, m_ip = None,
       m_current_generation = 0, m_synced_generation = None, m_bundle_fingerprint = None,
       m_last_sync = None, m_last_seen = None, m_enrolled_at = nm_enrolled_at new,
       m_created_at = nm_enrolled_at new, m_updated_at = nm_enrolled_at new \<rparr>"

definition inserted_row :: "externals \<Rightarrow> new_machine \<Rightarrow> machine_row" where
  "inserted_row x new =
     (let enrolled_at = to_text x (nm_enrolled_at new) in
      \<lparr> mr_machine_id = nm_machine_id new, mr_hostname = nm_hostname new,
        mr_public_key = nm_public_key new, mr_os = nm_os new, mr_arch = nm_arch new,
        mr_agent_version = nm_agent_version new, mr_status = status_as_str (nm_status new),
        mr_ip = None, mr_current_generation = 0, mr_synced_generation = None,
        mr_bundle_fingerprint = None, mr_last_sync = None, mr_last_seen = None,
        mr_enrolled_at = enrolled_at, mr_created_at = enrolled_at, mr_updated_at = enrolled_at \<rparr>)"

definition insert_machine ::
  "externals \<Rightarrow> machine_table \<Rightarrow> new_machine \<Rightarrow> (sqlx_error, machine \<times> machine_table) result" where
  "insert_machine x tbl new =
     (case machine_unique_violation tbl new of
        Some msg \<Rightarrow> Inl (SqlDatabase msg)
      | None \<Rightarrow> Inr (inserted_machine new, tbl @ [inserted_row x new]))"

text \<open>\<^verbatim>\<open>UPDATE ... WHERE column = ?\<close> and \<^verbatim>\<open>DELETE ... WHERE column = ?\<close> with \<^verbatim>\<open>rows_affected\<close>.\<close>

definition rows_affected :: "('r \<Rightarrow> bool) \<Rightarrow> 'r list \<Rightarrow> nat" where
  "rows_affected sel tbl = length (filter sel tbl)"

definition update_where :: "('r \<Rightarrow> bool) \<Rightarrow> ('r \<Rightarrow> 'r) \<Rightarrow> 'r list \<Rightarrow> 'r list" where
  "update_where sel f tbl = map (\<lambda>r. if sel r then f r else r) tbl"

record heartbeat_update =
  hu_machine_id :: string
  hu_now :: instant
  hu_agent_version :: string
  hu_ip :: "string option"
  hu_current_generation :: int

definition update_last_seen :: "externals \<Rightarrow> machine_table \<Rightarrow> heartbeat_update \<Rightarrow> bool \<times> machine_table" where
  "update_last_seen x tbl u =
     (let now_text = to_text x (hu_now u); sel = (\<lambda>r. mr_machine_id r = hu_machine_id u) in
      (rows_affected sel tbl = 1,
       update_where sel (\<lambda>r. r\<lparr> mr_last_seen := Some now_text, mr_updated_at := now_text,
          mr_agent_version := hu_agent_version u, mr_ip := hu_ip u,
          mr_current_generation := hu_current_generation u \<rparr>) tbl))"

text \<open>Never-seen machines last, newest \<open>last_seen\<close> first, then newest \<open>created_at\<close>.\<close>

definition recent_before :: "machine_row \<Rightarrow> machine_row \<Rightarrow> bool" where
  "recent_before a b =
     (case (mr_last_seen a, mr_last_seen b) of
        (None, None) \<Rightarrow> mr_created_at a \<ge> mr_created_at b
      | (None, Some _) \<Rightarrow> False
      | (Some _, None) \<Rightarrow> True
      | (Some s, Some t) \<Rightarrow> s > t \<or> s = t \<and> mr_created_at a \<ge> mr_created_at b)"

fun insert_by :: "('a \<Rightarrow> 'a \<Rightarrow> bool) \<Rightarrow> 'a \<Rightarrow> 'a list \<Rightarrow> 'a list" where
  "insert_by le a [] = [a]"
| "insert_by le a (b # bs) = (if le a b then a # b # bs else b # insert_by le a bs)"

definition sort_by :: "('a \<Rightarrow> 'a \<Rightarrow> bool) \<Rightarrow> 'a list \<Rightarrow> 'a list" where
  "sort_by le xs = foldr (insert_by le) xs []"

definition list_recent :: "externals \<Rightarrow> machine_table \<Rightarrow> nat \<Rightarrow> (sqlx_error, machine list) result" where
  "list_recent x tbl limit = collect_results (machine_of_row x) (take limit (sort_by recent_before tbl))"

definition list_all_machines :: "externals \<Rightarrow> machine_table \<Rightarrow> (sqlx_error, machine list) result" where
  "list_all_machines x tbl = collect_results (machine_of_row x) (sort_key mr_hostname tbl)"

definition update_status ::
  "externals \<Rightarrow> machine_table \<Rightarrow> string \<Rightarrow> machine_status \<Rightarrow> instant \<Rightarrow> bool \<times> machine_table" where
  "update_status x tbl machine_id status now =
     (let now_text = to_text x now; sel = (\<lambda>r. mr_machine_id r = machine_id) in
      (rows_affected sel tbl = 1,
       update_where sel (\<lambda>r. r\<lparr> mr_status := status_as_str status, mr_updated_at := now_text \<rparr>) tbl))"

definition delete_machine_row :: "machine_table \<Rightarrow> string \<Rightarrow> bool \<times> machine_table" where
  "delete_machine_row tbl machine_id =
     (rows_affected (\<lambda>r. mr_machine_id r = machine_id) tbl = 1,
      filter (\<lambda>r. mr_machine_id r \<noteq> machine_id) tbl)"

section \<open>The enrollment token table\<close>

record token_row =
  tr_id :: string
  tr_token_hash :: string
  tr_created_at :: string
  tr_expires_at :: string
  tr_used_at :: "string option"
  tr_created_by :: string
  tr_single_use :: int

type_synonym token_table = "token_row list"

definition token_of_row :: "externals \<Rightarrow> token_row \<Rightarrow> (sqlx_error, enrollment_token) result" where
  "token_of_row x r =
     rbind (transpose_opt (parse_dt x) (tr_used_at r)) (\<lambda>used_at.
     rbind (parse_dt x (tr_created_at r)) (\<lambda>created_at.
     rbind (parse_dt x (tr_expires_at r)) (\<lambda>expires_at.
     Inr \<lparr> et_id = tr_id r, et_token_hash = tr_token_hash r, et_created_at = created_at,
           et_expires_at = expires_at, et_used_at = used_at, et_created_by = tr_created_by r,
           et_single_use = (tr_single_use r \<noteq> 0) \<rparr>)))"

definition create_token ::
  "externals \<Rightarrow> token_table \<Rightarrow> new_enrollment_token \<Rightarrow> (sqlx_error, enrollment_token \<times> token_table) result"
where
  "create_token x tbl new =
     (if net_id new \<in> tr_id ` set tbl
      then Inl (SqlDatabase ''UNIQUE constraint failed: machine_enrollment_tokens.id'')
      else if net_token_hash new \<in> tr_token_hash ` set tbl
      then Inl (SqlDatabase ''UNIQUE constraint failed: machine_enrollment_tokens.token_hash'')
      else Inr
        (\<lparr> et_id = net_id new, et_token_hash = net_token_hash new, et_created_at = net_created_at new,
           et_expires_at = net_expires_at new, et_used_at = None, et_created_by = net_created_by new,
           et_single_use = net_single_use new \<rparr>,
         tbl @ [\<lparr> tr_id = net_id new, tr_token_hash = net_token_hash new,
           tr_created_at = to_text x (net_created_at new),
           tr_expires_at = to_text x (net_expires_at new), tr_used_at = None,
           tr_created_by = net_created_by new,
           tr_single_use = (if net_single_use new then 1 else 0) \<rparr>]))"

definition find_by_hash ::
  "externals \<Rightarrow> token_table \<Rightarrow> string \<Rightarrow> (sqlx_error, enrollment_token option) result" where
  "find_by_hash x tbl token_hash =
     transpose_opt (token_of_row x) (find (\<lambda>r. tr_token_hash r = token_hash) tbl)"

definition consume :: "externals \<Rightarrow> token_table \<Rightarrow> string \<Rightarrow> bool \<Rightarrow> instant \<Rightarrow> bool \<times> token_table" where
  "consume x tbl token_id single_use now =
     (let now_text = to_text x now;
          sel = (if single_use then (\<lambda>r. tr_id r = token_id \<and> tr_used_at r = None)
                 else (\<lambda>r. tr_id r = token_id)) in
      (rows_affected sel tbl = 1,
       update_where sel (\<lambda>r. r\<lparr> tr_used_at := Some now_text \<rparr>) tbl))"

section \<open>Codecs and comparisons\<close>

lemma status_from_db_str_iff: "status_from_db_str v = Some s \<longleftrightarrow> v = status_as_str s"
  by (cases s) (auto simp: status_from_db_str_def)

lemma status_round_trip [simp]: "status_from_db_str (status_as_str s) = Some s"
  by (simp add: status_from_db_str_iff)

lemma constant_time_eq_iff [simp]: "constant_time_eq a b \<longleftrightarrow> a = b"
  by (auto simp: constant_time_eq_def xor_fold_eq_0_iff)

lemma transpose_opt_Inr_iff [result_simps]:
  "transpose_opt f x = Inr y \<longleftrightarrow>
     (x = None \<and> y = None) \<or> (\<exists>a b. x = Some a \<and> f a = Inr b \<and> y = Some b)"
  by (cases x) (auto simp: result_simps)

lemma parse_dt_to_text:
  "rfc3339_contract x \<Longrightarrow> rfc3339_range t \<Longrightarrow> parse_dt x (to_text x t) = Inr (trunc_ms t)"
  by (simp add: parse_dt_def to_text_def rfc3339_contractD)

section \<open>Selecting and updating rows\<close>

lemma length_update_where [simp]: "length (update_where sel f tbl) = length tbl"
  by (simp add: update_where_def)

lemma map_update_where [table_simps]:
  "(\<And>r. k (f r) = k r) \<Longrightarrow> map k (update_where sel f tbl) = map k tbl"
  by (simp add: update_where_def)

lemma find_update_where [table_simps]:
  assumes "\<And>r. P (f r) = P r"
  shows "find P (update_where sel f tbl) =
     map_option (\<lambda>r. if sel r then f r else r) (find P tbl)"
  using assms by (induction tbl) (auto simp: update_where_def)

lemma rows_affected_key [table_simps]:
  "distinct (map key tbl) \<Longrightarrow> rows_affected (\<lambda>r. key r = k) tbl = (if k \<in> key ` set tbl then 1 else 0)"
  by (induction tbl) (auto simp: rows_affected_def)

lemma rows_affected_le:
  "(\<And>r. sel r \<Longrightarrow> sel' r) \<Longrightarrow> rows_affected sel tbl \<le> rows_affected sel' tbl"
  by (induction tbl) (auto simp: rows_affected_def)

lemma find_key_Some:
  "find (\<lambda>r. key r = k) tbl = Some r \<Longrightarrow> r \<in> set tbl \<and> key r = k"
  by (auto simp: find_Some_iff)

lemma find_key_eq:
  "distinct (map key tbl) \<Longrightarrow> r \<in> set tbl \<Longrightarrow> find (\<lambda>r'. key r' = key r) tbl = Some r"
  by (induction tbl) (auto simp: image_iff)

lemma find_key_None: "find (\<lambda>r. key r = k) tbl = None \<longleftrightarrow> k \<notin> key ` set tbl"
  by (auto simp: find_None_iff)

section \<open>The machines table as a list of machines\<close>

definition machines_unique :: "machine_table \<Rightarrow> bool" where
  "machines_unique tbl \<longleftrightarrow>
     distinct (map mr_machine_id tbl) \<and> distinct (map mr_hostname tbl) \<and> distinct (map mr_public_key tbl)"

definition read_row :: "externals \<Rightarrow> machine_row \<Rightarrow> machine" where
  "read_row x r = (case machine_of_row x r of Inr m \<Rightarrow> m)"

definition abs_machines :: "externals \<Rightarrow> machine_table \<Rightarrow> machine list" where
  "abs_machines x tbl = map (read_row x) tbl"

definition machines_inv :: "externals \<Rightarrow> machine_table \<Rightarrow> bool" where
  "machines_inv x tbl \<longleftrightarrow>
     rfc3339_contract x \<and> machines_unique tbl \<and> (\<forall>r \<in> set tbl. machine_of_row x r = Inr (read_row x r))"

lemma read_row_eq: "machine_of_row x r = Inr m \<Longrightarrow> read_row x r = m"
  by (simp add: read_row_def)

lemma machine_of_row_keys:
  "machine_of_row x r = Inr m \<Longrightarrow> m_machine_id m = mr_machine_id r \<and> m_hostname m = mr_hostname r
     \<and> m_public_key m = mr_public_key r \<and> mr_status r = status_as_str (m_status m)"
  by (auto simp: machine_of_row_def result_simps status_from_db_str_iff)

lemma machine_of_row_status_update:
  assumes "rfc3339_contract x" "rfc3339_range now" "machine_of_row x r = Inr m"
  shows "machine_of_row x (r\<lparr> mr_status := status_as_str s, mr_updated_at := to_text x now \<rparr>)
       = Inr (m\<lparr> m_status := s, m_updated_at := trunc_ms now \<rparr>)"
  using assms(3) by (auto simp: machine_of_row_def result_simps parse_dt_to_text [OF assms(1,2)])

lemma machine_of_row_seen_update:
  assumes "rfc3339_contract x" "rfc3339_range now" "machine_of_row x r = Inr m"
  shows "machine_of_row x (r\<lparr> mr_last_seen := Some (to_text x now), mr_updated_at := to_text x now,
            mr_agent_version := v, mr_ip := ip, mr_current_generation := g \<rparr>)
       = Inr (m\<lparr> m_last_seen := Some (trunc_ms now), m_updated_at := trunc_ms now,
            m_agent_version := v, m_ip := ip, m_current_generation := g \<rparr>)"
  using assms(3) by (auto simp: machine_of_row_def result_simps parse_dt_to_text [OF assms(1,2)])

lemma find_machine_refines:
  assumes "machines_inv x tbl" and "\<And>r. r \<in> set tbl \<Longrightarrow> field (read_row x r) = column r"
  shows "find_machine x column tbl v = Inr (find (\<lambda>m. field m = v) (abs_machines x tbl))"
proof -
  have "\<forall>r \<in> set tbl. machine_of_row x r = Inr (read_row x r)"
    using assms(1) by (simp add: machines_inv_def)
  with assms(2) show ?thesis
    by (induction tbl) (auto simp: find_machine_def abs_machines_def)
qed

lemma machines_inv_keys:
  assumes "machines_inv x tbl" "r \<in> set tbl"
  shows "m_machine_id (read_row x r) = mr_machine_id r" "m_hostname (read_row x r) = mr_hostname r"
    "m_public_key (read_row x r) = mr_public_key r"
  using assms machine_of_row_keys by (auto simp: machines_inv_def)

lemma map_abs_machines:
  assumes "machines_inv x tbl"
  shows "map m_machine_id (abs_machines x tbl) = map mr_machine_id tbl"
    "map m_hostname (abs_machines x tbl) = map mr_hostname tbl"
    "map m_public_key (abs_machines x tbl) = map mr_public_key tbl"
  using machines_inv_keys [OF assms] by (simp_all add: abs_machines_def)

lemma update_where_refines:
  assumes inv: "machines_inv x tbl"
    and keys: "\<And>r. mr_machine_id (f r) = mr_machine_id r" "\<And>r. mr_hostname (f r) = mr_hostname r"
      "\<And>r. mr_public_key (f r) = mr_public_key r"
    and step: "\<And>r m. machine_of_row x r = Inr m \<Longrightarrow> machine_of_row x (f r) = Inr (g m)"
  shows "machines_inv x (update_where (\<lambda>r. mr_machine_id r = i) f tbl)"
    and "abs_machines x (update_where (\<lambda>r. mr_machine_id r = i) f tbl) =
         update_where (\<lambda>m. m_machine_id m = i) g (abs_machines x tbl)"
proof -
  have rd: "machine_of_row x r = Inr (read_row x r)" if "r \<in> set tbl" for r
    using inv that by (simp add: machines_inv_def)
  have fr: "machine_of_row x (f r) = Inr (read_row x (f r)) \<and> read_row x (f r) = g (read_row x r)"
    if "r \<in> set tbl" for r
    using step [OF rd [OF that]] by (simp add: read_row_eq)
  show "machines_inv x (update_where (\<lambda>r. mr_machine_id r = i) f tbl)"
    using inv rd fr keys
    by (auto simp: machines_inv_def machines_unique_def map_update_where)
      (auto simp: update_where_def)
  show "abs_machines x (update_where (\<lambda>r. mr_machine_id r = i) f tbl) =
         update_where (\<lambda>m. m_machine_id m = i) g (abs_machines x tbl)"
    using fr machines_inv_keys(1) [OF inv] by (auto simp: abs_machines_def update_where_def)
qed

lemma machines_inv_filter: "machines_inv x tbl \<Longrightarrow> machines_inv x (filter P tbl)"
  by (auto simp: machines_inv_def machines_unique_def intro: distinct_map_filter)

lemma machines_inv_Nil: "rfc3339_contract x \<Longrightarrow> machines_inv x []"
  by (simp add: machines_inv_def machines_unique_def)

text \<open>What the text columns keep of a freshly inserted machine.\<close>

definition stored_machine :: "new_machine \<Rightarrow> machine" where
  "stored_machine new = inserted_machine (new\<lparr> nm_enrolled_at := trunc_ms (nm_enrolled_at new) \<rparr>)"

lemma machine_of_inserted_row:
  assumes "rfc3339_contract x" "rfc3339_range (nm_enrolled_at new)"
  shows "machine_of_row x (inserted_row x new) = Inr (stored_machine new)"
  by (simp add: machine_of_row_def inserted_row_def stored_machine_def inserted_machine_def Let_def
      parse_dt_to_text [OF assms])

lemma insert_machine_Inr_iff:
  "insert_machine x tbl new = Inr (m, tbl') \<longleftrightarrow>
     nm_machine_id new \<notin> mr_machine_id ` set tbl \<and> nm_hostname new \<notin> mr_hostname ` set tbl
   \<and> nm_public_key new \<notin> mr_public_key ` set tbl
   \<and> m = inserted_machine new \<and> tbl' = tbl @ [inserted_row x new]"
  by (auto simp: insert_machine_def machine_unique_violation_def split: if_splits)

lemma inserted_row_keys [simp]:
  "mr_machine_id (inserted_row x new) = nm_machine_id new"
  "mr_hostname (inserted_row x new) = nm_hostname new"
  "mr_public_key (inserted_row x new) = nm_public_key new"
  by (simp_all add: inserted_row_def Let_def)

lemma insert_machine_refines:
  assumes inv: "machines_inv x tbl" and t: "rfc3339_range (nm_enrolled_at new)"
    and ins: "insert_machine x tbl new = Inr (m, tbl')"
  shows "machines_inv x tbl'"
    and "abs_machines x tbl' = abs_machines x tbl @ [stored_machine new]"
proof -
  have row: "machine_of_row x (inserted_row x new) = Inr (stored_machine new)"
    using inv t by (intro machine_of_inserted_row) (simp add: machines_inv_def)
  have tbl': "tbl' = tbl @ [inserted_row x new]" using ins by (simp add: insert_machine_Inr_iff)
  have "machines_unique tbl'"
    using inv ins by (auto simp: tbl' insert_machine_Inr_iff machines_inv_def machines_unique_def)
  with inv show "machines_inv x tbl'"
    by (simp add: machines_inv_def tbl' row read_row_eq [OF row])
  show "abs_machines x tbl' = abs_machines x tbl @ [stored_machine new]"
    by (simp add: abs_machines_def tbl' read_row_eq [OF row])
qed

section \<open>The contract of the machine repository\<close>

text \<open>
  What the services rely on, over the list of machines that a table stands for: the
  three lookups search that list, the writes change exactly the machine they name,
  and the identifier, host name and public key stay unique.
\<close>

locale machine_repository =
  fixes abs :: "'t \<Rightarrow> machine list" and inv :: "'t \<Rightarrow> bool" and time_ok :: "instant \<Rightarrow> bool"
    and by_id :: "'t \<Rightarrow> string \<Rightarrow> ('e, machine option) result"
    and by_hostname :: "'t \<Rightarrow> string \<Rightarrow> ('e, machine option) result"
    and by_public_key :: "'t \<Rightarrow> string \<Rightarrow> ('e, machine option) result"
    and ins :: "'t \<Rightarrow> new_machine \<Rightarrow> ('e, machine \<times> 't) result"
    and seen :: "'t \<Rightarrow> heartbeat_update \<Rightarrow> bool \<times> 't"
    and set_status :: "'t \<Rightarrow> string \<Rightarrow> machine_status \<Rightarrow> instant \<Rightarrow> bool \<times> 't"
    and del :: "'t \<Rightarrow> string \<Rightarrow> bool \<times> 't"
  assumes unique: "inv t \<Longrightarrow> distinct (map m_machine_id (abs t)) \<and> distinct (map m_hostname (abs t))
        \<and> distinct (map m_public_key (abs t))"
    and by_id: "inv t \<Longrightarrow> by_id t k = Inr (find (\<lambda>m. m_machine_id m = k) (abs t))"
    and by_hostname: "inv t \<Longrightarrow> by_hostname t k = Inr (find (\<lambda>m. m_hostname m = k) (abs t))"
    and by_public_key: "inv t \<Longrightarrow> by_public_key t k = Inr (find (\<lambda>m. m_public_key m = k) (abs t))"
    and ins_Inr: "inv t \<Longrightarrow> time_ok (nm_enrolled_at n) \<Longrightarrow> ins t n = Inr (m, t') \<Longrightarrow>
        m = inserted_machine n \<and> inv t' \<and> abs t' = abs t @ [stored_machine n]"
    and ins_Inl: "inv t \<Longrightarrow> (\<exists>e. ins t n = Inl e) \<longleftrightarrow>
        (\<exists>m \<in> set (abs t). m_machine_id m = nm_machine_id n \<or> m_hostname m = nm_hostname n
           \<or> m_public_key m = nm_public_key n)"
    and seen: "inv t \<Longrightarrow> time_ok (hu_now u) \<Longrightarrow> seen t u = (found, t') \<Longrightarrow>
        found = (hu_machine_id u \<in> m_machine_id ` set (abs t)) \<and> inv t' \<and>
        abs t' = update_where (\<lambda>m. m_machine_id m = hu_machine_id u)
          (\<lambda>m. m\<lparr> m_last_seen := Some (trunc_ms (hu_now u)), m_updated_at := trunc_ms (hu_now u),
             m_agent_version := hu_agent_version u, m_ip := hu_ip u,
             m_current_generation := hu_current_generation u \<rparr>) (abs t)"
    and set_status: "inv t \<Longrightarrow> time_ok now \<Longrightarrow> set_status t k s now = (found, t') \<Longrightarrow>
        found = (k \<in> m_machine_id ` set (abs t)) \<and> inv t' \<and>
        abs t' = update_where (\<lambda>m. m_machine_id m = k)
          (\<lambda>m. m\<lparr> m_status := s, m_updated_at := trunc_ms now \<rparr>) (abs t)"
    and del: "inv t \<Longrightarrow> del t k = (found, t') \<Longrightarrow>
        found = (k \<in> m_machine_id ` set (abs t)) \<and> inv t' \<and>
        abs t' = filter (\<lambda>m. m_machine_id m \<noteq> k) (abs t)"
begin

lemma by_id_Some_iff:
  "inv t \<Longrightarrow> by_id t k = Inr (Some m) \<longleftrightarrow> m \<in> set (abs t) \<and> m_machine_id m = k"
  using unique find_key_eq [of m_machine_id "abs t" m] by (auto simp: by_id dest: find_key_Some)

lemma by_id_total: "inv t \<Longrightarrow> \<exists>r. by_id t k = Inr r"
  by (simp add: by_id)

lemma lookups_agree:
  "inv t \<Longrightarrow> by_hostname t h = Inr (Some m) \<or> by_public_key t h = Inr (Some m) \<Longrightarrow>
     by_id t (m_machine_id m) = Inr (Some m)"
  by (auto simp: by_id_Some_iff by_hostname by_public_key dest: find_key_Some)

lemma by_id_set_status:
  assumes "inv t" "time_ok now" "set_status t k s now = (found, t')"
  shows "by_id t' j = Inr (map_option (\<lambda>m. if m_machine_id m = k
      then m\<lparr> m_status := s, m_updated_at := trunc_ms now \<rparr> else m)
      (find (\<lambda>m. m_machine_id m = j) (abs t)))"
  using set_status [OF assms] by (simp add: by_id find_update_where)

lemma status_after_set:
  assumes "inv t" "time_ok now" "set_status t k s now = (found, t')" "by_id t' k = Inr (Some m)"
  shows "found \<and> m_status m = s"
proof (cases "find (\<lambda>m. m_machine_id m = k) (abs t)")
  case None
  with by_id_set_status [OF assms(1-3), of k] assms(4) show ?thesis by simp
next
  case (Some m0)
  with by_id_set_status [OF assms(1-3), of k] assms(4) set_status [OF assms(1-3)] find_key_Some [OF Some]
  show ?thesis by auto
qed

lemma set_status_frame:
  assumes "inv t" "time_ok now" "set_status t k s now = (found, t')" "j \<noteq> k"
  shows "by_id t' j = by_id t j"
proof -
  have "(if m_machine_id m = k then m\<lparr> m_status := s, m_updated_at := trunc_ms now \<rparr> else m) = m"
    if "find (\<lambda>m. m_machine_id m = j) (abs t) = Some m" for m
    using find_key_Some [OF that] assms(4) by simp
  then show ?thesis
    using assms(1) by (cases "find (\<lambda>m. m_machine_id m = j) (abs t)")
      (simp_all add: by_id_set_status [OF assms(1-3)] by_id)
qed

lemma seen_keeps_status:
  assumes "inv t" "time_ok (hu_now u)" "seen t u = (found, t')" "by_id t' j = Inr (Some m')"
  shows "\<exists>m. by_id t j = Inr (Some m) \<and> m_status m' = m_status m \<and> m_public_key m' = m_public_key m"
  using seen [OF assms(1-3)] assms(1,4)
  by (auto simp: by_id find_update_where split: if_splits)

lemma deleted_gone:
  assumes "inv t" "del t k = (found, t')"
  shows "by_id t' k = Inr None"
  using del [OF assms] by (auto simp: by_id find_None_iff)

lemma delete_frame:
  assumes "inv t" "del t k = (found, t')" "j \<noteq> k"
  shows "by_id t' j = by_id t j"
proof -
  have "find (\<lambda>m. m_machine_id m = j) (filter (\<lambda>m. m_machine_id m \<noteq> k) ms) =
        find (\<lambda>m. m_machine_id m = j) ms" for ms
    using assms(3) by (induction ms) auto
  then show ?thesis using del [OF assms(1,2)] assms(1) by (simp add: by_id)
qed

end

lemma rows_affected_machine_id:
  assumes "machines_inv x tbl"
  shows "(rows_affected (\<lambda>r. mr_machine_id r = k) tbl = 1) = (k \<in> m_machine_id ` set (abs_machines x tbl))"
proof -
  have "distinct (map mr_machine_id tbl)" using assms by (simp add: machines_inv_def machines_unique_def)
  from rows_affected_key [OF this] show ?thesis
    by (simp flip: set_map add: map_abs_machines [OF assms])
qed

interpretation sqlite_machines: machine_repository
  "abs_machines x" "machines_inv x" rfc3339_range "find_by_id x" "find_by_hostname x"
  "find_by_public_key x" "insert_machine x" "update_last_seen x" "update_status x" delete_machine_row
  for x
proof (unfold_locales, goal_cases)
  case (1 t)
  then show ?case by (simp add: map_abs_machines) (simp add: machines_inv_def machines_unique_def)
next
  case (2 t k)
  then show ?case
    unfolding find_by_id_def by (intro find_machine_refines) (simp_all add: machines_inv_keys)
next
  case (3 t k)
  then show ?case
    unfolding find_by_hostname_def by (intro find_machine_refines) (simp_all add: machines_inv_keys)
next
  case (4 t k)
  then show ?case
    unfolding find_by_public_key_def by (intro find_machine_refines) (simp_all add: machines_inv_keys)
next
  case (5 t n m t')
  then show ?case using insert_machine_refines [OF 5] by (simp add: insert_machine_Inr_iff)
next
  case (6 t n)
  have "(\<exists>e. insert_machine x t n = Inl e) \<longleftrightarrow>
      nm_machine_id n \<in> set (map mr_machine_id t) \<or> nm_hostname n \<in> set (map mr_hostname t)
      \<or> nm_public_key n \<in> set (map mr_public_key t)"
    by (auto simp: insert_machine_def machine_unique_violation_def)
  also have "\<dots> \<longleftrightarrow> nm_machine_id n \<in> m_machine_id ` set (abs_machines x t)
      \<or> nm_hostname n \<in> m_hostname ` set (abs_machines x t)
      \<or> nm_public_key n \<in> m_public_key ` set (abs_machines x t)"
    by (simp flip: map_abs_machines [OF 6])
  finally show ?case unfolding image_iff by metis
next
  case (7 t u found t')
  let ?f = "\<lambda>r. r\<lparr> mr_last_seen := Some (to_text x (hu_now u)), mr_updated_at := to_text x (hu_now u),
     mr_agent_version := hu_agent_version u, mr_ip := hu_ip u,
     mr_current_generation := hu_current_generation u \<rparr>"
  have "rfc3339_contract x" using 7(1) by (simp add: machines_inv_def)
  note ref = update_where_refines [OF 7(1), of ?f, OF _ _ _ machine_of_row_seen_update [OF this 7(2)]]
  show ?case using 7(3) ref rows_affected_machine_id [OF 7(1)]
    by (auto simp: update_last_seen_def Let_def)
next
  case (8 t now k s found t')
  let ?f = "\<lambda>r. r\<lparr> mr_status := status_as_str s, mr_updated_at := to_text x now \<rparr>"
  have "rfc3339_contract x" using 8(1) by (simp add: machines_inv_def)
  note ref = update_where_refines [OF 8(1), of ?f, OF _ _ _ machine_of_row_status_update [OF this 8(2)]]
  show ?case using 8(3) ref rows_affected_machine_id [OF 8(1)]
    by (auto simp: update_status_def Let_def)
next
  case (9 t k found t')
  have "abs_machines x (filter (\<lambda>r. mr_machine_id r \<noteq> k) t) =
      filter (\<lambda>m. m_machine_id m \<noteq> k) (abs_machines x t)"
    using machines_inv_keys(1) [OF 9(1)]
    by (simp add: abs_machines_def filter_map comp_def cong: filter_cong)
  with 9(2) rows_affected_machine_id [OF 9(1)] machines_inv_filter [OF 9(1)] show ?case
    by (auto simp: delete_machine_row_def)
qed

section \<open>The contract of the token repository\<close>

definition tokens_unique :: "token_table \<Rightarrow> bool" where
  "tokens_unique tbl \<longleftrightarrow> distinct (map tr_id tbl) \<and> distinct (map tr_token_hash tbl)"

text \<open>Whether the token with an identifier exists, and whether it has been used.\<close>

definition token_used :: "token_table \<Rightarrow> string \<Rightarrow> bool option" where
  "token_used tbl i = map_option (\<lambda>r. tr_used_at r \<noteq> None) (find (\<lambda>r. tr_id r = i) tbl)"

lemma tokens_unique_create:
  "tokens_unique tbl \<Longrightarrow> create_token x tbl new = Inr (tok, tbl') \<Longrightarrow> tokens_unique tbl'"
  by (auto simp: create_token_def tokens_unique_def split: if_splits)

lemma tokens_unique_consume: "tokens_unique tbl \<Longrightarrow> tokens_unique (snd (consume x tbl i su now))"
  by (auto simp: consume_def tokens_unique_def Let_def map_update_where)

lemma rows_affected_conj:
  "distinct (map key tbl) \<Longrightarrow>
     (rows_affected (\<lambda>r. key r = k \<and> P r) tbl = 1) = (\<exists>r. find (\<lambda>r. key r = k) tbl = Some r \<and> P r)"
proof (induction tbl)
  case (Cons r tbl)
  have "rows_affected (\<lambda>r. key r = k \<and> P r) tbl \<le> rows_affected (\<lambda>r. key r = k) tbl"
    by (rule rows_affected_le) simp
  moreover have "rows_affected (\<lambda>r. key r = k) tbl = (if k \<in> key ` set tbl then 1 else 0)"
    using Cons.prems by (intro rows_affected_key) simp
  ultimately show ?case using Cons by (auto simp: rows_affected_def)
qed (simp add: rows_affected_def)

lemma consume_single_iff:
  "tokens_unique tbl \<Longrightarrow> fst (consume x tbl i True now) \<longleftrightarrow> token_used tbl i = Some False"
  using rows_affected_conj [of tr_id tbl i "\<lambda>r. tr_used_at r = None"]
  by (auto simp: consume_def Let_def tokens_unique_def token_used_def)

lemma token_used_consume:
  "token_used (snd (consume x tbl i su now)) j =
     (if i = j then map_option (\<lambda>_. True) (token_used tbl j) else token_used tbl j)"
proof -
  have "find (\<lambda>r. tr_id r = j) (snd (consume x tbl i su now)) =
      map_option (\<lambda>r. if tr_id r = i \<and> (su \<longrightarrow> tr_used_at r = None)
        then r\<lparr> tr_used_at := Some (to_text x now) \<rparr> else r) (find (\<lambda>r. tr_id r = j) tbl)"
    by (auto simp: consume_def Let_def find_update_where)
  then show ?thesis
    by (cases "find (\<lambda>r. tr_id r = j) tbl") (auto simp: token_used_def dest: find_key_Some)
qed

locale token_repository =
  fixes inv :: "'t \<Rightarrow> bool" and used :: "'t \<Rightarrow> string \<Rightarrow> bool option"
    and cons_tok :: "'t \<Rightarrow> string \<Rightarrow> bool \<Rightarrow> instant \<Rightarrow> bool \<times> 't"
  assumes cons_inv: "inv t \<Longrightarrow> inv (snd (cons_tok t i su now))"
    and cons_single: "inv t \<Longrightarrow> fst (cons_tok t i True now) \<longleftrightarrow> used t i = Some False"
    and cons_used: "used (snd (cons_tok t i su now)) j =
          (if i = j then map_option (\<lambda>_. True) (used t j) else used t j)"
begin

lemma used_stays: "used t j = Some True \<Longrightarrow> used (snd (cons_tok t i su now)) j = Some True"
  by (simp add: cons_used)

lemma second_consume_fails:
  "inv t \<Longrightarrow> cons_tok t i True now = (True, t') \<Longrightarrow> \<not> fst (cons_tok t' i True now')"
  using cons_single [of t i now] cons_inv [of t i True now] cons_single [of t' i now'] cons_used [of t i True now i]
  by auto

end

interpretation sqlite_tokens: token_repository tokens_unique token_used "consume x"
  for x
  by unfold_locales (simp_all add: tokens_unique_consume consume_single_iff token_used_consume)

end
