(* ===== verification/Enrollment.thy ===== *)
theory Enrollment
  imports Machines
begin

text \<open>
  Enrollment of machines (\<^verbatim>\<open>src/machines/{service,errors}.rs\<close>): minting of enrollment tokens
  and the admission of a machine in one transaction (token lookup, state and
  duplicate checks, consumption, insertion), followed by the audit event.

  Each call into the storage layer is a fault point of type \<open>enroll_io\<close>; the argument
  \<open>io\<close> says which of them answer.  The transaction is rolled back on every early return,
  so only a result of \<open>enroll_tx\<close> on the right reaches the database.

  Shown here: what a successful enrollment has checked and what it changes; that a
  failed one changes nothing, except that a failure of the audit append comes after the
  commit; that a single-use token admits at most one machine over any sequence of
  requests with any faults; that a minted token is accepted.
\<close>

section \<open>Errors\<close>

datatype enrollment_error =
    TokenInvalid
  | TokenExpired
  | TokenAlreadyUsed
  | InvalidRequest string
  | PublicKeyInvalid
  | HostAlreadyEnrolled
  | PublicKeyAlreadyExists
  | EnrollInternal string

fun enrollment_status :: "enrollment_error \<Rightarrow> nat" where
  "enrollment_status TokenInvalid = 401"
| "enrollment_status TokenExpired = 401"
| "enrollment_status (InvalidRequest _) = 400"
| "enrollment_status PublicKeyInvalid = 400"
| "enrollment_status TokenAlreadyUsed = 409"
| "enrollment_status HostAlreadyEnrolled = 409"
| "enrollment_status PublicKeyAlreadyExists = 409"
| "enrollment_status (EnrollInternal _) = 500"

fun enrollment_code :: "enrollment_error \<Rightarrow> string" where
  "enrollment_code TokenInvalid = ''TOKEN_INVALID''"
| "enrollment_code TokenExpired = ''TOKEN_EXPIRED''"
| "enrollment_code TokenAlreadyUsed = ''TOKEN_ALREADY_USED''"
| "enrollment_code (InvalidRequest _) = ''bad_request''"
| "enrollment_code PublicKeyInvalid = ''PUBLIC_KEY_INVALID''"
| "enrollment_code HostAlreadyEnrolled = ''HOST_ALREADY_ENROLLED''"
| "enrollment_code PublicKeyAlreadyExists = ''PUBLIC_KEY_ALREADY_EXISTS''"
| "enrollment_code (EnrollInternal _) = ''internal_error''"

fun enrollment_client_message :: "enrollment_error \<Rightarrow> string" where
  "enrollment_client_message (EnrollInternal _) = ''internal server error''"
| "enrollment_client_message TokenInvalid = ''enrollment token is invalid''"
| "enrollment_client_message TokenExpired = ''enrollment token has expired''"
| "enrollment_client_message TokenAlreadyUsed = ''enrollment token has already been used''"
| "enrollment_client_message (InvalidRequest m) = m"
| "enrollment_client_message PublicKeyInvalid = ''public key is invalid''"
| "enrollment_client_message HostAlreadyEnrolled = ''a machine with this hostname is already enrolled''"
| "enrollment_client_message PublicKeyAlreadyExists = ''a machine with this public key is already enrolled''"

section \<open>Service state and requests\<close>

record enrollment_service =
  es_server_identity :: string
  es_heartbeat_interval :: u32
  es_sync_interval :: u32
  es_bundle_signing_key :: "string option"

definition DEFAULT_HEARTBEAT_INTERVAL :: u32 where "DEFAULT_HEARTBEAT_INTERVAL = 60"
definition DEFAULT_SYNC_INTERVAL :: u32 where "DEFAULT_SYNC_INTERVAL = 300"
definition EVENT_MACHINE_ENROLLED :: string where "EVENT_MACHINE_ENROLLED = ''machine.enrolled''"

definition enrollment_service_sqlite :: "string \<Rightarrow> enrollment_service" where
  "enrollment_service_sqlite server_identity =
     \<lparr> es_server_identity = server_identity, es_heartbeat_interval = DEFAULT_HEARTBEAT_INTERVAL,
       es_sync_interval = DEFAULT_SYNC_INTERVAL, es_bundle_signing_key = None \<rparr>"

definition with_sync_interval :: "u32 \<Rightarrow> enrollment_service \<Rightarrow> enrollment_service" where
  "with_sync_interval n s = s\<lparr> es_sync_interval := n \<rparr>"

definition with_bundle_signing_key :: "string option \<Rightarrow> enrollment_service \<Rightarrow> enrollment_service" where
  "with_bundle_signing_key k s = s\<lparr> es_bundle_signing_key := k \<rparr>"

record enroll_request =
  rq_enrollment_token :: string
  rq_hostname :: string
  rq_os :: string
  rq_arch :: string
  rq_agent_version :: string
  rq_public_key :: string

record enroll_response =
  rs_machine_id :: string
  rs_heartbeat_interval :: u32
  rs_sync_interval :: u32
  rs_server_identity :: string
  rs_bundle_signing_key :: "string option"

record issued_enrollment_token =
  iet_plaintext :: string
  iet_record :: enrollment_token

record database =
  db_machines :: machine_table
  db_tokens :: token_table
  db_audit :: audit_log

datatype enroll_io = IoBegin | IoFindToken | IoFindHostname | IoFindKey | IoConsume | IoInsert
  | IoCommit | IoAudit

section \<open>Operations\<close>

definition create_enrollment_token ::
  "externals \<Rightarrow> bool \<Rightarrow> byte list \<Rightarrow> string \<Rightarrow> instant \<Rightarrow> database \<Rightarrow> string \<Rightarrow> int \<Rightarrow> bool
     \<Rightarrow> (enrollment_error, issued_enrollment_token) result \<times> database"
where
  "create_enrollment_token x up random uuid now db created_by ttl single_use =
     (let plaintext = generate_token x random;
          token_hash = hash_token x plaintext;
          new = \<lparr> net_id = uuid, net_token_hash = token_hash, net_created_at = now,
                  net_expires_at = now + ttl, net_created_by = created_by,
                  net_single_use = single_use \<rparr> in
      case (if up then create_token x (db_tokens db) new else Inl SqlIo) of
        Inl e \<Rightarrow> (Inl (EnrollInternal (sqlx_display e)), db)
      | Inr (record, tokens) \<Rightarrow>
          (Inr \<lparr> iet_plaintext = plaintext, iet_record = record \<rparr>, db\<lparr> db_tokens := tokens \<rparr>))"

definition validate_token_state :: "enrollment_token \<Rightarrow> instant \<Rightarrow> (enrollment_error, unit) result" where
  "validate_token_state token now =
     (if et_expires_at token \<le> now then Inl TokenExpired
      else if et_single_use token \<and> et_used_at token \<noteq> None then Inl TokenAlreadyUsed
      else Inr ())"

definition generate_machine_id :: "string \<Rightarrow> string" where
  "generate_machine_id uuid_simple = ''srv_'' @ uuid_simple"

definition contains :: "string \<Rightarrow> string \<Rightarrow> bool" where
  "contains hay needle \<longleftrightarrow> sublist needle hay"

fun map_insert_error :: "sqlx_error \<Rightarrow> enrollment_error" where
  "map_insert_error (SqlDatabase message) =
     (if contains message ''machines.hostname'' then HostAlreadyEnrolled
      else if contains message ''machines.public_key'' then PublicKeyAlreadyExists
      else EnrollInternal message)"
| "map_insert_error e = EnrollInternal (sqlx_display e)"

text \<open>A storage call that may not answer, with the \<^verbatim>\<open>?\<close> conversion of its error.\<close>

definition sql :: "bool \<Rightarrow> (sqlx_error, 'a) result \<Rightarrow> (enrollment_error, 'a) result" where
  "sql up r = map_err (\<lambda>e. EnrollInternal (sqlx_display e)) (if up then r else Inl SqlIo)"

definition admitted_machine :: "string \<Rightarrow> instant \<Rightarrow> enroll_request \<Rightarrow> string \<Rightarrow> new_machine" where
  "admitted_machine uuid now request public_key =
     \<lparr> nm_machine_id = generate_machine_id uuid, nm_hostname = rq_hostname request,
       nm_public_key = public_key, nm_os = rq_os request, nm_arch = rq_arch request,
       nm_agent_version = rq_agent_version request, nm_status = Active, nm_enrolled_at = now \<rparr>"

definition enrolled_event :: "externals \<Rightarrow> machine \<Rightarrow> string \<Rightarrow> new_audit_entry" where
  "enrolled_event x machine public_key =
     (let fingerprint = (case public_key_fingerprint x public_key of
                           Some f \<Rightarrow> f | None \<Rightarrow> ''unknown'') in
      with_metadata (json_object
        [(''hostname'', JStr (m_hostname machine)),
         (''agent_version'', JStr (m_agent_version machine)),
         (''public_key_fingerprint'', JStr fingerprint)])
      (with_subject (m_machine_id machine) (new_entry EVENT_MACHINE_ENROLLED ''system'')))"

definition enroll_tx ::
  "externals \<Rightarrow> (enroll_io \<Rightarrow> bool) \<Rightarrow> string \<Rightarrow> instant \<Rightarrow> database \<Rightarrow> enroll_request \<Rightarrow> string
     \<Rightarrow> (enrollment_error, machine \<times> database) result"
where
  "enroll_tx x io uuid now db request public_key =
     (let token_hash = hash_token x (rq_enrollment_token request) in
      rbind (sql (io IoBegin) (Inr ())) (\<lambda>_.
      rbind (sql (io IoFindToken) (find_by_hash x (db_tokens db) token_hash)) (\<lambda>found.
      rbind (ok_or TokenInvalid found) (\<lambda>token_record.
      rbind (ensure (constant_time_eq (as_bytes (et_token_hash token_record)) (as_bytes token_hash))
               TokenInvalid) (\<lambda>_.
      rbind (validate_token_state token_record now) (\<lambda>_.
      rbind (sql (io IoFindHostname) (find_by_hostname x (db_machines db) (rq_hostname request))) (\<lambda>h.
      rbind (ensure (h = None) HostAlreadyEnrolled) (\<lambda>_.
      rbind (sql (io IoFindKey) (find_by_public_key x (db_machines db) public_key)) (\<lambda>k.
      rbind (ensure (k = None) PublicKeyAlreadyExists) (\<lambda>_.
      rbind (sql (io IoConsume)
               (Inr (consume x (db_tokens db) (et_id token_record) (et_single_use token_record) now)))
        (\<lambda>(consumed, tokens).
      rbind (ensure consumed TokenAlreadyUsed) (\<lambda>_.
      rbind (map_err map_insert_error
               (if io IoInsert
                then insert_machine x (db_machines db) (admitted_machine uuid now request public_key)
                else Inl SqlIo))
        (\<lambda>(machine, machines).
      rbind (sql (io IoCommit) (Inr ())) (\<lambda>_.
      Inr (machine, db\<lparr> db_tokens := tokens, db_machines := machines \<rparr>)))))))))))))))"

definition enroll ::
  "externals \<Rightarrow> (enroll_io \<Rightarrow> bool) \<Rightarrow> enrollment_service \<Rightarrow> string \<Rightarrow> instant \<Rightarrow> instant \<Rightarrow> database
     \<Rightarrow> enroll_request
     \<Rightarrow> (enrollment_error, enroll_response) result \<times> database"
where
  "enroll x io svc uuid now audited_at db request =
     (let admitted =
        rbind (ensure (is_well_formed (rq_enrollment_token request)) TokenInvalid) (\<lambda>_.
        rbind (ensure (is_valid_hostname (rq_hostname request)) (InvalidRequest ''invalid hostname'')) (\<lambda>_.
        rbind (map_err (\<lambda>_. PublicKeyInvalid)
                 (validate_ed25519_public_key x (rq_public_key request))) (\<lambda>public_key.
        rbind (enroll_tx x io uuid now db request public_key) (\<lambda>(machine, db').
        Inr (public_key, machine, db')))))
      in case admitted of
        Inl e \<Rightarrow> (Inl e, db)
      | Inr (public_key, machine, db') \<Rightarrow>
          let event = enrolled_event x machine public_key;
              (audited, log) = append_audit_event x (io IoAudit) audited_at (db_audit db') event;
              db'' = db'\<lparr> db_audit := log \<rparr> in
          case audited of
            Inl e \<Rightarrow> (Inl (EnrollInternal (audit_error_display e)), db'')
          | Inr _ \<Rightarrow>
              (Inr \<lparr> rs_machine_id = m_machine_id machine,
                     rs_heartbeat_interval = es_heartbeat_interval svc,
                     rs_sync_interval = es_sync_interval svc,
                     rs_server_identity = es_server_identity svc,
                     rs_bundle_signing_key = es_bundle_signing_key svc \<rparr>, db''))"

section \<open>The transaction\<close>

lemma sql_Inr_iff [result_simps]: "sql up r = Inr a \<longleftrightarrow> up \<and> r = Inr a"
  by (simp add: sql_def)

lemma find_machine_None_iff:
  "find_machine x column tbl v = Inr None \<longleftrightarrow> v \<notin> column ` set tbl"
  by (auto simp: find_machine_def result_simps find_key_None [symmetric])

lemma find_by_hash_Inr_Some_iff:
  "find_by_hash x tbl h = Inr (Some tok) \<longleftrightarrow>
     (\<exists>r. find (\<lambda>r. tr_token_hash r = h) tbl = Some r \<and> token_of_row x r = Inr tok)"
  by (auto simp: find_by_hash_def result_simps)

lemma token_of_row_columns:
  "token_of_row x r = Inr tok \<Longrightarrow> et_id tok = tr_id r \<and> et_token_hash tok = tr_token_hash r
     \<and> et_single_use tok = (tr_single_use r \<noteq> 0) \<and> (et_used_at tok = None \<longleftrightarrow> tr_used_at r = None)
     \<and> parse_dt x (tr_expires_at r) = Inr (et_expires_at tok)"
  by (auto simp: token_of_row_def result_simps)

text \<open>What the transaction requires of the stored token.\<close>

definition token_admits :: "externals \<Rightarrow> token_row \<Rightarrow> instant \<Rightarrow> bool" where
  "token_admits x r now \<longleftrightarrow>
     (\<exists>tok. token_of_row x r = Inr tok \<and> now < et_expires_at tok
        \<and> (et_single_use tok \<longrightarrow> et_used_at tok = None))"

lemma validate_token_state_Inr_iff:
  "validate_token_state tok now = Inr u \<longleftrightarrow>
     now < et_expires_at tok \<and> (et_single_use tok \<longrightarrow> et_used_at tok = None)"
  by (auto simp: validate_token_state_def)

text \<open>The token table after an admission with the token in row \<open>r\<close>.\<close>

definition spend :: "externals \<Rightarrow> token_table \<Rightarrow> token_row \<Rightarrow> instant \<Rightarrow> bool \<times> token_table" where
  "spend x tbl r now = consume x tbl (tr_id r) (tr_single_use r \<noteq> 0) now"

lemma enroll_tx_Inr_token:
  "enroll_tx x io uuid now db rq pk = Inr (m, db') \<longleftrightarrow>
     io IoBegin \<and> io IoFindToken \<and> io IoFindHostname \<and> io IoFindKey \<and> io IoConsume \<and> io IoInsert \<and> io IoCommit
   \<and> (\<exists>tok ms. find_by_hash x (db_tokens db) (hash_token x (rq_enrollment_token rq)) = Inr (Some tok)
        \<and> et_token_hash tok = hash_token x (rq_enrollment_token rq)
        \<and> now < et_expires_at tok \<and> (et_single_use tok \<longrightarrow> et_used_at tok = None)
        \<and> rq_hostname rq \<notin> mr_hostname ` set (db_machines db) \<and> pk \<notin> mr_public_key ` set (db_machines db)
        \<and> fst (consume x (db_tokens db) (et_id tok) (et_single_use tok) now)
        \<and> insert_machine x (db_machines db) (admitted_machine uuid now rq pk) = Inr (m, ms)
        \<and> db' = db\<lparr> db_tokens := snd (consume x (db_tokens db) (et_id tok) (et_single_use tok) now),
                    db_machines := ms \<rparr>)"
  unfolding enroll_tx_def Let_def
  by (auto simp: result_simps find_by_hostname_def find_by_public_key_def
      find_machine_None_iff validate_token_state_Inr_iff case_prod_unfold)

lemma find_by_hash_row:
  "find_by_hash x tbl h = Inr (Some tok) \<Longrightarrow>
     \<exists>r. find (\<lambda>r. tr_token_hash r = h) tbl = Some r \<and> token_of_row x r = Inr tok
       \<and> et_id tok = tr_id r \<and> et_single_use tok = (tr_single_use r \<noteq> 0) \<and> et_token_hash tok = h"
  by (auto simp: find_by_hash_Inr_Some_iff dest: token_of_row_columns find_key_Some)

lemma enroll_tx_Inr_iff:
  "enroll_tx x io uuid now db rq pk = Inr (m, db') \<longleftrightarrow>
     io IoBegin \<and> io IoFindToken \<and> io IoFindHostname \<and> io IoFindKey \<and> io IoConsume \<and> io IoInsert \<and> io IoCommit
   \<and> (\<exists>r. find (\<lambda>r. tr_token_hash r = hash_token x (rq_enrollment_token rq)) (db_tokens db) = Some r
        \<and> token_admits x r now
        \<and> rq_hostname rq \<notin> mr_hostname ` set (db_machines db) \<and> pk \<notin> mr_public_key ` set (db_machines db)
        \<and> fst (spend x (db_tokens db) r now)
        \<and> (\<exists>ms. insert_machine x (db_machines db) (admitted_machine uuid now rq pk) = Inr (m, ms)
             \<and> db' = db\<lparr> db_tokens := snd (spend x (db_tokens db) r now), db_machines := ms \<rparr>))"
  (is "?L \<longleftrightarrow> ?R")
proof
  assume ?L
  then obtain tok ms where tok: "find_by_hash x (db_tokens db) (hash_token x (rq_enrollment_token rq)) = Inr (Some tok)"
    and rest: "io IoBegin \<and> io IoFindToken \<and> io IoFindHostname \<and> io IoFindKey \<and> io IoConsume \<and> io IoInsert \<and> io IoCommit"
      "now < et_expires_at tok \<and> (et_single_use tok \<longrightarrow> et_used_at tok = None)"
      "rq_hostname rq \<notin> mr_hostname ` set (db_machines db) \<and> pk \<notin> mr_public_key ` set (db_machines db)"
      "fst (consume x (db_tokens db) (et_id tok) (et_single_use tok) now)"
      "insert_machine x (db_machines db) (admitted_machine uuid now rq pk) = Inr (m, ms)"
      "db' = db\<lparr> db_tokens := snd (consume x (db_tokens db) (et_id tok) (et_single_use tok) now),
                 db_machines := ms \<rparr>"
    unfolding enroll_tx_Inr_token by blast
  from find_by_hash_row [OF tok] obtain r where
    r: "find (\<lambda>r. tr_token_hash r = hash_token x (rq_enrollment_token rq)) (db_tokens db) = Some r"
      "token_of_row x r = Inr tok" "et_id tok = tr_id r" "et_single_use tok = (tr_single_use r \<noteq> 0)" by blast
  show ?R using rest r
    by (intro conjI exI [of _ r] exI [of _ ms]) (auto simp: token_admits_def spend_def)
next
  assume ?R
  then obtain r where r: "find (\<lambda>r. tr_token_hash r = hash_token x (rq_enrollment_token rq)) (db_tokens db) = Some r"
    "token_admits x r now" by blast
  then obtain tok where tok: "token_of_row x r = Inr tok" "now < et_expires_at tok"
      "et_single_use tok \<longrightarrow> et_used_at tok = None" by (auto simp: token_admits_def)
  then have "find_by_hash x (db_tokens db) (hash_token x (rq_enrollment_token rq)) = Inr (Some tok)"
    using r(1) by (auto simp: find_by_hash_Inr_Some_iff)
  with find_by_hash_row [OF this] \<open>?R\<close> r(1) tok show ?L
    unfolding enroll_tx_Inr_token spend_def by auto
qed

section \<open>The whole request\<close>

definition enroll_ok_response :: "enrollment_service \<Rightarrow> string \<Rightarrow> enroll_response" where
  "enroll_ok_response svc uuid =
     \<lparr> rs_machine_id = generate_machine_id uuid, rs_heartbeat_interval = es_heartbeat_interval svc,
       rs_sync_interval = es_sync_interval svc, rs_server_identity = es_server_identity svc,
       rs_bundle_signing_key = es_bundle_signing_key svc \<rparr>"

lemma enroll_tx_machine:
  "enroll_tx x io uuid now db rq pk = Inr (m, db') \<Longrightarrow> m = inserted_machine (admitted_machine uuid now rq pk)"
  by (auto simp: enroll_tx_Inr_iff insert_machine_Inr_iff)

lemma enroll_cases:
  assumes "enroll x io svc uuid now audited_at db rq = (res, db')"
  obtains (rejected) e where "res = Inl e" "db' = db"
  | (committed) pk m db1 aud log where
      "is_well_formed (rq_enrollment_token rq)" "is_valid_hostname (rq_hostname rq)"
      "validate_ed25519_public_key x (rq_public_key rq) = Inr pk"
      "enroll_tx x io uuid now db rq pk = Inr (m, db1)"
      "append_audit_event x (io IoAudit) audited_at (db_audit db1) (enrolled_event x m pk) = (aud, log)"
      "db' = db1\<lparr> db_audit := log \<rparr>"
      "res = (case aud of Inl e \<Rightarrow> Inl (EnrollInternal (audit_error_display e))
              | Inr _ \<Rightarrow> Inr (enroll_ok_response svc uuid))"
proof (cases "is_well_formed (rq_enrollment_token rq) \<and> is_valid_hostname (rq_hostname rq)")
  case False
  then have "res = Inl TokenInvalid \<and> db' = db \<or> res = Inl (InvalidRequest ''invalid hostname'') \<and> db' = db"
    using assms by (cases "is_well_formed (rq_enrollment_token rq)") (auto simp: enroll_def)
  then show thesis using rejected by blast
next
  case True
  show thesis
  proof (cases "validate_ed25519_public_key x (rq_public_key rq)")
    case (Inl e)
    with assms True have "res = Inl PublicKeyInvalid" "db' = db" by (simp_all add: enroll_def)
    then show thesis by (rule rejected)
  next
    case (Inr pk)
    show thesis
    proof (cases "enroll_tx x io uuid now db rq pk")
      case (Inl e)
      with assms True Inr have "res = Inl e" "db' = db" by (simp_all add: enroll_def)
      then show thesis by (rule rejected)
    next
      case tx: (Inr p)
      obtain m db1 where p: "p = (m, db1)" by (cases p)
      obtain aud log where aud: "append_audit_event x (io IoAudit) audited_at (db_audit db1) (enrolled_event x m pk) = (aud, log)"
        by (cases "append_audit_event x (io IoAudit) audited_at (db_audit db1) (enrolled_event x m pk)")
      have "m_machine_id m = generate_machine_id uuid"
        using enroll_tx_machine [OF tx [unfolded p]] by (simp add: inserted_machine_def admitted_machine_def)
      with assms True Inr tx p aud show thesis
        by (intro committed [of pk m db1 aud log])
          (auto simp: enroll_def Let_def enroll_ok_response_def split: sum.splits)
    qed
  qed
qed

lemma find_hash_consume:
  "find (\<lambda>r. tr_token_hash r = h) (snd (consume x tbl i su now)) =
     map_option (\<lambda>r. if tr_id r = i \<and> (su \<longrightarrow> tr_used_at r = None)
        then r\<lparr> tr_used_at := Some (to_text x now) \<rparr> else r) (find (\<lambda>r. tr_token_hash r = h) tbl)"
  by (auto simp: consume_def Let_def find_update_where)

lemma enroll_tx_grows:
  "enroll_tx x io uuid now db rq pk = Inr (m, db') \<Longrightarrow>
     length (db_machines db') = Suc (length (db_machines db)) \<and> db_audit db' = db_audit db"
  by (auto simp: enroll_tx_Inr_iff insert_machine_Inr_iff)

text \<open>What one request, whatever its outcome, does to a stored single-use token.\<close>

lemma enroll_single_use_step:
  assumes u: "tokens_unique (db_tokens db)"
    and r: "find (\<lambda>r. tr_token_hash r = h) (db_tokens db) = Some r" "tr_single_use r \<noteq> 0"
    and e: "enroll x io svc uuid now audited_at db rq = (res, db')"
  shows "tokens_unique (db_tokens db') \<and>
      (\<exists>r'. find (\<lambda>r. tr_token_hash r = h) (db_tokens db') = Some r' \<and> tr_single_use r' \<noteq> 0
        \<and> (tr_used_at r \<noteq> None \<longrightarrow> tr_used_at r' \<noteq> None)
        \<and> (hash_token x (rq_enrollment_token rq) = h \<and> length (db_machines db) < length (db_machines db')
             \<longrightarrow> tr_used_at r = None \<and> tr_used_at r' \<noteq> None))"
  using e
proof (cases rule: enroll_cases)
  case rejected
  then show ?thesis using u r by simp
next
  case (committed pk m db1 aud log)
  from committed(4) obtain r0 where r0:
    "find (\<lambda>r. tr_token_hash r = hash_token x (rq_enrollment_token rq)) (db_tokens db) = Some r0"
    "token_admits x r0 now" "db_tokens db1 = snd (spend x (db_tokens db) r0 now)"
    by (auto simp: enroll_tx_Inr_iff)
  have toks: "db_tokens db' = snd (consume x (db_tokens db) (tr_id r0) (tr_single_use r0 \<noteq> 0) now)"
    using committed(6) r0(3) by (simp add: spend_def)
  have unused: "tr_single_use r0 \<noteq> 0 \<Longrightarrow> tr_used_at r0 = None"
    using r0(2) by (auto simp: token_admits_def dest: token_of_row_columns)
  have "tokens_unique (db_tokens db')" using u by (simp add: toks tokens_unique_consume)
  then show ?thesis using r r0(1) unused by (auto simp: toks find_hash_consume)
qed

type_synonym enroll_call = "(enroll_io \<Rightarrow> bool) \<times> enrollment_service \<times> string \<times> instant \<times> instant \<times> enroll_request"

text \<open>How many of a sequence of requests presenting a token with hash \<open>h\<close> enroll a machine.\<close>

fun admissions :: "externals \<Rightarrow> string \<Rightarrow> database \<Rightarrow> enroll_call list \<Rightarrow> nat" where
  "admissions x h db [] = 0"
| "admissions x h db ((io, svc, uuid, now, audited_at, rq) # calls) =
     (let db' = snd (enroll x io svc uuid now audited_at db rq) in
      (if hash_token x (rq_enrollment_token rq) = h \<and> length (db_machines db) < length (db_machines db')
       then 1 else 0) + admissions x h db' calls)"

lemma admissions_single_use:
  "tokens_unique (db_tokens db) \<Longrightarrow> find (\<lambda>r. tr_token_hash r = h) (db_tokens db) = Some r \<Longrightarrow>
   tr_single_use r \<noteq> 0 \<Longrightarrow> admissions x h db calls \<le> (if tr_used_at r = None then 1 else 0)"
proof (induction calls arbitrary: db r)
  case (Cons c calls)
  obtain io svc uuid now audited_at rq where c: "c = (io, svc, uuid, now, audited_at, rq)" by (cases c)
  obtain res db' where e: "enroll x io svc uuid now audited_at db rq = (res, db')"
    by (cases "enroll x io svc uuid now audited_at db rq")
  from enroll_single_use_step [OF Cons.prems e] obtain r' where
    "tokens_unique (db_tokens db')" "find (\<lambda>r. tr_token_hash r = h) (db_tokens db') = Some r'"
    "tr_single_use r' \<noteq> 0" and r': "tr_used_at r \<noteq> None \<longrightarrow> tr_used_at r' \<noteq> None"
      "hash_token x (rq_enrollment_token rq) = h \<and> length (db_machines db) < length (db_machines db')
        \<longrightarrow> tr_used_at r = None \<and> tr_used_at r' \<noteq> None" by blast
  from Cons.IH [OF this(1-3)] r' show ?case by (auto simp: c e Let_def split: if_splits)
qed simp

section \<open>Properties\<close>

text \<open>C3. A successful enrollment has checked everything it must and changes exactly what it says:
  the token is well formed and stored, not expired and (if single-use) unused; the host name is
  valid and new; the key is a valid Ed25519 key and new; afterwards the machines table has one
  more row, Active and with the fresh identifier, the token is marked as used, and the audit log has
  one more row, the \<^verbatim>\<open>machine.enrolled\<close> event of that machine.\<close>

theorem enroll_sound:
  assumes "enroll x io svc uuid now audited_at db rq = (Inr resp, db')"
  shows "\<exists>pk r. is_well_formed (rq_enrollment_token rq) \<and> is_valid_hostname (rq_hostname rq)
    \<and> validate_ed25519_public_key x (rq_public_key rq) = Inr pk
    \<and> r \<in> set (db_tokens db) \<and> tr_token_hash r = hash_token x (rq_enrollment_token rq)
    \<and> token_admits x r now
    \<and> rq_hostname rq \<notin> mr_hostname ` set (db_machines db) \<and> pk \<notin> mr_public_key ` set (db_machines db)
    \<and> resp = enroll_ok_response svc uuid
    \<and> db_machines db' = db_machines db @ [inserted_row x (admitted_machine uuid now rq pk)]
    \<and> db_tokens db' = snd (spend x (db_tokens db) r now)
    \<and> (\<exists>row. db_audit db' = db_audit db @ [row] \<and> ar_event_type row = EVENT_MACHINE_ENROLLED
         \<and> ar_subject row = Some (rs_machine_id resp))"
  using assms
proof (cases rule: enroll_cases)
  case (committed pk m db1 aud log)
  from committed(4) obtain r where r:
    "find (\<lambda>r. tr_token_hash r = hash_token x (rq_enrollment_token rq)) (db_tokens db) = Some r"
    "token_admits x r now" "db_tokens db1 = snd (spend x (db_tokens db) r now)"
    "rq_hostname rq \<notin> mr_hostname ` set (db_machines db)" "pk \<notin> mr_public_key ` set (db_machines db)"
    "db_machines db1 = db_machines db @ [inserted_row x (admitted_machine uuid now rq pk)]"
    by (auto simp: enroll_tx_Inr_iff insert_machine_Inr_iff)
  have m: "m = inserted_machine (admitted_machine uuid now rq pk)" using committed(4) by (rule enroll_tx_machine)
  have resp: "resp = enroll_ok_response svc uuid" and aud: "\<exists>e. aud = Inr e"
    using committed(7) by (auto split: sum.splits)
  from committed(5) aud enroll_tx_grows [OF committed(4)] obtain row where
    "log = db_audit db @ [row]" "ar_event_type row = EVENT_MACHINE_ENROLLED"
    "ar_subject row = Some (generate_machine_id uuid)"
    unfolding append_audit_event_def
    by (auto elim!: append_entry_cases simp: m enrolled_event_def Let_def with_metadata_def with_subject_def
        new_entry_def inserted_machine_def admitted_machine_def)
  with r committed(1-3,6) find_key_Some [OF r(1)] resp show ?thesis
    by (intro exI [of _ pk] exI [of _ r]) (simp add: enroll_ok_response_def)
qed simp

text \<open>C5. A failed enrollment leaves the database exactly as it was, whatever storage call failed
  and whichever check rejected it, with one exception: when the transaction has committed and the
  audit append fails afterwards, the machine stays enrolled and the token spent, the log is
  unchanged, and the client is told of an internal error.\<close>

theorem enroll_failure_atomic:
  assumes "enroll x io svc uuid now audited_at db rq = (Inl e, db')"
  shows "db' = db \<or>
    (\<exists>pk m msg. enroll_tx x io uuid now db rq pk = Inr (m, db') \<and> db_audit db' = db_audit db
       \<and> e = EnrollInternal msg \<and> enrollment_status e = 500)"
  using assms
proof (cases rule: enroll_cases)
  case (committed pk m db1 aud log)
  then obtain err where aud: "aud = Inl err" by (auto split: sum.splits)
  with committed(5) have "log = db_audit db1"
    unfolding append_audit_event_def by (auto elim!: append_entry_cases)
  then have "db' = db1" using committed(6) by simp
  moreover have "e = EnrollInternal (audit_error_display err)" using committed(7) aud by simp
  ultimately show ?thesis
    using committed(4) enroll_tx_grows [OF committed(4)] by auto
qed simp

text \<open>C9. A single-use enrollment token admits at most one machine: over any sequence of requests,
  with any storage faults, times and contents in between, at most one request presenting it enrolls
  a machine, and none does once it is marked as used.\<close>

theorem single_use_token_once:
  assumes "tokens_unique (db_tokens db)" "r \<in> set (db_tokens db)" "tr_single_use r \<noteq> 0"
  shows "admissions x (tr_token_hash r) db calls \<le> (if tr_used_at r = None then 1 else 0)"
  using admissions_single_use [OF assms(1) _ assms(3)] assms(1,2)
  by (auto simp: tokens_unique_def find_key_eq)

lemma generate_token_well_formed:
  assumes "hex_contract x" "length random = TOKEN_ENTROPY_BYTES"
  shows "is_well_formed (generate_token x random)"
proof -
  have h: "length (hex_encode x random) = 64" "list_all is_ascii_hexdigit (hex_encode x random)"
    using assms by (simp_all add: hex_contract_def TOKEN_ENTROPY_BYTES_def)
  have "hex_encode x random \<noteq> []" using h(1) by auto
  moreover have "list_all (\<lambda>c. is_ascii_alphanumeric c \<or> c = CHR ''_'') (hex_encode x random)"
    using h(2) by (rule list.pred_mono_strong)
      (auto simp: is_ascii_hexdigit_def is_ascii_alphanumeric_def is_ascii_lowercase_def is_ascii_uppercase_def)
  moreover have "strip_prefix TOKEN_PREFIX (generate_token x random) = Some (hex_encode x random)"
    by (simp add: generate_token_def strip_prefix_Some_iff)
  ultimately show ?thesis
    by (simp add: is_well_formed_def generate_token_def h(1) MAX_TOKEN_LEN_def TOKEN_PREFIX_def)
qed

lemma consume_row_iff:
  assumes "tokens_unique tbl" "r \<in> set tbl"
  shows "fst (consume x tbl (tr_id r) su now) \<longleftrightarrow> (su \<longrightarrow> tr_used_at r = None)"
proof -
  have f: "find (\<lambda>r'. tr_id r' = tr_id r) tbl = Some r"
    using assms by (simp add: tokens_unique_def find_key_eq)
  show ?thesis
  proof (cases su)
    case True
    then show ?thesis using consume_single_iff [OF assms(1)] f by (simp add: token_used_def)
  next
    case False
    then show ?thesis
      using assms rows_affected_key [of tr_id tbl "tr_id r"]
      by (simp add: consume_def Let_def tokens_unique_def)
  qed
qed

lemma json_wf_enrolled_event: "json_wf (nae_metadata (enrolled_event x m pk))"
  by (simp add: enrolled_event_def Let_def with_metadata_def) (rule json_wf_json_object, simp)

lemma append_audit_event_ok:
  assumes "json_contract x" "rfc3339_contract x" "log_intact x log" "json_wf (nae_metadata event)"
    "rfc3339_range now"
  obtains entry row where "append_audit_event x True now log event = (Inr entry, log @ [row])"
    "log_intact x (log @ [row])"
  unfolding append_audit_event_def by (rule append_entry_intact [OF assms]) blast

text \<open>The rows that minting writes.\<close>

lemma create_enrollment_token_ok:
  assumes "uuid \<notin> tr_id ` set (db_tokens db)"
    and "hash_token x (generate_token x random) \<notin> tr_token_hash ` set (db_tokens db)"
  shows "create_enrollment_token x True random uuid now db created_by ttl single_use =
    (Inr \<lparr> iet_plaintext = generate_token x random,
           iet_record = \<lparr> et_id = uuid, et_token_hash = hash_token x (generate_token x random),
             et_created_at = now, et_expires_at = now + ttl, et_used_at = None,
             et_created_by = created_by, et_single_use = single_use \<rparr> \<rparr>,
     db\<lparr> db_tokens := db_tokens db @
       [\<lparr> tr_id = uuid, tr_token_hash = hash_token x (generate_token x random),
          tr_created_at = to_text x now, tr_expires_at = to_text x (now + ttl), tr_used_at = None,
          tr_created_by = created_by, tr_single_use = (if single_use then 1 else 0) \<rparr>] \<rparr>)"
  using assms by (simp add: create_enrollment_token_def create_token_def Let_def)

lemma minted_token_outcome:
  assumes x: "json_contract x" "rfc3339_contract x" "hex_contract x"
    and db: "tokens_unique (db_tokens db)" "log_intact x (db_audit db)"
    and mint: "length random = TOKEN_ENTROPY_BYTES" "token_uuid \<notin> tr_id ` set (db_tokens db)"
      "hash_token x (generate_token x random) \<notin> tr_token_hash ` set (db_tokens db)"
      "create_enrollment_token x True random token_uuid now db created_by ttl single_use = (Inr issued, db1)"
    and t: "rfc3339_range now" "rfc3339_range (now + ttl)" "rfc3339_range audited_at"
    and rq: "rq_enrollment_token rq = iet_plaintext issued" "is_valid_hostname (rq_hostname rq)"
      "validate_ed25519_public_key x (rq_public_key rq) = Inr pk"
    and new: "rq_hostname rq \<notin> mr_hostname ` set (db_machines db)" "pk \<notin> mr_public_key ` set (db_machines db)"
      "generate_machine_id uuid \<notin> mr_machine_id ` set (db_machines db)"
    and io: "io = (\<lambda>_. True)"
  shows "fst (enroll x io svc uuid now' audited_at db1 rq) =
    (if now' < trunc_ms (now + ttl) then Inr (enroll_ok_response svc uuid) else Inl TokenExpired)"
proof -
  let ?h = "hash_token x (generate_token x random)"
  define r where "r = \<lparr> tr_id = token_uuid, tr_token_hash = ?h, tr_created_at = to_text x now,
    tr_expires_at = to_text x (now + ttl), tr_used_at = None, tr_created_by = created_by,
    tr_single_use = (if single_use then 1 else 0) \<rparr>"
  have db1: "db1 = db\<lparr> db_tokens := db_tokens db @ [r] \<rparr>" and tok: "iet_plaintext issued = generate_token x random"
    using mint(4) unfolding create_enrollment_token_ok [OF mint(2,3)] r_def by auto
  have fnd: "find (\<lambda>r. tr_token_hash r = ?h) (db_tokens db1) = Some r"
    using mint(3) by (auto simp: db1 find_append r_def find_key_None [symmetric])
  define token where "token = \<lparr> et_id = token_uuid, et_token_hash = ?h, et_created_at = trunc_ms now,
    et_expires_at = trunc_ms (now + ttl), et_used_at = None, et_created_by = created_by, et_single_use = single_use \<rparr>"
  have token: "token_of_row x r = Inr token"
    by (simp add: token_of_row_def r_def token_def parse_dt_to_text [OF x(2)] t)
  have wf: "is_well_formed (generate_token x random)" by (rule generate_token_well_formed [OF x(3) mint(1)])
  show ?thesis
  proof (cases "now' < trunc_ms (now + ttl)")
    case False
    then have "enroll_tx x io uuid now' db1 rq pk = Inl TokenExpired"
      using fnd token
      by (simp add: enroll_tx_def Let_def sql_def io rq(1) tok find_by_hash_def validate_token_state_def token_def)
    with False wf rq show ?thesis by (simp add: enroll_def tok)
  next
    case True
    have "tokens_unique (db_tokens db1)" using db(1) mint(2,3) by (auto simp: db1 r_def tokens_unique_def)
    then have "fst (spend x (db_tokens db1) r now')"
      using consume_row_iff [of "db_tokens db1" r] by (simp add: spend_def db1 r_def)
    then obtain m db2 where tx: "enroll_tx x io uuid now' db1 rq pk = Inr (m, db2)"
      using fnd token True new
      by (auto simp: enroll_tx_Inr_iff io rq(1) tok token_admits_def token_def db1 insert_machine_Inr_iff
        admitted_machine_def)
    obtain entry row where "append_audit_event x True audited_at (db_audit db2) (enrolled_event x m pk) = (Inr entry, db_audit db2 @ [row])"
      using append_audit_event_ok [OF x(1,2) _ json_wf_enrolled_event t(3)] enroll_tx_grows [OF tx] db(2) db1
      by (metis database.select_convs(3) database.surjective database.update_convs(2))
    with True wf rq tx enroll_tx_machine [OF tx] show ?thesis
      by (simp add: enroll_def tok io enroll_ok_response_def inserted_machine_def admitted_machine_def)
  qed
qed
text \<open>C15. A minted token is honoured until it expires and not after: with storage available and a
  valid, new host name and key, enrolling with the plaintext that \<^verbatim>\<open>create_enrollment_token\<close> returned
  succeeds at every instant before the stored (millisecond) expiry, and is refused as expired from
  that instant on.\<close>

theorem minted_token_enrolls:
  assumes x: "json_contract x" "rfc3339_contract x" "hex_contract x"
    and db: "tokens_unique (db_tokens db)" "log_intact x (db_audit db)"
    and mint: "length random = TOKEN_ENTROPY_BYTES" "token_uuid \<notin> tr_id ` set (db_tokens db)"
      "hash_token x (generate_token x random) \<notin> tr_token_hash ` set (db_tokens db)"
      "create_enrollment_token x True random token_uuid now db created_by ttl single_use = (Inr issued, db1)"
    and t: "rfc3339_range now" "rfc3339_range (now + ttl)" "rfc3339_range audited_at"
    and rq: "rq_enrollment_token rq = iet_plaintext issued" "is_valid_hostname (rq_hostname rq)"
      "validate_ed25519_public_key x (rq_public_key rq) = Inr pk"
    and new: "rq_hostname rq \<notin> mr_hostname ` set (db_machines db)" "pk \<notin> mr_public_key ` set (db_machines db)"
      "generate_machine_id uuid \<notin> mr_machine_id ` set (db_machines db)"
    and io: "io = (\<lambda>_. True)"
  shows "fst (enroll x io svc uuid now' audited_at db1 rq) =
    (if now' < trunc_ms (now + ttl) then Inr (enroll_ok_response svc uuid) else Inl TokenExpired)"
  using assms by (rule minted_token_outcome)

text \<open>The duplicate-key check compares key lines, comments included: two lines with the same
  Ed25519 key and different comments have different normalised forms, so enrolling with the one does
  not keep the other from being enrolled.\<close>

theorem key_comment_distinguishes:
  assumes "openssh_contract x" "from_openssh x s = Some k" "from_openssh x s' = Some k'"
    and "ssh_algorithm k = Ed25519" "ssh_algorithm k' = Ed25519"
    and "ssh_key_bytes k = ssh_key_bytes k'" "ssh_comment k \<noteq> ssh_comment k'"
  shows "\<exists>t t'. validate_ed25519_public_key x s = Inr t \<and> validate_ed25519_public_key x s' = Inr t' \<and> t \<noteq> t'"
proof -
  obtain t where "to_openssh x k = Some t" "from_openssh x t = Some k"
    using openssh_contractD [OF assms(1,2,4)] .
  moreover obtain t' where "to_openssh x k' = Some t'" "from_openssh x t' = Some k'"
    using openssh_contractD [OF assms(1,3,5)] .
  ultimately show ?thesis using assms by (auto simp: validate_ed25519_public_key_def)
qed

section \<open>Invariants kept by enrollment\<close>

definition database_inv :: "externals \<Rightarrow> database \<Rightarrow> bool" where
  "database_inv x db \<longleftrightarrow>
     machines_inv x (db_machines db) \<and> tokens_unique (db_tokens db) \<and> log_intact x (db_audit db)"

lemma create_enrollment_token_inv:
  assumes "database_inv x db"
    "create_enrollment_token x up random uuid now db created_by ttl single_use = (res, db')"
  shows "database_inv x db'"
  using assms
  by (auto simp: create_enrollment_token_def Let_def database_inv_def
      split: sum.splits if_splits dest: tokens_unique_create)

lemma enroll_inv:
  assumes x: "json_contract x" and inv: "database_inv x db" and t: "rfc3339_range now" "rfc3339_range audited_at"
    and e: "enroll x io svc uuid now audited_at db rq = (res, db')"
  shows "database_inv x db'"
  using e
proof (cases rule: enroll_cases)
  case (committed pk m db1 aud log)
  have x2: "rfc3339_contract x" using inv by (simp add: database_inv_def machines_inv_def)
  from committed(4) obtain r where
    tok: "db_tokens db1 = snd (spend x (db_tokens db) r now)"
    and ins: "insert_machine x (db_machines db) (admitted_machine uuid now rq pk) = Inr (m, db_machines db1)"
    by (auto simp: enroll_tx_Inr_iff)
  have "machines_inv x (db_machines db1)"
    using insert_machine_refines(1) [OF _ _ ins] inv t by (simp add: database_inv_def admitted_machine_def)
  moreover have "tokens_unique (db_tokens db1)"
    using inv by (simp add: tok spend_def tokens_unique_consume database_inv_def)
  moreover have "log_intact x log"
    using append_audit_event_intact [OF x x2 _ json_wf_enrolled_event t(2), of "db_audit db" "io IoAudit"]
      inv committed(5) enroll_tx_grows [OF committed(4)] by (metis database_inv_def snd_conv)
  ultimately show ?thesis using committed(6) by (simp add: database_inv_def)
qed (use inv in simp)

section \<open>Witnesses\<close>

definition empty_database :: database where
  "empty_database = \<lparr> db_machines = [], db_tokens = [], db_audit = [] \<rparr>"

definition demo_service :: enrollment_service where
  "demo_service = enrollment_service_sqlite ''ssh-ed25519 CA''"

definition demo_request :: "string \<Rightarrow> enroll_request" where
  "demo_request token = \<lparr> rq_enrollment_token = token, rq_hostname = ''web-01'', rq_os = ''linux'',
     rq_arch = ''x86_64'', rq_agent_version = ''0.1.0'', rq_public_key = ''ssh-ed25519 AAAA'' \<rparr>"

lemma demo_key: "validate_ed25519_public_key ref_externals ''ssh-ed25519 AAAA'' = Inr ''ssh-ed25519 AAAA''"
  by (simp add: validate_ed25519_public_key_def ref_externals_def ref_from_openssh_def ref_to_openssh_def)

lemma demo_hostname: "is_valid_hostname ''web-01''"
  by (simp add: is_valid_hostname_def is_valid_label_def MAX_HOSTNAME_LEN_def MAX_LABEL_LEN_def
      is_ascii_alphanumeric_def is_ascii_digit_def is_ascii_lowercase_def is_ascii_uppercase_def char_code_def)

lemma demo_times: "rfc3339_range 0" "rfc3339_range (0 + seconds 3600)" "0 < trunc_ms (seconds 3600)"
  by (simp_all add: rfc3339_range_def seconds_def nanos_per_sec_def trunc_ms_def nanos_per_milli_def)

lemma demo_minted:
  obtains issued db1 where
    "create_enrollment_token ref_externals True (replicate 32 0) ''t1'' 0 empty_database ''admin''
       (seconds 3600) True = (Inr issued, db1)"
    "database_inv ref_externals db1"
    "fst (enroll ref_externals (\<lambda>_. True) demo_service ''u1'' 0 0 db1 (demo_request (iet_plaintext issued)))
       = Inr (enroll_ok_response demo_service ''u1'')"
proof -
  let ?mint = "create_enrollment_token ref_externals True (replicate 32 0) ''t1'' 0 empty_database ''admin''
       (seconds 3600) True"
  obtain issued db1 where mint: "?mint = (Inr issued, db1)"
    using create_enrollment_token_ok [of "''t1''" empty_database] by (simp add: empty_database_def)
  have inv: "database_inv ref_externals empty_database"
    by (simp add: database_inv_def empty_database_def machines_inv_Nil ref_rfc3339_contract tokens_unique_def)
  show thesis
  proof (rule that [OF mint create_enrollment_token_inv [OF inv mint]])
    show "fst (enroll ref_externals (\<lambda>_. True) demo_service ''u1'' 0 0 db1 (demo_request (iet_plaintext issued)))
       = Inr (enroll_ok_response demo_service ''u1'')"
      by (subst minted_token_outcome [OF ref_json_contract ref_rfc3339_contract ref_hex_contract _ _ _ _ _ mint
            demo_times(1,2,1), where pk = "''ssh-ed25519 AAAA''"])
        (simp_all add: empty_database_def TOKEN_ENTROPY_BYTES_def demo_request_def demo_key demo_hostname
          tokens_unique_def demo_times(3))
  qed
qed

lemma enroll_Inr_grows:
  "enroll x io svc uuid now audited_at db rq = (Inr resp, db') \<Longrightarrow> length (db_machines db') = length (db_machines db) + 1"
  by (erule enroll_cases) (auto dest: enroll_tx_grows)

text \<open>An enrollment that succeeds would have stayed if only its audit entry had failed.\<close>

lemma enroll_unaudited:
  assumes "fst (enroll x (\<lambda>_. True) svc uuid now audited_at db rq) = Inr resp"
  obtains msg db' where "enroll x (\<lambda>s. s \<noteq> IoAudit) svc uuid now audited_at db rq = (Inl (EnrollInternal msg), db')"
    "length (db_machines db') = length (db_machines db) + 1"
proof -
  obtain db' where "enroll x (\<lambda>_. True) svc uuid now audited_at db rq = (Inr resp, db')" using assms by (metis prod.collapse)
  then show thesis
  proof (cases rule: enroll_cases)
    case (committed pk m db1 aud log)
    have tx: "enroll_tx x (\<lambda>s. s \<noteq> IoAudit) uuid now db rq pk = Inr (m, db1)"
      using committed(4) by (simp add: enroll_tx_def)
    obtain e log' where "append_audit_event x False audited_at (db_audit db1) (enrolled_event x m pk) = (Inl e, log')"
      unfolding append_audit_event_def
      by (cases "append_entry x False (db_audit db1) (enrolled_event x m pk) audited_at") (auto elim!: append_entry_cases)
    then show thesis
      using that committed(1-3) tx enroll_tx_grows [OF tx] by (simp add: enroll_def)
  qed simp
qed

theorem enroll_sound_witness:
  "\<exists>db rq. \<exists>resp db'. enroll ref_externals (\<lambda>_. True) demo_service ''u1'' 0 0 db rq = (Inr resp, db') \<and>
     length (db_machines db') = length (db_machines db) + 1 \<and> length (db_audit db') = length (db_audit db) + 1"
proof -
  obtain issued :: issued_enrollment_token and db1 :: database where
    "fst (enroll ref_externals (\<lambda>_. True) demo_service ''u1'' 0 0 db1 (demo_request (iet_plaintext issued)))
       = Inr (enroll_ok_response demo_service ''u1'')" by (rule demo_minted)
  then obtain db' where e: "enroll ref_externals (\<lambda>_. True) demo_service ''u1'' 0 0 db1
      (demo_request (iet_plaintext issued)) = (Inr (enroll_ok_response demo_service ''u1''), db')"
    by (metis prod.collapse)
  with enroll_sound [OF e] show ?thesis by fastforce
qed

text \<open>Both cases: a malformed token changes nothing, and an enrollment of which only the audit entry fails stays.\<close>

theorem enroll_failure_atomic_witness:
  "enroll ref_externals (\<lambda>_. True) demo_service ''u1'' 0 0 empty_database (demo_request ''secret'')
      = (Inl TokenInvalid, empty_database)
   \<and> (\<exists>db rq msg db'. enroll ref_externals (\<lambda>s. s \<noteq> IoAudit) demo_service ''u1'' 0 0 db rq = (Inl (EnrollInternal msg), db')
        \<and> length (db_machines db') = length (db_machines db) + 1 \<and> db_audit db' = db_audit db)"
proof
  obtain e db' where e: "enroll ref_externals (\<lambda>_. True) demo_service ''u1'' 0 0 empty_database
      (demo_request ''secret'') = (Inl e, db')" "e = TokenInvalid"
    by (simp add: enroll_def demo_request_def is_well_formed_def TOKEN_PREFIX_def)
  with enroll_failure_atomic [OF e(1)]
  show "enroll ref_externals (\<lambda>_. True) demo_service ''u1'' 0 0 empty_database (demo_request ''secret'')
      = (Inl TokenInvalid, empty_database)" by simp
next
  obtain issued :: issued_enrollment_token and db :: database where
    ok: "fst (enroll ref_externals (\<lambda>_. True) demo_service ''u1'' 0 0 db (demo_request (iet_plaintext issued)))
       = Inr (enroll_ok_response demo_service ''u1'')" by (rule demo_minted)
  let ?rq = "demo_request (iet_plaintext issued)"
  obtain msg db' where e: "enroll ref_externals (\<lambda>s. s \<noteq> IoAudit) demo_service ''u1'' 0 0 db ?rq = (Inl (EnrollInternal msg), db')"
    and grown: "length (db_machines db') = length (db_machines db) + 1"
    by (rule enroll_unaudited [OF ok])
  then have "db' \<noteq> db" by auto
  with enroll_failure_atomic [OF e] have "db_audit db' = db_audit db" by blast
  with e grown show "\<exists>db rq msg db'. enroll ref_externals (\<lambda>s. s \<noteq> IoAudit) demo_service ''u1'' 0 0 db rq
        = (Inl (EnrollInternal msg), db')
        \<and> length (db_machines db') = length (db_machines db) + 1 \<and> db_audit db' = db_audit db" by blast
qed

text \<open>A minted token presented twice, the second time for another host and with another key: exactly one admission.\<close>

theorem single_use_token_once_witness:
  "\<exists>db r token. r \<in> set (db_tokens db) \<and> tr_token_hash r = hash_token ref_externals token \<and>
     admissions ref_externals (tr_token_hash r) db
       [(\<lambda>_. True, demo_service, ''u1'', 0, 0, demo_request token),
        (\<lambda>_. True, demo_service, ''u2'', 1, 1,
           (demo_request token)\<lparr> rq_hostname := ''web-02'', rq_public_key := ''ssh-ed25519 BBBB'' \<rparr>)] = 1"
proof -
  obtain issued db where
    mint: "create_enrollment_token ref_externals True (replicate 32 0) ''t1'' 0 empty_database ''admin'' (seconds 3600) True
       = (Inr issued, db)"
    and inv: "database_inv ref_externals db"
    and ok: "fst (enroll ref_externals (\<lambda>_. True) demo_service ''u1'' 0 0 db (demo_request (iet_plaintext issued)))
       = Inr (enroll_ok_response demo_service ''u1'')" by (rule demo_minted)
  let ?rq = "demo_request (iet_plaintext issued)"
  obtain r where r: "r \<in> set (db_tokens db)" "tr_token_hash r = hash_token ref_externals (iet_plaintext issued)"
      "tr_single_use r \<noteq> 0" "tr_used_at r = None"
    using mint create_enrollment_token_ok [of "''t1''" empty_database ref_externals "replicate 32 0" 0 "''admin''" "seconds 3600" True]
    by (auto simp: empty_database_def)
  obtain db1 where e: "enroll ref_externals (\<lambda>_. True) demo_service ''u1'' 0 0 db ?rq = (Inr (enroll_ok_response demo_service ''u1''), db1)"
    using ok by (metis prod.collapse)
  have token: "rq_enrollment_token ?rq = iet_plaintext issued" by (simp add: demo_request_def)
  have "1 \<le> admissions ref_externals (tr_token_hash r) db (((\<lambda>_. True), demo_service, ''u1'', 0, 0, ?rq) # calls)" for calls
    using enroll_Inr_grows [OF e] by (simp add: e r(2) token)
  moreover have "admissions ref_externals (tr_token_hash r) db calls \<le> 1" for calls
    using single_use_token_once [of db r ref_externals calls] inv r by (simp add: database_inv_def)
  ultimately have "admissions ref_externals (tr_token_hash r) db (((\<lambda>_. True), demo_service, ''u1'', 0, 0, ?rq) # calls) = 1" for calls
    by (meson order_antisym)
  with r(1,2) show ?thesis by blast
qed

theorem minted_token_enrolls_witness:
  "\<exists>issued db1. create_enrollment_token ref_externals True (replicate 32 0) ''t1'' 0 empty_database ''admin''
       (seconds 3600) True = (Inr issued, db1) \<and>
     fst (enroll ref_externals (\<lambda>_. True) demo_service ''u1'' (seconds 3600) (seconds 3600) db1 (demo_request (iet_plaintext issued)))
       = Inl TokenExpired"
proof -
  obtain issued db1 where mint: "create_enrollment_token ref_externals True (replicate 32 0) ''t1'' 0
      empty_database ''admin'' (seconds 3600) True = (Inr issued, db1)" by (rule demo_minted)
  have "fst (enroll ref_externals (\<lambda>_. True) demo_service ''u1'' (seconds 3600) (seconds 3600) db1 (demo_request (iet_plaintext issued)))
       = Inl TokenExpired"
    using demo_times(2) trunc_ms_le [of "seconds 3600"]
    by (subst minted_token_enrolls [OF ref_json_contract ref_rfc3339_contract ref_hex_contract _ _ _ _ _ mint
          demo_times(1,2), where pk = "''ssh-ed25519 AAAA''"])
      (simp_all add: empty_database_def TOKEN_ENTROPY_BYTES_def demo_request_def demo_key demo_hostname
        tokens_unique_def)
  with mint show ?thesis by blast
qed

theorem key_comment_distinguishes_witness:
  "\<exists>t t'. validate_ed25519_public_key ref_externals ''ssh-ed25519 AAAA'' = Inr t \<and>
     validate_ed25519_public_key ref_externals ''ssh-ed25519 AAAA laptop'' = Inr t' \<and> t \<noteq> t'"
  by (rule key_comment_distinguishes [OF ref_openssh_contract,
        of _ "\<lparr> ssh_algorithm = Ed25519, ssh_key_bytes = as_bytes ''AAAA'', ssh_comment = [] \<rparr>"
           _ "\<lparr> ssh_algorithm = Ed25519, ssh_key_bytes = as_bytes ''AAAA'', ssh_comment = ''laptop'' \<rparr>"])
    (simp_all add: ref_externals_def ref_from_openssh_def)

end
