(* ===== verification/AgentAuth.thy ===== *)
theory AgentAuth
  imports Enrollment
begin

text \<open>
  Authentication of agent requests (\<^verbatim>\<open>src/agentauth/{nonce,signing,middleware}.rs\<close>): the nonce
  cache, the canonical string and its signature check, and the middleware that
  composes them with the machine lookup and the lifecycle gate.  Timestamps are
  compared with wrapping 64-bit arithmetic, as the release build does.

  Shown here: exactly which requests the middleware lets through; that signatures
  bind every field of the canonical string; that a request can be accepted a second
  time only in the last second of its timestamp window, and that it then is; that
  a machine which is not Active is rejected.
\<close>

section \<open>Nonce cache\<close>

definition NONCE_TTL_SECS :: int where "NONCE_TTL_SECS = 120"

type_synonym nonce_cache = "((string \<times> string) \<times> instant) list"

definition check_and_record :: "nonce_cache \<Rightarrow> string \<Rightarrow> string \<Rightarrow> instant \<Rightarrow> bool \<times> nonce_cache" where
  "check_and_record entries machine_id nonce now =
     (let expiry = now + seconds NONCE_TTL_SECS;
          live = filter (\<lambda>(_, exp). exp > now) entries;
          key = (machine_id, nonce) in
      case map_of live key of
        Some _ \<Rightarrow> (False, live)
      | None \<Rightarrow> (True, (key, expiry) # live))"

section \<open>Signing\<close>

definition SIGNING_DOMAIN :: string where "SIGNING_DOMAIN = ''mayfly-agent-auth-v1''"
definition HEADER_MACHINE_ID :: string where "HEADER_MACHINE_ID = ''x-mayfly-machine-id''"
definition HEADER_TIMESTAMP :: string where "HEADER_TIMESTAMP = ''x-mayfly-timestamp''"
definition HEADER_NONCE :: string where "HEADER_NONCE = ''x-mayfly-nonce''"
definition HEADER_SIGNATURE :: string where "HEADER_SIGNATURE = ''x-mayfly-signature''"

abbreviation newline :: char where "newline \<equiv> CHR 0x0A"

definition body_sha256_hex :: "externals \<Rightarrow> byte list \<Rightarrow> string" where
  "body_sha256_hex x body = sha256_hex x body"

definition canonical_string :: "string \<Rightarrow> int \<Rightarrow> string \<Rightarrow> string \<Rightarrow> string \<Rightarrow> string \<Rightarrow> string" where
  "canonical_string machine_id ts nonce mthd path body_hash_hex =
     SIGNING_DOMAIN @ [newline] @ machine_id @ [newline] @ show_int ts @ [newline] @ nonce
     @ [newline] @ mthd @ [newline] @ path @ [newline] @ body_hash_hex"

datatype signature_error = MalformedPublicKey | SigNotEd25519 | MalformedSignature | InvalidSignature

definition verifying_key :: "externals \<Rightarrow> string \<Rightarrow> (signature_error, byte list) result" where
  "verifying_key x public_key_openssh =
     rbind (ok_or MalformedPublicKey (from_openssh x public_key_openssh)) (\<lambda>key.
     rbind (ensure (ssh_algorithm key = Ed25519) SigNotEd25519) (\<lambda>_.
     rbind (ensure (ed25519_key_ok x (ssh_key_bytes key)) MalformedPublicKey) (\<lambda>_.
     Inr (ssh_key_bytes key))))"

definition verify_signature :: "externals \<Rightarrow> string \<Rightarrow> string \<Rightarrow> string \<Rightarrow> (signature_error, unit) result" where
  "verify_signature x public_key_openssh canonical signature_b64 =
     rbind (verifying_key x public_key_openssh) (\<lambda>key.
     rbind (ok_or MalformedSignature (base64_decode x signature_b64)) (\<lambda>raw.
     rbind (ensure (length raw = 64) MalformedSignature) (\<lambda>_.
     ensure (ed25519_verify x key (as_bytes canonical) raw) InvalidSignature)))"

definition sign_canonical :: "externals \<Rightarrow> byte list \<Rightarrow> string \<Rightarrow> string" where
  "sign_canonical x seed canonical = base64_encode x (ed25519_sign x seed (as_bytes canonical))"

section \<open>Middleware\<close>

definition MAX_SIGNED_BODY_BYTES :: nat where "MAX_SIGNED_BODY_BYTES = 64 * 1024"
definition TIMESTAMP_SKEW_SECS :: int where "TIMESTAMP_SKEW_SECS = 60"

text \<open>The body is \<open>None\<close> when the stream cannot be read.\<close>

record signed_request =
  sr_headers :: "(string \<times> string) list"
  sr_method :: string
  sr_path :: string
  sr_body :: "byte list option"

definition reject :: api_error where
  "reject = Unauthorized ''request authentication failed''"

definition signing_header :: "signed_request \<Rightarrow> string \<Rightarrow> (api_error, string) result" where
  "signing_header req name =
     (case map_of (sr_headers req) name of
        Some v \<Rightarrow>
          if list_all is_visible_ascii v \<and> v \<noteq> [] then Inr v
          else Inl (Unauthorized ''missing or malformed signing headers'')
      | None \<Rightarrow> Inl (Unauthorized ''missing or malformed signing headers''))"

text \<open>\<^verbatim>\<open>(now.timestamp() - timestamp).abs() > TIMESTAMP_SKEW_SECS\<close> on \<^verbatim>\<open>i64\<close>, wrapping.\<close>

definition i64_abs :: "i64 \<Rightarrow> i64" where
  "i64_abs w = (if sint w < 0 then - w else w)"

definition skew_exceeded :: "instant \<Rightarrow> int \<Rightarrow> bool" where
  "skew_exceeded now ts =
     (sint (i64_abs (word_of_int (timestamp now) - word_of_int ts)) > TIMESTAMP_SKEW_SECS)"

text \<open>Everything before the nonce: headers, time window, body, machine, signature, lifecycle.\<close>

definition signature_checks ::
  "externals \<Rightarrow> bool \<Rightarrow> machine_table \<Rightarrow> instant \<Rightarrow> signed_request
     \<Rightarrow> (api_error, string \<times> string \<times> machine) result"
where
  "signature_checks x up machines now req =
     rbind (signing_header req HEADER_MACHINE_ID) (\<lambda>machine_id.
     rbind (signing_header req HEADER_TIMESTAMP) (\<lambda>timestamp_raw.
     rbind (signing_header req HEADER_NONCE) (\<lambda>nonce.
     rbind (signing_header req HEADER_SIGNATURE) (\<lambda>signature.
     rbind (ok_or reject (parse_i64 timestamp_raw)) (\<lambda>ts.
     rbind (ensure (\<not> skew_exceeded now ts) reject) (\<lambda>_.
     rbind (ok_or reject (sr_body req)) (\<lambda>body.
     rbind (ensure (length body \<le> MAX_SIGNED_BODY_BYTES) reject) (\<lambda>_.
     let body_hash = body_sha256_hex x body in
     rbind (ensure up (Internal (sqlx_display SqlIo))) (\<lambda>_.
     rbind (map_err (\<lambda>e. Internal (sqlx_display e)) (find_by_id x machines machine_id)) (\<lambda>found.
     rbind (ok_or reject found) (\<lambda>machine.
     let canonical = canonical_string machine_id ts nonce (sr_method req) (sr_path req) body_hash in
     rbind (map_err (\<lambda>_. reject) (verify_signature x (m_public_key machine) canonical signature)) (\<lambda>_.
     rbind (ensure (m_status machine = Active) reject) (\<lambda>_.
     Inr (machine_id, nonce, machine))))))))))))))"

definition verify_machine_signature ::
  "externals \<Rightarrow> bool \<Rightarrow> machine_table \<Rightarrow> instant \<Rightarrow> nonce_cache \<Rightarrow> signed_request
     \<Rightarrow> (api_error, machine) result \<times> nonce_cache"
where
  "verify_machine_signature x up machines now cache req =
     (case signature_checks x up machines now req of
        Inl e \<Rightarrow> (Inl e, cache)
      | Inr (machine_id, nonce, machine) \<Rightarrow>
          let (fresh, cache') = check_and_record cache machine_id nonce now in
          if fresh then (Inr machine, cache') else (Inl reject, cache'))"

section \<open>The contract of a nonce cache\<close>

text \<open>
  What the middleware relies on: a nonce is accepted exactly when it is not blocked,
  an accepted one is blocked for the time to live, and no later call unblocks it early.
\<close>

locale replay_guard =
  fixes rec :: "'c \<Rightarrow> string \<Rightarrow> string \<Rightarrow> instant \<Rightarrow> bool \<times> 'c"
    and blocked :: "'c \<Rightarrow> string \<times> string \<Rightarrow> instant \<Rightarrow> bool"
    and ttl :: int
  assumes rec_fresh: "fst (rec c m n now) \<longleftrightarrow> \<not> blocked c (m, n) now"
    and rec_blocks: "fst (rec c m n now) \<Longrightarrow> t < now + ttl \<Longrightarrow> blocked (snd (rec c m n now)) (m, n) t"
    and rec_keeps: "blocked c k t \<Longrightarrow> now \<le> t \<Longrightarrow> blocked (snd (rec c m n now)) k t"
begin

lemma later_calls_keep:
  assumes "blocked c k t" "\<forall>(m, n, now) \<in> set calls. now \<le> t"
  shows "blocked (foldl (\<lambda>c (m, n, now). snd (rec c m n now)) c calls) k t"
  using assms by (induction calls arbitrary: c) (auto simp: rec_keeps)

lemma no_replay_within_ttl:
  assumes "fst (rec c m n now)" "\<forall>(m, n, now) \<in> set calls. now \<le> t" "t < now + ttl"
  shows "\<not> fst (rec (foldl (\<lambda>c (m, n, now). snd (rec c m n now)) (snd (rec c m n now)) calls) m n t)"
  using later_calls_keep [OF rec_blocks [OF assms(1,3)] assms(2)] by (simp add: rec_fresh)

end

definition nonce_blocked :: "nonce_cache \<Rightarrow> string \<times> string \<Rightarrow> instant \<Rightarrow> bool" where
  "nonce_blocked entries key t \<longleftrightarrow> list_ex (\<lambda>(k, exp). k = key \<and> exp > t) entries"

lemma nonce_blocked_iff: "nonce_blocked entries key t \<longleftrightarrow> (\<exists>e. (key, e) \<in> set entries \<and> t < e)"
  by (auto simp: nonce_blocked_def list_ex_iff)

lemma map_of_live_None_iff:
  "map_of (filter (\<lambda>(_, exp). exp > now) entries) key = None \<longleftrightarrow> \<not> nonce_blocked entries key now"
  by (cases key) (auto simp: map_of_eq_None_iff nonce_blocked_iff image_iff)

lemma check_and_record_cases:
  "check_and_record c m n now =
     (if nonce_blocked c (m, n) now then (False, filter (\<lambda>(_, exp). exp > now) c)
      else (True, ((m, n), now + seconds NONCE_TTL_SECS) # filter (\<lambda>(_, exp). exp > now) c))"
  using map_of_live_None_iff [of now c "(m, n)"]
  by (auto simp: check_and_record_def Let_def split: option.splits)

interpretation in_memory_nonces: replay_guard check_and_record nonce_blocked "seconds NONCE_TTL_SECS"
proof
  show "fst (check_and_record c m n now) \<longleftrightarrow> \<not> nonce_blocked c (m, n) now" for c m n now
    by (simp add: check_and_record_cases)
  show "nonce_blocked (snd (check_and_record c m n now)) (m, n) t"
    if "fst (check_and_record c m n now)" "t < now + seconds NONCE_TTL_SECS" for c m n now t
    using that by (auto simp: check_and_record_cases nonce_blocked_iff split: if_splits)
  show "nonce_blocked (snd (check_and_record c m n now)) k t" if "nonce_blocked c k t" "now \<le> t" for c k t now m n
    using that by (auto simp: check_and_record_cases nonce_blocked_iff)
qed

text \<open>After every call the cache holds only entries that have not expired, one per nonce.\<close>

lemma check_and_record_live:
  assumes "check_and_record c m n now = (fresh, c')"
  shows "\<forall>(k, exp) \<in> set c'. now < exp"
    and "distinct (map fst c) \<Longrightarrow> distinct (map fst c')"
proof -
  show "\<forall>(k, exp) \<in> set c'. now < exp"
    using assms by (auto simp: check_and_record_cases NONCE_TTL_SECS_def seconds_def nanos_per_sec_def split: if_splits)
  assume "distinct (map fst c)"
  moreover have "(m, n) \<notin> fst ` set (filter (\<lambda>(_, exp). exp > now) c)" if "\<not> nonce_blocked c (m, n) now"
    using that by (auto simp: nonce_blocked_iff)
  ultimately show "distinct (map fst c')"
    using assms by (auto simp: check_and_record_cases distinct_map_filter split: if_splits)
qed

section \<open>The timestamp window\<close>

lemma sint_word_of_int_i64: "- (2 ^ 63) \<le> i \<Longrightarrow> i < 2 ^ 63 \<Longrightarrow> sint (word_of_int i :: i64) = i"
  by (simp add: int_word_sint)

lemma sint_word_of_int_i64_wrap:
  "2 ^ 63 \<le> i \<Longrightarrow> i < 2 ^ 64 \<Longrightarrow> sint (word_of_int i :: i64) = i - 2 ^ 64"
proof -
  assume i: "2 ^ 63 \<le> i" "i < 2 ^ 64"
  define e where "e = i - 2 ^ 63"
  have e: "0 \<le> e" "e < 2 ^ 64" "i + 2 ^ 63 = e + 2 ^ 64" using i by (simp_all add: e_def)
  have "(e + 2 ^ 64) mod 2 ^ 64 = e mod (2 ^ 64)" by (rule mod_add_self2)
  also have "\<dots> = e" using e(1,2) by (rule mod_pos_pos_trivial)
  finally have "(i + 2 ^ 63) mod 2 ^ 64 = e" by (simp only: e(3))
  then show ?thesis by (simp add: int_word_sint e_def)
qed

lemma sint_i64_abs: "sint (i64_abs w) = (if sint w = - (2 ^ 63) then - (2 ^ 63) else \<bar>sint w\<bar>)"
proof -
  have r: "- (2 ^ 63) \<le> sint w" "sint w < 2 ^ 63"
    using sint_greater_eq [of w] sint_less [of w] by simp_all
  have "- w = word_of_int (- sint w)" by simp
  then have "sint (- w) = sint (word_of_int (- sint w) :: i64)" by simp
  then show ?thesis
    using r sint_word_of_int_i64 [of "- sint w"] sint_word_of_int_i64_wrap [of "- sint w"]
    by (auto simp: i64_abs_def)
qed

text \<open>
  For a clock reading that fits 62 bits the check is the mathematical one, except
  that a difference of exactly \<open>2 ^ 63\<close> wraps to a negative number and passes.
\<close>

lemma skew_exceeded_iff:
  assumes "in_i64 ts" "0 \<le> timestamp now" "timestamp now < 2 ^ 62"
  shows "skew_exceeded now ts \<longleftrightarrow> \<bar>timestamp now - ts\<bar> > 60 \<and> timestamp now - ts \<noteq> 2 ^ 63"
proof -
  let ?d = "timestamp now - ts"
  have d: "- (2 ^ 63) < ?d" "?d < 2 ^ 63 + 2 ^ 62" using assms by (auto simp: in_i64_def)
  have w: "(word_of_int (timestamp now) - word_of_int ts :: i64) = word_of_int ?d" by simp
  show ?thesis
  proof (cases "?d < 2 ^ 63")
    case True
    then have "sint (word_of_int ?d :: i64) = ?d" using d by (intro sint_word_of_int_i64) auto
    from this [folded w] d True show ?thesis
      by (auto simp: skew_exceeded_def sint_i64_abs TIMESTAMP_SKEW_SECS_def)
  next
    case False
    then have "sint (word_of_int ?d :: i64) = ?d - 2 ^ 64" using d by (intro sint_word_of_int_i64_wrap) auto
    from this [folded w] d False show ?thesis
      by (auto simp: skew_exceeded_def sint_i64_abs TIMESTAMP_SKEW_SECS_def)
  qed
qed

section \<open>What the middleware accepts\<close>

text \<open>A header value as the middleware reads it.\<close>

definition header_is :: "signed_request \<Rightarrow> string \<Rightarrow> string \<Rightarrow> bool" where
  "header_is req name v \<longleftrightarrow> map_of (sr_headers req) name = Some v \<and> list_all is_visible_ascii v \<and> v \<noteq> []"

text \<open>
  A request that machine \<open>m\<close> with identifier \<open>mid\<close> signed with timestamp \<open>ts\<close> and nonce
  \<open>nonce\<close>, inside the time window and while Active.
\<close>

definition authentic ::
  "externals \<Rightarrow> machine_table \<Rightarrow> instant \<Rightarrow> signed_request \<Rightarrow> string \<Rightarrow> int \<Rightarrow> string \<Rightarrow> machine \<Rightarrow> bool"
where
  "authentic x machines now req mid ts nonce m \<longleftrightarrow>
     header_is req HEADER_MACHINE_ID mid \<and> header_is req HEADER_NONCE nonce
   \<and> (\<exists>raw. header_is req HEADER_TIMESTAMP raw \<and> parse_i64 raw = Some ts)
   \<and> \<not> skew_exceeded now ts
   \<and> find_by_id x machines mid = Inr (Some m) \<and> m_status m = Active
   \<and> (\<exists>body sig. sr_body req = Some body \<and> length body \<le> MAX_SIGNED_BODY_BYTES
        \<and> header_is req HEADER_SIGNATURE sig
        \<and> verify_signature x (m_public_key m)
            (canonical_string mid ts nonce (sr_method req) (sr_path req) (body_sha256_hex x body)) sig = Inr ())"

lemma signing_header_Inr_iff [result_simps]: "signing_header req name = Inr v \<longleftrightarrow> header_is req name v"
  by (auto simp: signing_header_def header_is_def split: option.splits)

lemma header_is_unique: "header_is req name v \<Longrightarrow> header_is req name w \<Longrightarrow> v = w"
  by (simp add: header_is_def)

lemma find_by_id_status:
  "find_by_id x machines mid = Inr (Some m) \<Longrightarrow>
     \<exists>r \<in> set machines. mr_machine_id r = mid \<and> m_machine_id m = mid \<and> mr_status r = status_as_str (m_status m)"
  by (auto simp: find_by_id_def find_machine_def result_simps dest!: find_key_Some dest: machine_of_row_keys)

lemma signature_checks_Inr_iff:
  "signature_checks x up machines now req = Inr (mid, nonce, m) \<longleftrightarrow>
     up \<and> (\<exists>ts. authentic x machines now req mid ts nonce m)"
  unfolding signature_checks_def Let_def authentic_def by (simp add: result_simps) blast

lemma verify_accepts_iff:
  "verify_machine_signature x up machines now c req = (Inr m, c') \<longleftrightarrow>
     up \<and> (\<exists>mid ts nonce. authentic x machines now req mid ts nonce m
        \<and> check_and_record c mid nonce now = (True, c'))"
proof (cases "signature_checks x up machines now req")
  case (Inl e)
  then have "\<not> (up \<and> (\<exists>ts. authentic x machines now req mid ts nonce m))" for mid nonce
    using signature_checks_Inr_iff [of x up machines now req mid nonce m] by simp
  with Inl show ?thesis by (auto simp: verify_machine_signature_def)
next
  case (Inr r)
  obtain mid nonce m' where r: "r = (mid, nonce, m')" by (cases r)
  have one: "(up \<and> (\<exists>ts. authentic x machines now req mid' ts nonce' m)) =
      (mid' = mid \<and> nonce' = nonce \<and> m = m')" for mid' nonce'
    using signature_checks_Inr_iff [of x up machines now req mid' nonce' m] Inr r by auto
  have "(up \<and> (\<exists>mid ts nonce. authentic x machines now req mid ts nonce m
        \<and> check_and_record c mid nonce now = (True, c'))) =
      (\<exists>mid' nonce'. (up \<and> (\<exists>ts. authentic x machines now req mid' ts nonce' m))
        \<and> check_and_record c mid' nonce' now = (True, c'))" by blast
  also have "\<dots> = (m = m' \<and> check_and_record c mid nonce now = (True, c'))"
    unfolding one by blast
  finally show ?thesis using Inr r
    by (cases "check_and_record c mid nonce now") (auto simp: verify_machine_signature_def)
qed

lemma authentic_determines:
  "authentic x machines now req mid ts nonce m \<Longrightarrow> authentic x machines' now' req mid' ts' nonce' m' \<Longrightarrow>
     mid' = mid \<and> ts' = ts \<and> nonce' = nonce"
  unfolding authentic_def by (metis header_is_unique option.inject)

text \<open>The cache after a request is the cache before, or what one nonce check makes of it.\<close>

lemma verify_cache:
  assumes "nonce_blocked c k t" "now \<le> t"
  shows "nonce_blocked (snd (verify_machine_signature x up machines now c req)) k t"
  using in_memory_nonces.rec_keeps [OF assms] assms
  by (auto simp: verify_machine_signature_def Let_def split: sum.splits prod.splits) (metis snd_conv)+

type_synonym agent_call = "bool \<times> machine_table \<times> instant \<times> signed_request"

definition serve :: "externals \<Rightarrow> nonce_cache \<Rightarrow> agent_call list \<Rightarrow> nonce_cache" where
  "serve x c calls =
     foldl (\<lambda>c (up, machines, now, req). snd (verify_machine_signature x up machines now c req)) c calls"

lemma serve_keeps_blocked:
  assumes "nonce_blocked c k t" "\<forall>(up, machines, now, req) \<in> set calls. now \<le> t"
  shows "nonce_blocked (serve x c calls) k t"
  using assms by (induction calls arbitrary: c) (auto simp: serve_def verify_cache)

lemma accepted_twice_apart:
  assumes first: "verify_machine_signature x up machines now c req = (Inr m, c1)"
    and between: "\<forall>(up, machines, now, req) \<in> set calls. now \<le> now'"
    and second: "verify_machine_signature x up' machines' now' (serve x c1 calls) req = (Inr m', c2)"
  shows "now + seconds NONCE_TTL_SECS \<le> now'"
proof (rule ccontr)
  assume less: "\<not> now + seconds NONCE_TTL_SECS \<le> now'"
  from first obtain mid ts nonce where a: "authentic x machines now req mid ts nonce m"
    "check_and_record c mid nonce now = (True, c1)" by (auto simp: verify_accepts_iff)
  then have "nonce_blocked c1 (mid, nonce) now'"
    using in_memory_nonces.rec_blocks [of c mid nonce now now'] less by simp
  then have "nonce_blocked (serve x c1 calls) (mid, nonce) now'"
    using between by (rule serve_keeps_blocked)
  moreover from second obtain mid' ts' nonce' where
    "authentic x machines' now' req mid' ts' nonce' m'"
    "check_and_record (serve x c1 calls) mid' nonce' now' = (True, c2)" by (auto simp: verify_accepts_iff)
  ultimately show False
    using authentic_determines [OF a(1)] in_memory_nonces.rec_fresh [of "serve x c1 calls" mid nonce now']
    by fastforce
qed

lemma timestamp_add_seconds: "timestamp (now + seconds n) = timestamp now + n"
  by (simp add: timestamp_def seconds_def nanos_per_sec_def)

lemma timestamp_mono: "a \<le> b \<Longrightarrow> timestamp a \<le> timestamp b"
  by (simp add: timestamp_def nanos_per_sec_def zdiv_mono1)

section \<open>Properties\<close>

text \<open>C4. The middleware lets a request through exactly when it is authentic: all four signing
  headers are present, visible ASCII and non-empty, the timestamp parses and is inside the window,
  the body fits, the named machine is stored and Active, the signature over the canonical string of
  exactly these fields verifies under that machine's stored key, and its nonce is not blocked.  The
  nonce is recorded only in that case.\<close>

theorem middleware_exact:
  "verify_machine_signature x up machines now c req = (Inr m, c') \<longleftrightarrow>
     up \<and> (\<exists>mid ts nonce. authentic x machines now req mid ts nonce m \<and> \<not> nonce_blocked c (mid, nonce) now
        \<and> c' = ((mid, nonce), now + seconds NONCE_TTL_SECS) # filter (\<lambda>(_, exp). exp > now) c)"
  by (auto simp: verify_accepts_iff check_and_record_cases)

text \<open>C11. Replays are confined to one second: if the same signed request is accepted twice, whatever
  requests are served in between and however the tables change, then the first acceptance was in
  the very first second of its timestamp window (60 s before its timestamp) and the second in the
  very last (60 s after).\<close>

theorem replay_only_at_boundary:
  assumes first: "verify_machine_signature x up machines now c req = (Inr m, c1)"
    and between: "\<forall>(up, machines, now, req) \<in> set calls. now \<le> now'"
    and second: "verify_machine_signature x up' machines' now' (serve x c1 calls) req = (Inr m', c2)"
    and clock: "0 \<le> timestamp now" "timestamp now' < 2 ^ 62"
  shows "\<exists>mid ts nonce. authentic x machines now req mid ts nonce m
     \<and> timestamp now = ts - 60 \<and> timestamp now' = ts + 60"
proof -
  have apart: "now + seconds NONCE_TTL_SECS \<le> now'" by (rule accepted_twice_apart [OF first between second])
  then have t: "timestamp now + 120 \<le> timestamp now'"
    using timestamp_mono [OF apart] by (simp add: timestamp_add_seconds NONCE_TTL_SECS_def)
  from first obtain mid ts nonce where a: "authentic x machines now req mid ts nonce m"
    by (auto simp: verify_accepts_iff)
  from second obtain mid' ts' nonce' where "authentic x machines' now' req mid' ts' nonce' m'"
    by (auto simp: verify_accepts_iff)
  then have a': "authentic x machines' now' req mid ts nonce m'"
    using authentic_determines [OF a] by blast
  have "in_i64 ts" using a parse_i64_range by (auto simp: authentic_def)
  then have "\<bar>timestamp now - ts\<bar> \<le> 60 \<or> timestamp now - ts = 2 ^ 63"
    "\<bar>timestamp now' - ts\<bar> \<le> 60 \<or> timestamp now' - ts = 2 ^ 63"
    using a a' skew_exceeded_iff [of ts now] skew_exceeded_iff [of ts now'] clock t
    by (auto simp: authentic_def)
  then have "timestamp now = ts - 60 \<and> timestamp now' = ts + 60" using t clock by auto
  with a show ?thesis by blast
qed

text \<open>C12. The replay at the boundary is real: a request accepted at a whole second exactly 60 s before
  its timestamp is accepted again, unchanged, 120 s later, because its cache entry has just expired
  while its timestamp is still inside the window.\<close>

theorem replay_at_boundary:
  assumes first: "verify_machine_signature x True machines now c req = (Inr m, c1)"
    and ts: "header_is req HEADER_TIMESTAMP raw" "parse_i64 raw = Some ts" "timestamp now = ts - 60"
    and clock: "0 \<le> timestamp now" "timestamp now + 120 < 2 ^ 62"
  shows "\<exists>c2. verify_machine_signature x True machines (now + seconds NONCE_TTL_SECS) c1 req = (Inr m, c2)"
proof -
  let ?now' = "now + seconds NONCE_TTL_SECS"
  from first obtain mid ts' nonce where a: "authentic x machines now req mid ts' nonce m"
    and c1: "c1 = ((mid, nonce), ?now') # filter (\<lambda>(_, exp). exp > now) c" and nb: "\<not> nonce_blocked c (mid, nonce) now"
    by (auto simp: verify_accepts_iff check_and_record_cases split: if_splits)
  have "ts' = ts" using a ts(1,2) header_is_unique unfolding authentic_def by (metis option.inject)
  moreover have "\<not> skew_exceeded ?now' ts"
    using skew_exceeded_iff [of ts ?now'] parse_i64_range [OF ts(2)] clock ts(3)
    by (simp add: timestamp_add_seconds NONCE_TTL_SECS_def)
  ultimately have "authentic x machines ?now' req mid ts nonce m"
    using a by (auto simp: authentic_def)
  moreover have "\<not> nonce_blocked c1 (mid, nonce) ?now'"
    using nb by (auto simp: c1 nonce_blocked_iff NONCE_TTL_SECS_def seconds_def nanos_per_sec_def)
  ultimately show ?thesis
    by (auto simp: verify_accepts_iff check_and_record_cases)
qed

text \<open>The window check wraps: the timestamp \<open>2 ^ 63\<close> seconds before the clock is not rejected as
  outside the 60 s window, although every other timestamp further away than 60 s is.\<close>

theorem skew_check_wraps:
  assumes "0 \<le> timestamp now" "timestamp now < 2 ^ 62"
  shows "\<not> skew_exceeded now (timestamp now - 2 ^ 63) \<and>
    (\<forall>ts. in_i64 ts \<longrightarrow> \<bar>timestamp now - ts\<bar> > 60 \<longrightarrow> ts \<noteq> timestamp now - 2 ^ 63 \<longrightarrow> skew_exceeded now ts)"
  using skew_exceeded_iff [of _ now] assms by (auto simp: in_i64_def)

lemma canonical_string_join:
  "canonical_string mid ts nonce mthd path h =
     join [newline] [SIGNING_DOMAIN, mid, show_int ts, nonce, mthd, path, h]"
  by (simp add: canonical_string_def)

lemma show_int_no_newline: "newline \<notin> set (show_int ts)"
  by (auto dest!: show_int_chars simp: is_ascii_digit_def char_code_def)

lemma SIGNING_DOMAIN_no_newline: "newline \<notin> set SIGNING_DOMAIN"
  by (simp add: SIGNING_DOMAIN_def)

lemma visible_no_newline: "list_all is_visible_ascii s \<Longrightarrow> newline \<notin> set s"
  by (auto simp: list_all_iff is_visible_ascii_def char_code_def)

text \<open>C13. A signature binds every field: on field values without line breaks (header values that the
  middleware accepts have none) two requests with the same canonical string have the same machine,
  timestamp, nonce, method, path and body hash.\<close>

theorem canonical_string_binds:
  assumes "canonical_string mid ts nonce mthd path h = canonical_string mid' ts' nonce' mthd' path' h'"
    and "\<forall>s \<in> {mid, nonce, mthd, path, h, mid', nonce', mthd', path', h'}. newline \<notin> set s"
  shows "mid = mid' \<and> ts = ts' \<and> nonce = nonce' \<and> mthd = mthd' \<and> path = path' \<and> h = h'"
proof -
  have "[SIGNING_DOMAIN, mid, show_int ts, nonce, mthd, path, h] =
        [SIGNING_DOMAIN, mid', show_int ts', nonce', mthd', path', h']"
    using assms by (intro join_inject [of newline])
      (auto simp: canonical_string_join show_int_no_newline SIGNING_DOMAIN_no_newline)
  then show ?thesis by simp
qed

lemma authentic_accepted:
  assumes "authentic x machines now req mid ts nonce m" "\<not> nonce_blocked c (mid, nonce) now"
  shows "verify_machine_signature x True machines now c req =
    (Inr m, ((mid, nonce), now + seconds NONCE_TTL_SECS) # filter (\<lambda>(_, exp). exp > now) c)"
  unfolding verify_accepts_iff using assms
  by (intro conjI exI [of _ mid] exI [of _ ts] exI [of _ nonce]) (simp_all add: check_and_record_cases)

lemma verify_signature_sign:
  assumes "ed25519_contract x" "base64_contract x" "length seed = 32"
    and "from_openssh x line = Some \<lparr> ssh_algorithm = Ed25519, ssh_key_bytes = ed25519_public x seed, ssh_comment = note \<rparr>"
  shows "verify_signature x line canonical (sign_canonical x seed canonical) = Inr ()"
  using assms
  by (simp add: verify_signature_def verifying_key_def sign_canonical_def ed25519_contract_def base64_contract_def)

text \<open>The request that an agent following the protocol sends.\<close>

definition agent_request ::
  "externals \<Rightarrow> byte list \<Rightarrow> string \<Rightarrow> int \<Rightarrow> string \<Rightarrow> string \<Rightarrow> string \<Rightarrow> byte list \<Rightarrow> signed_request"
where
  "agent_request x seed mid ts nonce mthd path body =
     \<lparr> sr_headers = [(HEADER_MACHINE_ID, mid), (HEADER_TIMESTAMP, show_int ts), (HEADER_NONCE, nonce),
         (HEADER_SIGNATURE, sign_canonical x seed
            (canonical_string mid ts nonce mthd path (body_sha256_hex x body)))],
       sr_method = mthd, sr_path = path, sr_body = Some body \<rparr>"

lemma show_int_visible: "list_all is_visible_ascii (show_int ts) \<and> show_int ts \<noteq> []"
  by (auto simp: list_all_iff is_visible_ascii_def is_ascii_digit_def char_code_def show_int_def
      dest!: show_nat_digits split: if_splits)

lemma agent_request_authentic:
  assumes x: "ed25519_contract x" "base64_contract x" and seed: "length seed = 32"
    and m: "find_by_id x machines mid = Inr (Some m)" "m_status m = Active"
      "from_openssh x (m_public_key m) =
         Some \<lparr> ssh_algorithm = Ed25519, ssh_key_bytes = ed25519_public x seed, ssh_comment = note \<rparr>"
    and h: "list_all is_visible_ascii mid" "mid \<noteq> []" "list_all is_visible_ascii nonce" "nonce \<noteq> []"
    and t: "in_i64 ts" "0 \<le> timestamp now" "timestamp now < 2 ^ 62" "\<bar>timestamp now - ts\<bar> \<le> 60"
    and body: "length body \<le> MAX_SIGNED_BODY_BYTES"
  shows "authentic x machines now (agent_request x seed mid ts nonce mthd path body) mid ts nonce m"
proof -
  let ?c = "canonical_string mid ts nonce mthd path (body_sha256_hex x body)"
  have "length (ed25519_sign x seed (as_bytes ?c)) = 64" using x(1) seed by (simp add: ed25519_contract_def)
  then have "ed25519_sign x seed (as_bytes ?c) \<noteq> []" by auto
  with x(2) have sig: "list_all is_visible_ascii (sign_canonical x seed ?c) \<and> sign_canonical x seed ?c \<noteq> []"
    by (simp add: sign_canonical_def base64_contract_def)
  have "\<not> skew_exceeded now ts" using t by (simp add: skew_exceeded_iff)
  with m h body sig parse_i64_show_int [OF t(1)] verify_signature_sign [OF x seed m(3)] show ?thesis
    by (auto simp: authentic_def agent_request_def header_is_def HEADER_MACHINE_ID_def HEADER_TIMESTAMP_def
        HEADER_NONCE_def HEADER_SIGNATURE_def show_int_visible)
qed

text \<open>C14. An honest agent gets through: a request built and signed as the protocol prescribes, with the
  seed of the key stored for an Active machine, a timestamp at most 60 s from the server's clock, a
  body within the limit and a nonce that is not blocked, is accepted as that machine.\<close>

theorem honest_agent_accepted:
  assumes x: "ed25519_contract x" "base64_contract x" and seed: "length seed = 32"
    and m: "find_by_id x machines mid = Inr (Some m)" "m_status m = Active"
      "from_openssh x (m_public_key m) =
         Some \<lparr> ssh_algorithm = Ed25519, ssh_key_bytes = ed25519_public x seed, ssh_comment = note \<rparr>"
    and h: "list_all is_visible_ascii mid" "mid \<noteq> []" "list_all is_visible_ascii nonce" "nonce \<noteq> []"
    and t: "in_i64 ts" "0 \<le> timestamp now" "timestamp now < 2 ^ 62" "\<bar>timestamp now - ts\<bar> \<le> 60"
    and body: "length body \<le> MAX_SIGNED_BODY_BYTES" and fresh: "\<not> nonce_blocked c (mid, nonce) now"
  shows "fst (verify_machine_signature x True machines now c (agent_request x seed mid ts nonce mthd path body))
           = Inr m"
  by (simp add: authentic_accepted [OF agent_request_authentic [OF x seed m h t body] fresh])

text \<open>Disabling or revoking a machine takes effect on its next request: once its stored status is set
  to anything but Active, no request that names it is accepted, at any time and with any nonce, and
  the nonce cache is left alone.\<close>

theorem inactive_machine_rejected:
  assumes "machines_inv x tbl" "rfc3339_range t" "update_status x tbl mid status t = (found, tbl')"
    and "status \<noteq> Active" "header_is req HEADER_MACHINE_ID mid"
  shows "\<exists>e. verify_machine_signature x up tbl' now c req = (Inl e, c)"
proof (cases "signature_checks x up tbl' now req")
  case (Inl e)
  then show ?thesis by (simp add: verify_machine_signature_def)
next
  case (Inr r)
  obtain mid' nonce m where r: "r = (mid', nonce, m)" by (cases r)
  with Inr obtain ts where a: "authentic x tbl' now req mid' ts nonce m"
    by (auto simp: signature_checks_Inr_iff)
  then have "mid' = mid" using assms(5) header_is_unique by (auto simp: authentic_def)
  then have "m_status m = status"
    using a sqlite_machines.status_after_set [OF assms(1-3)] by (auto simp: authentic_def)
  with a assms(4) show ?thesis by (simp add: authentic_def)
qed

section \<open>Witnesses\<close>

definition demo_seed :: "byte list" where "demo_seed = replicate 32 65"

definition demo_line :: string where "demo_line = ''ssh-ed25519 '' @ replicate 32 CHR ''A''"

definition demo_tbl :: machine_table where
  "demo_tbl = [inserted_row ref_externals \<lparr> nm_machine_id = ''srv_1'', nm_hostname = ''web-01'',
     nm_public_key = demo_line, nm_os = ''linux'', nm_arch = ''x86_64'', nm_agent_version = ''0.1.0'',
     nm_status = Active, nm_enrolled_at = 0 \<rparr>]"

definition demo_machine :: machine where
  "demo_machine = stored_machine \<lparr> nm_machine_id = ''srv_1'', nm_hostname = ''web-01'',
     nm_public_key = demo_line, nm_os = ''linux'', nm_arch = ''x86_64'', nm_agent_version = ''0.1.0'',
     nm_status = Active, nm_enrolled_at = 0 \<rparr>"

definition demo_signed :: signed_request where
  "demo_signed = agent_request ref_externals demo_seed ''srv_1'' 1000 ''n1'' ''POST'' ''/heartbeat'' []"

lemma demo_found:
  "find_by_id ref_externals demo_tbl ''srv_1'' = Inr (Some demo_machine)" "m_status demo_machine = Active"
  by (simp_all add: find_by_id_def find_machine_def demo_tbl_def demo_machine_def demo_times
      machine_of_inserted_row [OF ref_rfc3339_contract] stored_machine_def inserted_machine_def)

lemma demo_inv: "machines_inv ref_externals demo_tbl"
  by (simp add: machines_inv_def machines_unique_def demo_tbl_def ref_rfc3339_contract read_row_def demo_times
      machine_of_inserted_row [OF ref_rfc3339_contract])

lemma demo_line_key:
  "from_openssh ref_externals (m_public_key demo_machine) =
     Some \<lparr> ssh_algorithm = Ed25519, ssh_key_bytes = ed25519_public ref_externals demo_seed, ssh_comment = [] \<rparr>"
  by (simp add: demo_machine_def stored_machine_def inserted_machine_def demo_line_def ref_externals_def
      ref_from_openssh_def demo_seed_def as_bytes_def takeWhile_replicate dropWhile_replicate)

lemma demo_clock: "timestamp (seconds n) = n"
  by (simp add: timestamp_def seconds_def nanos_per_sec_def)

lemma demo_authentic:
  assumes "0 \<le> n" "n < 2 ^ 62" "\<bar>n - 1000\<bar> \<le> 60"
  shows "authentic ref_externals demo_tbl (seconds n) demo_signed ''srv_1'' 1000 ''n1'' demo_machine"
  unfolding demo_signed_def
  by (rule agent_request_authentic [OF ref_ed25519_contract ref_base64_contract _ demo_found demo_line_key])
    (use assms in \<open>simp_all add: demo_seed_def in_i64_def demo_clock MAX_SIGNED_BODY_BYTES_def
      is_visible_ascii_def char_code_def\<close>)

lemma demo_accepted:
  assumes "0 \<le> n" "n < 2 ^ 62" "\<bar>n - 1000\<bar> \<le> 60" "\<not> nonce_blocked c (''srv_1'', ''n1'') (seconds n)"
  shows "verify_machine_signature ref_externals True demo_tbl (seconds n) c demo_signed =
    (Inr demo_machine, ((''srv_1'', ''n1''), seconds n + seconds NONCE_TTL_SECS) # filter (\<lambda>(_, exp). exp > seconds n) c)"
  by (rule authentic_accepted [OF demo_authentic [OF assms(1-3)] assms(4)])

theorem replay_at_boundary_witness:
  "\<exists>c1 c2. verify_machine_signature ref_externals True demo_tbl (seconds 940) [] demo_signed = (Inr demo_machine, c1)
     \<and> verify_machine_signature ref_externals True demo_tbl (seconds 940 + seconds NONCE_TTL_SECS) c1 demo_signed
         = (Inr demo_machine, c2)"
proof -
  obtain c1 where c1: "verify_machine_signature ref_externals True demo_tbl (seconds 940) [] demo_signed = (Inr demo_machine, c1)"
    using demo_accepted [of 940 "[]"] by (simp add: nonce_blocked_iff)
  have "header_is demo_signed HEADER_TIMESTAMP (show_int 1000)" "parse_i64 (show_int 1000) = Some 1000"
    by (simp_all add: demo_signed_def agent_request_def header_is_def show_int_visible parse_i64_show_int in_i64_def
        HEADER_MACHINE_ID_def HEADER_TIMESTAMP_def)
  from replay_at_boundary [OF c1 this] c1 show ?thesis by (auto simp: demo_clock)
qed

theorem replay_only_at_boundary_witness:
  "\<exists>c1 c2. verify_machine_signature ref_externals True demo_tbl (seconds 940) [] demo_signed = (Inr demo_machine, c1)
     \<and> verify_machine_signature ref_externals True demo_tbl (seconds 1060) (serve ref_externals c1 []) demo_signed
         = (Inr demo_machine, c2)
     \<and> (\<exists>mid ts nonce. authentic ref_externals demo_tbl (seconds 940) demo_signed mid ts nonce demo_machine
           \<and> 940 = ts - 60 \<and> 1060 = ts + 60)"
proof -
  define c1 where "c1 = [((''srv_1'', ''n1''), seconds 940 + seconds NONCE_TTL_SECS)]"
  have c1: "verify_machine_signature ref_externals True demo_tbl (seconds 940) [] demo_signed = (Inr demo_machine, c1)"
    using demo_accepted [of 940 "[]"] by (simp add: nonce_blocked_iff c1_def)
  have "\<not> nonce_blocked c1 (''srv_1'', ''n1'') (seconds 1060)"
    by (simp add: c1_def nonce_blocked_iff NONCE_TTL_SECS_def seconds_def nanos_per_sec_def)
  then obtain c2 where c2: "verify_machine_signature ref_externals True demo_tbl (seconds 1060) (serve ref_externals c1 []) demo_signed
      = (Inr demo_machine, c2)"
    using demo_accepted [of 1060 c1] by (simp add: serve_def)
  from replay_only_at_boundary [OF c1 _ c2] c1 c2 show ?thesis by (auto simp: demo_clock)
qed

theorem skew_check_wraps_witness: "\<not> skew_exceeded (seconds 1000) (1000 - 2 ^ 63)"
  using skew_check_wraps [of "seconds 1000"] by (simp add: demo_clock)

theorem canonical_string_binds_witness:
  "canonical_string ''a'' 1 ''n'' ''GET'' ''/x'' ''h'' = canonical_string ''a'' 1 ''n'' ''GET'' ''/x'' ''h'' \<and> (1 :: int) = 1"
  using canonical_string_binds [of "''a''" 1 "''n''" "''GET''" "''/x''" "''h''" "''a''" 1 "''n''" "''GET''" "''/x''" "''h''"]
  by simp

theorem honest_agent_accepted_witness:
  "fst (verify_machine_signature ref_externals True demo_tbl (seconds 990) [] demo_signed) = Inr demo_machine"
  unfolding demo_signed_def
  by (rule honest_agent_accepted [OF ref_ed25519_contract ref_base64_contract _ demo_found demo_line_key])
    (simp_all add: demo_seed_def in_i64_def demo_clock MAX_SIGNED_BODY_BYTES_def is_visible_ascii_def
      char_code_def nonce_blocked_iff)

theorem inactive_machine_rejected_witness:
  "\<exists>e. verify_machine_signature ref_externals True (snd (update_status ref_externals demo_tbl ''srv_1'' Revoked 0))
     (seconds 990) [] demo_signed = (Inl e, [])"
proof -
  have "header_is demo_signed HEADER_MACHINE_ID ''srv_1''"
    by (simp add: demo_signed_def agent_request_def header_is_def is_visible_ascii_def char_code_def)
  from inactive_machine_rejected [OF demo_inv demo_times(1) _ _ this, of Revoked] show ?thesis
    by (metis machine_status.distinct(9) prod.collapse)
qed

end
