(* ===== verification/Registry.thy ===== *)
theory Registry
  imports AgentAuth TextOps
begin

text \<open>
  The machine registry: heartbeats and liveness (\<^verbatim>\<open>src/machines/protocol.rs\<close>) and the operations that
  administrators have on machines (\<^verbatim>\<open>src/machines/admin.rs\<close>).  The lemmas rest on the repository contract
  of the machine table.
\<close>

section \<open>Liveness\<close>

definition ONLINE_WITHIN_SECS :: int where "ONLINE_WITHIN_SECS = 120"
definition STALE_WITHIN_SECS :: int where "STALE_WITHIN_SECS = 600"
definition DEFAULT_LIST_LIMIT :: nat where "DEFAULT_LIST_LIMIT = 1000"

datatype liveness_status = Online | Stale | Offline

definition derive :: "instant option \<Rightarrow> instant \<Rightarrow> liveness_status" where
  "derive last_seen now =
     (case last_seen of
        None \<Rightarrow> Offline
      | Some seen \<Rightarrow>
          let elapsed = num_seconds (now - seen) in
          if elapsed \<le> ONLINE_WITHIN_SECS then Online
          else if elapsed \<le> STALE_WITHIN_SECS then Stale
          else Offline)"

section \<open>Heartbeats\<close>

definition MAX_AGENT_VERSION_LEN :: nat where "MAX_AGENT_VERSION_LEN = 64"
definition HB_MAX_HOSTNAME_LEN :: nat where "HB_MAX_HOSTNAME_LEN = 253"
definition MAX_OS_LEN :: nat where "MAX_OS_LEN = 64"
definition MAX_KERNEL_LEN :: nat where "MAX_KERNEL_LEN = 128"
definition MAX_IP_LEN :: nat where "MAX_IP_LEN = 64"

record heartbeat_request =
  hb_agent_version :: string
  hb_hostname :: string
  hb_os :: string
  hb_kernel :: string
  hb_ip :: string
  hb_current_generation :: int
  hb_uptime_seconds :: int

record heartbeat_response =
  hbr_status :: string
  hbr_server_time :: string
  hbr_next_heartbeat_seconds :: u32

datatype registry_error = Validation string | UnknownMachine | RegistryDatabase sqlx_error

fun api_from_registry :: "registry_error \<Rightarrow> api_error" where
  "api_from_registry (Validation msg) = BadRequest msg"
| "api_from_registry UnknownMachine = Unauthorized ''request authentication failed''"
| "api_from_registry (RegistryDatabase e) = Internal (sqlx_display e)"

definition check_field :: "string \<Rightarrow> string \<Rightarrow> nat \<Rightarrow> (registry_error, unit) result" where
  "check_field field v max_len =
     (let trimmed = trim v in
      if trimmed = [] then Inl (Validation (field @ '' must not be empty''))
      else if length trimmed > max_len then Inl (Validation (field @ '' is too long''))
      else if has_control trimmed then Inl (Validation (field @ '' contains control characters''))
      else Inr ())"

definition validate_heartbeat :: "heartbeat_request \<Rightarrow> (registry_error, string option) result" where
  "validate_heartbeat r =
     rbind (check_field ''agent_version'' (hb_agent_version r) MAX_AGENT_VERSION_LEN) (\<lambda>_.
     rbind (check_field ''hostname'' (hb_hostname r) HB_MAX_HOSTNAME_LEN) (\<lambda>_.
     rbind (check_field ''os'' (hb_os r) MAX_OS_LEN) (\<lambda>_.
     rbind (check_field ''kernel'' (hb_kernel r) MAX_KERNEL_LEN) (\<lambda>_.
     if hb_current_generation r < 0 then Inl (Validation ''current_generation must not be negative'')
     else if hb_uptime_seconds r < 0 then Inl (Validation ''uptime_seconds must not be negative'')
     else
       let ip = trim (hb_ip r) in
       if ip = [] then Inr None
       else if length ip > MAX_IP_LEN \<or> has_control ip then Inl (Validation ''ip is invalid'')
       else Inr (Some ip)))))"

definition record_heartbeat ::
  "externals \<Rightarrow> bool \<Rightarrow> machine_table \<Rightarrow> string \<Rightarrow> heartbeat_request \<Rightarrow> instant
     \<Rightarrow> (registry_error, heartbeat_response) result \<times> machine_table" where
  "record_heartbeat x up tbl machine_id request now =
     (case validate_heartbeat request of
        Inl e \<Rightarrow> (Inl e, tbl)
      | Inr ip \<Rightarrow>
          if \<not> up then (Inl (RegistryDatabase SqlIo), tbl)
          else
            let (updated, tbl') = update_last_seen x tbl
                  \<lparr> hu_machine_id = machine_id, hu_now = now,
                    hu_agent_version = trim (hb_agent_version request), hu_ip = ip,
                    hu_current_generation = hb_current_generation request \<rparr> in
            if \<not> updated then (Inl UnknownMachine, tbl')
            else (Inr \<lparr> hbr_status = ''ok'', hbr_server_time = to_rfc3339_millis x now,
                        hbr_next_heartbeat_seconds = DEFAULT_HEARTBEAT_INTERVAL \<rparr>, tbl'))"

record server_summary =
  ss_machine_id :: string
  ss_hostname :: string
  ss_last_seen :: "string option"
  ss_status :: liveness_status
  ss_ip :: "string option"
  ss_current_generation :: int
  ss_agent_version :: string

definition list_servers ::
  "externals \<Rightarrow> bool \<Rightarrow> machine_table \<Rightarrow> instant \<Rightarrow> nat \<Rightarrow> (registry_error, server_summary list) result" where
  "list_servers x up tbl now limit =
     rbind (ensure up (RegistryDatabase SqlIo)) (\<lambda>_.
     rbind (map_err RegistryDatabase (list_recent x tbl limit)) (\<lambda>machines.
     Inr (map (\<lambda>m. \<lparr> ss_machine_id = m_machine_id m, ss_hostname = m_hostname m,
            ss_last_seen = map_option (to_rfc3339_millis x) (m_last_seen m),
            ss_status = derive (m_last_seen m) now, ss_ip = m_ip m,
            ss_current_generation = m_current_generation m, ss_agent_version = m_agent_version m \<rparr>)
          machines)))"

section \<open>Administration\<close>

record machine_view =
  mv_machine_id :: string
  mv_hostname :: string
  mv_status :: machine_status
  mv_liveness :: liveness_status
  mv_os :: string
  mv_arch :: string
  mv_agent_version :: string
  mv_fingerprint :: string
  mv_ip :: "string option"
  mv_current_generation :: int
  mv_synced_generation :: "int option"
  mv_latest_generation :: "int option"
  mv_up_to_date :: bool
  mv_bundle_fingerprint :: "string option"
  mv_last_seen :: "string option"
  mv_last_sync :: "string option"
  mv_enrolled_at :: string

definition from_machine :: "externals \<Rightarrow> machine \<Rightarrow> instant \<Rightarrow> int option \<Rightarrow> machine_view" where
  "from_machine x m now latest_generation =
     (let up_to_date = (case (m_synced_generation m, latest_generation) of
            (Some synced, Some latest) \<Rightarrow> synced \<ge> latest
          | _ \<Rightarrow> False)
      in \<lparr> mv_machine_id = m_machine_id m, mv_hostname = m_hostname m, mv_status = m_status m,
           mv_liveness = derive (m_last_seen m) now, mv_os = m_os m, mv_arch = m_arch m,
           mv_agent_version = m_agent_version m,
           mv_fingerprint = (case public_key_fingerprint x (m_public_key m) of
              Some f \<Rightarrow> f | None \<Rightarrow> ''unknown''),
           mv_ip = m_ip m, mv_current_generation = m_current_generation m,
           mv_synced_generation = m_synced_generation m, mv_latest_generation = latest_generation,
           mv_up_to_date = up_to_date, mv_bundle_fingerprint = m_bundle_fingerprint m,
           mv_last_seen = map_option (to_rfc3339_secs x) (m_last_seen m),
           mv_last_sync = map_option (to_rfc3339_secs x) (m_last_sync m),
           mv_enrolled_at = to_rfc3339_secs x (m_enrolled_at m) \<rparr>)"

record machine_filter =
  mf_status :: "machine_status option"
  mf_liveness :: "liveness_status option"
  mf_hostname :: "string option"
  mf_generation :: "int option"
  mf_os :: "string option"
  mf_arch :: "string option"
  mf_agent_version :: "string option"

definition default_filter :: machine_filter where
  "default_filter = \<lparr> mf_status = None, mf_liveness = None, mf_hostname = None, mf_generation = None,
     mf_os = None, mf_arch = None, mf_agent_version = None \<rparr>"

definition passes :: "'a option \<Rightarrow> ('a \<Rightarrow> bool) \<Rightarrow> bool" where
  "passes v p = (case v of Some a \<Rightarrow> p a | None \<Rightarrow> True)"

definition matches :: "externals \<Rightarrow> machine_filter \<Rightarrow> machine_view \<Rightarrow> bool" where
  "matches x f v \<longleftrightarrow>
     passes (mf_status f) (\<lambda>s. mv_status v = s)
   \<and> passes (mf_liveness f) (\<lambda>l. mv_liveness v = l)
   \<and> passes (mf_hostname f) (\<lambda>h. sublist (unicode_lowercase x h) (unicode_lowercase x (mv_hostname v)))
   \<and> passes (mf_generation f) (\<lambda>g. mv_current_generation v = g \<or> mv_synced_generation v = Some g)
   \<and> passes (mf_os f) (\<lambda>os. eq_ignore_ascii_case (mv_os v) os)
   \<and> passes (mf_arch f) (\<lambda>arch. eq_ignore_ascii_case (mv_arch v) arch)
   \<and> passes (mf_agent_version f) (\<lambda>a. eq_ignore_ascii_case (mv_agent_version v) a)"

datatype machine_admin_error = MachineNotFound string | AdminDatabase sqlx_error

fun api_from_machine_admin :: "machine_admin_error \<Rightarrow> api_error" where
  "api_from_machine_admin (MachineNotFound i) = NotFound (''machine '' @ quoted i @ '' was not found'')"
| "api_from_machine_admin (AdminDatabase e) = Internal (sqlx_display e)"

definition admin_list ::
  "externals \<Rightarrow> bool \<Rightarrow> machine_table \<Rightarrow> instant \<Rightarrow> int option \<Rightarrow> machine_filter
     \<Rightarrow> (sqlx_error, machine_view list) result" where
  "admin_list x up tbl now latest_generation flt =
     rbind (ensure up SqlIo) (\<lambda>_.
     rbind (list_all_machines x tbl) (\<lambda>machines.
     Inr (filter (matches x flt) (map (\<lambda>m. from_machine x m now latest_generation) machines))))"

definition admin_find :: "externals \<Rightarrow> bool \<Rightarrow> machine_table \<Rightarrow> string \<Rightarrow> (sqlx_error, machine option) result" where
  "admin_find x up tbl machine_id = rbind (ensure up SqlIo) (\<lambda>_. find_by_id x tbl machine_id)"

definition admin_get ::
  "externals \<Rightarrow> bool \<Rightarrow> machine_table \<Rightarrow> instant \<Rightarrow> int option \<Rightarrow> string
     \<Rightarrow> (sqlx_error, machine_view option) result" where
  "admin_get x up tbl now latest_generation machine_id =
     rbind (admin_find x up tbl machine_id) (\<lambda>m.
     Inr (map_option (\<lambda>m. from_machine x m now latest_generation) m))"

text \<open>The statements of a service call fail separately: the update may be done and the read after it fail.\<close>

definition set_status ::
  "externals \<Rightarrow> bool \<Rightarrow> bool \<Rightarrow> machine_table \<Rightarrow> string \<Rightarrow> machine_status \<Rightarrow> instant
     \<Rightarrow> (machine_admin_error, machine) result \<times> machine_table" where
  "set_status x update_up find_up tbl machine_id status now =
     (if \<not> update_up then (Inl (AdminDatabase SqlIo), tbl)
      else
        let (updated, tbl') = update_status x tbl machine_id status now in
        if \<not> updated then (Inl (MachineNotFound machine_id), tbl')
        else
          (rbind (map_err AdminDatabase (admin_find x find_up tbl' machine_id))
             (\<lambda>m. ok_or (MachineNotFound machine_id) m), tbl'))"

definition admin_delete ::
  "externals \<Rightarrow> bool \<Rightarrow> bool \<Rightarrow> machine_table \<Rightarrow> string
     \<Rightarrow> (machine_admin_error, machine) result \<times> machine_table" where
  "admin_delete x find_up delete_up tbl machine_id =
     (case rbind (map_err AdminDatabase (admin_find x find_up tbl machine_id))
             (\<lambda>m. ok_or (MachineNotFound machine_id) m) of
        Inl e \<Rightarrow> (Inl e, tbl)
      | Inr existing \<Rightarrow>
          if \<not> delete_up then (Inl (AdminDatabase SqlIo), tbl)
          else
            let (deleted, tbl') = delete_machine_row tbl machine_id in
            if \<not> deleted then (Inl (MachineNotFound machine_id), tbl') else (Inr existing, tbl'))"

section \<open>Liveness decays\<close>

text \<open>Liveness ordered from the most to the least recently seen.\<close>

fun liveness_rank :: "liveness_status \<Rightarrow> nat" where
  "liveness_rank Online = 0"
| "liveness_rank Stale = 1"
| "liveness_rank Offline = 2"

lemma liveness_rank_inject: "liveness_rank a = liveness_rank b \<Longrightarrow> a = b"
  by (cases a; cases b) simp_all

instantiation liveness_status :: linorder
begin

definition less_eq_liveness_status :: "liveness_status \<Rightarrow> liveness_status \<Rightarrow> bool" where
  "less_eq_liveness_status a b \<longleftrightarrow> liveness_rank a \<le> liveness_rank b"

definition less_liveness_status :: "liveness_status \<Rightarrow> liveness_status \<Rightarrow> bool" where
  "less_liveness_status a b \<longleftrightarrow> liveness_rank a < liveness_rank b"

instance
proof
  fix a b c :: liveness_status
  show "(a < b) = (a \<le> b \<and> \<not> b \<le> a)"
    unfolding less_eq_liveness_status_def less_liveness_status_def by (rule less_le_not_le)
  show "a \<le> a" unfolding less_eq_liveness_status_def by (rule order_refl)
  show "a \<le> b \<Longrightarrow> b \<le> c \<Longrightarrow> a \<le> c" unfolding less_eq_liveness_status_def by (rule order_trans)
  show "a \<le> b \<Longrightarrow> b \<le> a \<Longrightarrow> a = b"
    unfolding less_eq_liveness_status_def by (rule liveness_rank_inject) (rule antisym)
  show "a \<le> b \<or> b \<le> a" unfolding less_eq_liveness_status_def by (rule linear)
qed

end

lemma div_le_iff_less:
  fixes k :: int
  assumes "0 < k" shows "d div k \<le> n \<longleftrightarrow> d < (n + 1) * k"
proof
  assume "d div k \<le> n"
  then have "d div k * k \<le> n * k" using assms by (simp add: mult_right_mono)
  then show "d < (n + 1) * k"
    using div_mult_mod_eq [of d k] pos_mod_bound [OF assms, of d]
    unfolding distrib_right by linarith
next
  assume "d < (n + 1) * k"
  show "d div k \<le> n"
  proof (rule ccontr)
    assume "\<not> d div k \<le> n"
    then have "(n + 1) * k \<le> d div k * k" using assms by (intro mult_right_mono) auto
    with \<open>d < (n + 1) * k\<close> show False
      using div_mult_mod_eq [of d k] pos_mod_sign [OF assms, of d] by linarith
  qed
qed

lemma num_seconds_le_iff: "0 \<le> n \<Longrightarrow> num_seconds d \<le> n \<longleftrightarrow> d < seconds (n + 1)"
proof -
  assume "0 \<le> n"
  moreover have "d div nanos_per_sec \<le> n \<longleftrightarrow> d < (n + 1) * nanos_per_sec"
    by (rule div_le_iff_less) (simp add: nanos_per_sec_def)
  moreover have "d < 0 \<Longrightarrow> - ((- d) div nanos_per_sec) \<le> 0"
    by (simp add: nanos_per_sec_def pos_imp_zdiv_nonneg_iff)
  ultimately show ?thesis
    by (auto simp: num_seconds_def seconds_def nanos_per_sec_def)
qed

lemma derive_iff:
  "derive (Some seen) now = Online \<longleftrightarrow> now < seen + seconds 121"
  "derive (Some seen) now = Offline \<longleftrightarrow> seen + seconds 601 \<le> now"
  by (auto simp: derive_def Let_def ONLINE_WITHIN_SECS_def STALE_WITHIN_SECS_def num_seconds_le_iff
      seconds_def nanos_per_sec_def)

lemma derive_mono:
  assumes "now \<le> now'" shows "derive s now \<le> derive s now'"
proof (cases s)
  case (Some seen)
  then show ?thesis
    using assms derive_iff [of seen now] derive_iff [of seen now']
    by (cases "derive s now"; cases "derive s now'") (auto simp: less_eq_liveness_status_def)
qed (simp add: derive_def)

section \<open>Heartbeats and the machine table\<close>

lemma check_field_bind:
  "rbind (check_field field v n) g = Inr a \<longleftrightarrow>
     (trim v \<noteq> [] \<and> length (trim v) \<le> n \<and> \<not> has_control (trim v)) \<and> g () = Inr a"
  by (simp add: check_field_def Let_def)

definition heartbeat_valid :: "heartbeat_request \<Rightarrow> bool" where
  "heartbeat_valid r \<longleftrightarrow>
     (\<forall>(v, n) \<in> {(hb_agent_version r, 64), (hb_hostname r, 253), (hb_os r, 64), (hb_kernel r, 128)}.
        trim v \<noteq> [] \<and> length (trim v) \<le> n \<and> \<not> has_control (trim v))
   \<and> 0 \<le> hb_current_generation r \<and> 0 \<le> hb_uptime_seconds r
   \<and> length (trim (hb_ip r)) \<le> 64 \<and> \<not> has_control (trim (hb_ip r))"

lemma validate_heartbeat_Inr_iff:
  "validate_heartbeat r = Inr ip \<longleftrightarrow> heartbeat_valid r \<and> ip = non_blank (trim (hb_ip r))"
proof -
  have ip: "(if trim (hb_ip r) = [] then Inr None
      else if length (trim (hb_ip r)) > MAX_IP_LEN \<or> has_control (trim (hb_ip r)) then Inl (Validation ''ip is invalid'')
      else Inr (Some (trim (hb_ip r)))) = Inr ip \<longleftrightarrow>
    length (trim (hb_ip r)) \<le> 64 \<and> \<not> has_control (trim (hb_ip r)) \<and> ip = non_blank (trim (hb_ip r))"
    by (auto simp: non_blank_def MAX_IP_LEN_def has_control_def)
  show ?thesis
    unfolding validate_heartbeat_def check_field_bind Let_def
    by (simp add: ip heartbeat_valid_def MAX_AGENT_VERSION_LEN_def HB_MAX_HOSTNAME_LEN_def
        MAX_OS_LEN_def MAX_KERNEL_LEN_def not_less conj_ac cong: conj_cong)
qed

definition seen_machine :: "heartbeat_request \<Rightarrow> instant \<Rightarrow> machine \<Rightarrow> machine" where
  "seen_machine r now m =
     m\<lparr> m_last_seen := Some (trunc_ms now), m_updated_at := trunc_ms now,
        m_agent_version := trim (hb_agent_version r), m_ip := non_blank (trim (hb_ip r)),
        m_current_generation := hb_current_generation r \<rparr>"

lemma record_heartbeat_cases:
  assumes "machines_inv x tbl" "rfc3339_range now"
    "record_heartbeat x up tbl k r now = (res, tbl')"
  obtains (failed) e where "res = Inl e" "machines_inv x tbl'" "abs_machines x tbl' = abs_machines x tbl"
  | (recorded) m where "res = Inr \<lparr> hbr_status = ''ok'', hbr_server_time = to_rfc3339_millis x now,
        hbr_next_heartbeat_seconds = 60 \<rparr>" "up" "heartbeat_valid r" "find_by_id x tbl k = Inr (Some m)"
      "machines_inv x tbl'"
      "abs_machines x tbl' = update_where (\<lambda>m. m_machine_id m = k) (seen_machine r now) (abs_machines x tbl)"
      "find_by_id x tbl' k = Inr (Some (seen_machine r now m))"
proof (cases "validate_heartbeat r")
  case (Inl e)
  with assms failed show thesis by (auto simp: record_heartbeat_def)
next
  case (Inr ip)
  note ip = this [unfolded validate_heartbeat_Inr_iff]
  show thesis
  proof (cases up)
    case False
    with Inr assms failed show thesis by (auto simp: record_heartbeat_def)
  next
    case True
    let ?u = "\<lparr> hu_machine_id = k, hu_now = now, hu_agent_version = trim (hb_agent_version r), hu_ip = ip,
      hu_current_generation = hb_current_generation r \<rparr>"
    obtain found t where u: "update_last_seen x tbl ?u = (found, t)" by force
    from sqlite_machines.seen [OF assms(1) _ u] assms(2)
    have f: "found = (k \<in> m_machine_id ` set (abs_machines x tbl))" "machines_inv x t"
      "abs_machines x t = update_where (\<lambda>m. m_machine_id m = k) (seen_machine r now) (abs_machines x tbl)"
      using ip by (simp_all add: seen_machine_def [abs_def])
    show thesis
    proof (cases found)
      case True
      with f(1) obtain m where m: "m \<in> set (abs_machines x tbl)" "m_machine_id m = k" by auto
      then have "find_by_id x tbl k = Inr (Some m)"
        using sqlite_machines.by_id_Some_iff [OF assms(1)] by blast
      moreover have "find_by_id x t k = Inr (Some (seen_machine r now m))"
        using sqlite_machines.by_id_Some_iff [OF f(2)] m f(3)
        by (auto simp: update_where_def seen_machine_def intro: rev_image_eqI)
      ultimately show thesis
        using recorded ip f \<open>up\<close> True assms(3) Inr u by (simp add: record_heartbeat_def DEFAULT_HEARTBEAT_INTERVAL_def)
    next
      case False
      then have "abs_machines x t = abs_machines x tbl"
        using f(1,3) by (auto simp: update_where_def intro!: map_idI)
      with failed f(2) False \<open>up\<close> assms(3) Inr u show thesis by (auto simp: record_heartbeat_def)
    qed
  qed
qed

text \<open>
  C22. A heartbeat changes what it should and nothing else: if it is rejected no
  machine changes; if it is accepted its fields were within their limits and free of control characters, exactly the
  addressed machine changes and keeps its status, key, host name and bundle state, and it is seen as online until
  121 seconds later and from then on only decays.
\<close>

theorem heartbeat_effect:
  assumes "machines_inv x tbl" "rfc3339_range now"
    "record_heartbeat x up tbl k r now = (res, tbl')"
  shows "machines_inv x tbl' \<and>
    (case res of
       Inl e \<Rightarrow> abs_machines x tbl' = abs_machines x tbl
     | Inr resp \<Rightarrow>
         heartbeat_valid r \<and> hbr_next_heartbeat_seconds resp = 60 \<and>
         (\<exists>m m'. find_by_id x tbl k = Inr (Some m) \<and> find_by_id x tbl' k = Inr (Some m')
           \<and> (\<forall>j. j \<noteq> k \<longrightarrow> find_by_id x tbl' j = find_by_id x tbl j)
           \<and> m' = m\<lparr> m_last_seen := m_last_seen m', m_updated_at := m_updated_at m', m_ip := m_ip m',
                m_agent_version := m_agent_version m', m_current_generation := hb_current_generation r \<rparr>
           \<and> (\<forall>t. now \<le> t \<longrightarrow> t < trunc_ms now + seconds 121 \<longrightarrow> derive (m_last_seen m') t = Online)
           \<and> (\<forall>t t'. t \<le> t' \<longrightarrow> derive (m_last_seen m') t \<le> derive (m_last_seen m') t')))"
  using assms
proof (cases rule: record_heartbeat_cases)
  case (recorded m)
  have "find_by_id x tbl' j = find_by_id x tbl j" if "j \<noteq> k" for j
  proof -
    have "find (\<lambda>m. m_machine_id m = j) (update_where (\<lambda>m. m_machine_id m = k) (seen_machine r now) ms) =
        find (\<lambda>m. m_machine_id m = j) ms" for ms
      using that by (induction ms) (auto simp: update_where_def seen_machine_def)
    then show ?thesis
      using sqlite_machines.by_id [OF recorded(5)] sqlite_machines.by_id [OF assms(1)] recorded(6) by simp
  qed
  with recorded show ?thesis
    by (auto simp: seen_machine_def derive_iff derive_mono intro!: exI [of _ m])
qed auto

definition demo_heartbeat :: heartbeat_request where
  "demo_heartbeat = \<lparr> hb_agent_version = ''0.2.0'', hb_hostname = ''web-01'', hb_os = ''linux'', hb_kernel = ''6.1'',
     hb_ip = '' '', hb_current_generation = 3, hb_uptime_seconds = 10 \<rparr>"

lemma demo_heartbeat_valid: "validate_heartbeat demo_heartbeat = Inr None"
  by code_simp

theorem heartbeat_effect_witness:
  "\<exists>resp tbl'. record_heartbeat ref_externals True demo_tbl ''srv_1'' demo_heartbeat 0 = (Inr resp, tbl')
     \<and> machines_inv ref_externals tbl'
     \<and> (\<exists>m'. find_by_id ref_externals tbl' ''srv_1'' = Inr (Some m') \<and> derive (m_last_seen m') (seconds 120) = Online)"
proof -
  obtain res tbl' where r: "record_heartbeat ref_externals True demo_tbl ''srv_1'' demo_heartbeat 0 = (res, tbl')"
    by force
  have "res \<noteq> Inl e" for e
    using r by (auto simp: record_heartbeat_def demo_heartbeat_valid update_last_seen_def demo_tbl_def
        inserted_row_def rows_affected_def Let_def)
  then obtain resp where "res = Inr resp" by (cases res) auto
  moreover have "trunc_ms 0 = 0" by (simp add: trunc_ms_def nanos_per_milli_def)
  moreover have "seconds 120 < seconds 121" "0 \<le> seconds 120" by (simp_all add: seconds_def nanos_per_sec_def)
  ultimately show ?thesis
    using heartbeat_effect [OF demo_inv demo_times(1) r] r by auto
qed

end
