(* ===== verification/Access.thy ===== *)
theory Access
  imports RequestContext
begin

text \<open>
  Who a caller is and what they may do: the provider-neutral identity and the
  allowlist decision (\<^verbatim>\<open>src/authz\<close>), the provider abstraction and registry
  (\<^verbatim>\<open>src/auth/provider.rs\<close>, \<^verbatim>\<open>src/auth/registry.rs\<close>), and the resolution of a bearer token into an
  identity (\<^verbatim>\<open>src/routes/auth.rs\<close>).  A provider is a record of the functions of the trait
  \<^verbatim>\<open>AuthenticationProvider\<close>; what it answers is the upstream's answer to one request.
\<close>

section \<open>Identities and allowlists\<close>

record identity =
  id_provider :: string
  id_subject :: string
  id_username :: string
  id_email :: "string option"
  id_display_name :: "string option"
  id_realm :: "string option"
  id_organizations :: "string list"
  id_teams :: "string list"
  id_groups :: "string list"
  id_roles :: "string list"
  id_attributes :: "(string \<times> string list) list"

definition new_identity :: "string \<Rightarrow> string \<Rightarrow> string \<Rightarrow> identity" where
  "new_identity provider subject username =
     \<lparr> id_provider = provider, id_subject = subject, id_username = username, id_email = None,
       id_display_name = None, id_realm = None, id_organizations = [], id_teams = [],
       id_groups = [], id_roles = [], id_attributes = [] \<rparr>"

record access_config =
  allowed_users :: "string list"
  allowed_orgs :: "string list"
  allowed_teams :: "string list"
  allowed_groups :: "string list"
  allowed_roles :: "string list"
  allowed_attributes :: "string list"

definition default_access :: access_config where
  "default_access = \<lparr> allowed_users = [], allowed_orgs = [], allowed_teams = [], allowed_groups = [],
     allowed_roles = [], allowed_attributes = [] \<rparr>"

datatype authz_decision = Allow | Deny string

fun is_allowed :: "authz_decision \<Rightarrow> bool" where
  "is_allowed Allow = True"
| "is_allowed (Deny _) = False"

definition contains_ci :: "string list \<Rightarrow> string \<Rightarrow> bool" where
  "contains_ci haystack needle \<longleftrightarrow> list_ex (\<lambda>candidate. eq_ignore_ascii_case candidate needle) haystack"

definition any_ci :: "string list \<Rightarrow> string list \<Rightarrow> bool" where
  "any_ci allowlist facts \<longleftrightarrow> list_ex (\<lambda>fact. contains_ci allowlist fact) facts"

definition attribute_entry_match :: "(string \<times> string list) list \<Rightarrow> string \<Rightarrow> bool" where
  "attribute_entry_match attrs entry =
     (case split_once (CHR ''='') entry of
        None \<Rightarrow> False
      | Some (k, v) \<Rightarrow>
          let key = trim k; val = trim v in
          case find (\<lambda>(k', _). eq_ignore_ascii_case k' key) attrs of
            Some (_, vals) \<Rightarrow> list_ex (\<lambda>v'. eq_ignore_ascii_case v' val) vals
          | None \<Rightarrow> False)"

definition attribute_match :: "access_config \<Rightarrow> identity \<Rightarrow> bool" where
  "attribute_match access i =
     (if allowed_attributes access = [] \<or> id_attributes i = [] then False
      else list_ex (attribute_entry_match (id_attributes i)) (allowed_attributes access))"

definition authorize :: "externals \<Rightarrow> access_config \<Rightarrow> identity \<Rightarrow> authz_decision" where
  "authorize x access i =
     (if contains_ci (allowed_users access) (id_username i) then Allow
      else if any_ci (allowed_orgs access) (id_organizations i) then Allow
      else if any_ci (allowed_teams access) (id_teams i) then Allow
      else if any_ci (allowed_groups access) (id_groups i) then Allow
      else if any_ci (allowed_roles access) (id_roles i) then Allow
      else if attribute_match access i then Allow
      else Deny (quoted (id_username i) @ '' (provider='' @ id_provider i
             @ '') is not in any allowlist (orgs='' @ debug_strings x (id_organizations i)
             @ '', teams='' @ debug_strings x (id_teams i)
             @ '', groups='' @ debug_strings x (id_groups i)
             @ '', roles='' @ debug_strings x (id_roles i) @ '')''))"

text \<open>\<^verbatim>\<open>AuthzError::Denied\<close> as an API error: the reason is not disclosed.\<close>

definition api_from_denied :: "string \<Rightarrow> api_error" where
  "api_from_denied reason = Forbidden ''access denied''"

section \<open>Providers\<close>

datatype provider_kind = OAuth2Device | OidcDevice

fun provider_kind_as_str :: "provider_kind \<Rightarrow> string" where
  "provider_kind_as_str OAuth2Device = ''oauth2-device''"
| "provider_kind_as_str OidcDevice = ''oidc-device''"

record provider_metadata =
  pm_id :: string
  pm_display_name :: string
  pm_kind :: provider_kind

record authenticated_identity =
  au_provider :: string
  au_subject :: string
  au_username :: string
  au_email :: "string option"
  au_display_name :: "string option"

record authorization_needs =
  an_organizations :: bool
  an_teams :: bool
  an_groups :: bool
  an_roles :: bool
  an_attributes :: bool

definition needs_any :: "authorization_needs \<Rightarrow> bool" where
  "needs_any n \<longleftrightarrow> an_organizations n \<or> an_teams n \<or> an_groups n \<or> an_roles n \<or> an_attributes n"

definition needs_all :: authorization_needs where
  "needs_all = \<lparr> an_organizations = True, an_teams = True, an_groups = True, an_roles = True,
     an_attributes = True \<rparr>"

record authorization_context =
  ac_realm :: "string option"
  ac_organizations :: "string list"
  ac_teams :: "string list"
  ac_groups :: "string list"
  ac_roles :: "string list"
  ac_attributes :: "(string \<times> string list) list"

definition default_context :: authorization_context where
  "default_context = \<lparr> ac_realm = None, ac_organizations = [], ac_teams = [], ac_groups = [],
     ac_roles = [], ac_attributes = [] \<rparr>"

datatype auth_provider_error =
    Transport string
  | UnexpectedStatus nat
  | DecodeFailed string
  | ProviderUnauthorized
  | RateLimited
  | InvalidDeviceCode
  | UnknownProvider

fun auth_provider_error_display :: "auth_provider_error \<Rightarrow> string" where
  "auth_provider_error_display (Transport m) = ''auth provider transport error: '' @ m"
| "auth_provider_error_display (UnexpectedStatus s) = ''auth provider returned unexpected status '' @ show_nat s"
| "auth_provider_error_display (DecodeFailed m) = ''failed to decode auth provider response: '' @ m"
| "auth_provider_error_display ProviderUnauthorized = ''auth provider rejected the access token''"
| "auth_provider_error_display RateLimited = ''auth provider rate limit exceeded''"
| "auth_provider_error_display InvalidDeviceCode = ''auth provider rejected the device code''"
| "auth_provider_error_display UnknownProvider = ''unknown authentication provider''"

fun api_from_provider :: "auth_provider_error \<Rightarrow> api_error" where
  "api_from_provider ProviderUnauthorized = Unauthorized ''the access token is invalid or expired''"
| "api_from_provider RateLimited = TooManyRequests ''upstream rate limit exceeded; retry later''"
| "api_from_provider InvalidDeviceCode = BadRequest ''the device_code is invalid''"
| "api_from_provider UnknownProvider = BadRequest ''unknown authentication provider''"
| "api_from_provider e = Internal (auth_provider_error_display e)"

record device_authorization =
  da_device_code :: string
  da_user_code :: string
  da_verification_uri :: string
  da_expires_in :: nat
  da_interval :: nat

datatype device_token_outcome =
    Pending | SlowDown | Expired | Denied
  | Approved (approved_access_token: string) (approved_scope: string)

record auth_provider =
  ap_metadata :: provider_metadata
  ap_start_device_authorization :: "(auth_provider_error, device_authorization) result"
  ap_poll_device_authorization :: "string \<Rightarrow> (auth_provider_error, device_token_outcome) result"
  ap_fetch_identity :: "string \<Rightarrow> (auth_provider_error, authenticated_identity) result"
  ap_resolve_authorization ::
    "string \<Rightarrow> authenticated_identity \<Rightarrow> authorization_needs
       \<Rightarrow> (auth_provider_error, authorization_context) result"

section \<open>Registry\<close>

record provider_registry =
  pr_providers :: "(string \<times> auth_provider) list"
  pr_default_id :: string

definition new_registry :: "string \<Rightarrow> provider_registry" where
  "new_registry default_id = \<lparr> pr_providers = [], pr_default_id = default_id \<rparr>"

definition register :: "provider_registry \<Rightarrow> auth_provider \<Rightarrow> provider_registry" where
  "register reg p =
     (let i = pm_id (ap_metadata p) in
      reg\<lparr> pr_providers := (i, p) # filter (\<lambda>(k, _). k \<noteq> i) (pr_providers reg) \<rparr>)"

definition registry_get :: "provider_registry \<Rightarrow> string \<Rightarrow> auth_provider option" where
  "registry_get reg i = map_of (pr_providers reg) i"

definition selected_id :: "provider_registry \<Rightarrow> string option \<Rightarrow> string" where
  "selected_id reg selector =
     (case map_option trim selector of
        Some s \<Rightarrow> if s \<noteq> [] then s else pr_default_id reg
      | None \<Rightarrow> pr_default_id reg)"

definition registry_resolve ::
  "provider_registry \<Rightarrow> string option \<Rightarrow> (auth_provider_error, auth_provider) result" where
  "registry_resolve reg selector = ok_or UnknownProvider (registry_get reg (selected_id reg selector))"

definition registry_list :: "provider_registry \<Rightarrow> provider_metadata list" where
  "registry_list reg = sort_key pm_id (map (\<lambda>(_, p). ap_metadata p) (pr_providers reg))"

section \<open>From a token to an identity\<close>

definition needs_from_access :: "access_config \<Rightarrow> authorization_needs" where
  "needs_from_access a =
     \<lparr> an_organizations = allowed_orgs a \<noteq> [], an_teams = allowed_teams a \<noteq> [],
       an_groups = allowed_groups a \<noteq> [], an_roles = allowed_roles a \<noteq> [],
       an_attributes = allowed_attributes a \<noteq> [] \<rparr>"

definition identity_of :: "authenticated_identity \<Rightarrow> authorization_context \<Rightarrow> identity" where
  "identity_of authd context =
     \<lparr> id_provider = au_provider authd, id_subject = au_subject authd, id_username = au_username authd,
       id_email = au_email authd, id_display_name = au_display_name authd,
       id_realm = ac_realm context, id_organizations = ac_organizations context,
       id_teams = ac_teams context, id_groups = ac_groups context, id_roles = ac_roles context,
       id_attributes = ac_attributes context \<rparr>"

definition resolve_identity ::
  "provider_registry \<Rightarrow> access_config \<Rightarrow> string option \<Rightarrow> string \<Rightarrow> (api_error, identity) result" where
  "resolve_identity reg access provider_selector token =
     rbind (map_err api_from_provider (registry_resolve reg provider_selector)) (\<lambda>provider.
     rbind (map_err api_from_provider (ap_fetch_identity provider token)) (\<lambda>authd.
     let needs = needs_from_access access in
     rbind (map_err api_from_provider (ap_resolve_authorization provider token authd needs)) (\<lambda>context.
     Inr (identity_of authd context))))"

text \<open>The extractor of \<^verbatim>\<open>Authorization: Bearer <token>\<close>.\<close>

definition bearer_token :: "headers \<Rightarrow> (api_error, string) result" where
  "bearer_token h =
     (case map_of h ''authorization'' of
        None \<Rightarrow> Inl (Unauthorized ''missing authorization header'')
      | Some v \<Rightarrow>
          if list_all is_visible_ascii v then
            ok_or (Unauthorized (''expected '' @ quoted ''Bearer <token>'' @ '' authorization''))
              (Option.bind
                 (map_option trim
                   (case strip_prefix ''Bearer '' v of
                      Some t \<Rightarrow> Some t
                    | None \<Rightarrow> strip_prefix ''bearer '' v))
                 non_blank)
          else Inl (Unauthorized ''malformed authorization header''))"

end
