(* ===== verification/Providers.thy ===== *)
theory Providers
  imports Access
begin

text \<open>
  The two identity providers: GitHub (\<^verbatim>\<open>src/github\<close>, \<^verbatim>\<open>src/auth/github.rs\<close>) and Keycloak or another
  OpenID Connect issuer (\<^verbatim>\<open>src/auth/keycloak\<close>).  What the network answers is a parameter (a response
  for each request, or its failure), and so are the JSON decoders of the response types and the
  functions of \<^verbatim>\<open>jsonwebtoken\<close>.
\<close>

section \<open>GitHub client\<close>

datatype github_error =
    GhTransport string | GhUnexpectedStatus nat | GhDecode string
  | GhUnauthorized | GhRateLimited | GhInvalidDeviceCode

fun provider_from_github :: "github_error \<Rightarrow> auth_provider_error" where
  "provider_from_github (GhTransport m) = Transport m"
| "provider_from_github (GhUnexpectedStatus s) = UnexpectedStatus s"
| "provider_from_github (GhDecode m) = DecodeFailed m"
| "provider_from_github GhUnauthorized = ProviderUnauthorized"
| "provider_from_github GhRateLimited = RateLimited"
| "provider_from_github GhInvalidDeviceCode = InvalidDeviceCode"

fun github_error_display :: "github_error \<Rightarrow> string" where
  "github_error_display (GhTransport m) = ''github transport error: '' @ m"
| "github_error_display (GhUnexpectedStatus s) = ''github returned unexpected status '' @ show_nat s"
| "github_error_display (GhDecode m) = ''failed to decode github response: '' @ m"
| "github_error_display GhUnauthorized = ''github rejected the access token''"
| "github_error_display GhRateLimited = ''github rate limit exceeded''"
| "github_error_display GhInvalidDeviceCode = ''github rejected the device code''"

fun api_from_github :: "github_error \<Rightarrow> api_error" where
  "api_from_github GhUnauthorized = Unauthorized ''the access token is invalid or expired''"
| "api_from_github GhRateLimited = TooManyRequests ''upstream rate limit exceeded; retry later''"
| "api_from_github GhInvalidDeviceCode = BadRequest ''the device_code is invalid''"
| "api_from_github e = Internal (github_error_display e)"

record github_user =
  gu_login :: string
  gu_id :: nat
  gu_name :: "string option"
  gu_email :: "string option"

record http_response =
  hr_status :: nat
  hr_headers :: headers
  hr_body :: string

text \<open>A request as the client builds it: method, URL, form fields and bearer token.\<close>

record http_request =
  hq_method :: string
  hq_url :: string
  hq_form :: "(string \<times> string) list"
  hq_bearer :: "string option"

text \<open>
  The network, and the decoders of response bodies (\<^verbatim>\<open>resp.json::<T>()\<close>); a team is its
  organization's login and its slug.
\<close>

record upstream =
  up_send :: "http_request \<Rightarrow> (string, http_response) result"
  dec_value :: "string \<Rightarrow> (string, json) result"
  dec_device_authorization :: "string \<Rightarrow> (string, device_authorization) result"
  dec_user :: "string \<Rightarrow> (string, github_user) result"
  dec_orgs :: "string \<Rightarrow> (string, string list) result"
  dec_teams :: "string \<Rightarrow> (string, (string \<times> string) list) result"

definition DEVICE_GRANT_TYPE :: string where
  "DEVICE_GRANT_TYPE = ''urn:ietf:params:oauth:grant-type:device_code''"

record github_client =
  gc_client_id :: string
  gc_client_secret :: string
  gc_scope :: string
  gc_device_base_url :: string
  gc_api_base_url :: string

definition new_github_client :: "string \<Rightarrow> string \<Rightarrow> string \<Rightarrow> string \<Rightarrow> string \<Rightarrow> github_client" where
  "new_github_client client_id client_secret scope device_base_url api_base_url =
     \<lparr> gc_client_id = client_id, gc_client_secret = client_secret, gc_scope = scope,
       gc_device_base_url = trim_end_matches (CHR ''/'') device_base_url,
       gc_api_base_url = trim_end_matches (CHR ''/'') api_base_url \<rparr>"

definition auth_status_error :: "http_response \<Rightarrow> github_error" where
  "auth_status_error resp =
     (if hr_status resp = 401 then GhUnauthorized
      else if hr_status resp = 429 then GhRateLimited
      else if hr_status resp = 403 then
        (case header_str (hr_headers resp) ''x-ratelimit-remaining'' of
           Some v \<Rightarrow> if trim v = ''0'' then GhRateLimited else GhUnexpectedStatus 403
         | None \<Rightarrow> GhUnexpectedStatus 403)
      else GhUnexpectedStatus (hr_status resp))"

definition is_success :: "nat \<Rightarrow> bool" where
  "is_success status \<longleftrightarrow> 200 \<le> status \<and> status < 300"

definition start_device_flow :: "upstream \<Rightarrow> github_client \<Rightarrow> (github_error, device_authorization) result" where
  "start_device_flow u c =
     rbind (map_err GhTransport (up_send u
        \<lparr> hq_method = ''POST'', hq_url = gc_device_base_url c @ ''/login/device/code'',
          hq_form = [(''client_id'', gc_client_id c), (''scope'', gc_scope c)], hq_bearer = None \<rparr>))
     (\<lambda>resp.
      if \<not> is_success (hr_status resp) then Inl (GhUnexpectedStatus (hr_status resp))
      else map_err GhDecode (dec_device_authorization u (hr_body resp)))"

definition as_str :: "json \<Rightarrow> string option" where
  "as_str v = (case v of JStr s \<Rightarrow> Some s | _ \<Rightarrow> None)"

definition body_str :: "json \<Rightarrow> string \<Rightarrow> string option" where
  "body_str body key = Option.bind (json_get body key) as_str"

definition or_empty :: "string option \<Rightarrow> string" where
  "or_empty v = (case v of Some s \<Rightarrow> s | None \<Rightarrow> [])"

text \<open>What the token endpoint's body says, with the error codes that reject the device code.\<close>

definition token_outcome ::
  "string list \<Rightarrow> json \<Rightarrow> (string, device_token_outcome option) result" where
  "token_outcome rejections body =
     (case body_str body ''access_token'' of
        Some token \<Rightarrow> Inr (Some (Approved token (or_empty (body_str body ''scope''))))
      | None \<Rightarrow>
          (case body_str body ''error'' of
             Some e \<Rightarrow>
               if e = ''authorization_pending'' then Inr (Some Pending)
               else if e = ''slow_down'' then Inr (Some SlowDown)
               else if e = ''expired_token'' then Inr (Some Expired)
               else if e = ''access_denied'' then Inr (Some Denied)
               else if e \<in> set rejections then Inr None
               else Inl ''token response had neither access_token nor a known error''
           | None \<Rightarrow> Inl ''token response had neither access_token nor a known error''))"

definition poll_device_flow ::
  "upstream \<Rightarrow> github_client \<Rightarrow> string \<Rightarrow> (github_error, device_token_outcome) result" where
  "poll_device_flow u c device_code =
     rbind (map_err GhTransport (up_send u
        \<lparr> hq_method = ''POST'', hq_url = gc_device_base_url c @ ''/login/oauth/access_token'',
          hq_form = [(''client_id'', gc_client_id c), (''client_secret'', gc_client_secret c),
             (''device_code'', device_code), (''grant_type'', DEVICE_GRANT_TYPE)], hq_bearer = None \<rparr>))
     (\<lambda>resp.
      rbind (map_err GhDecode (dec_value u (hr_body resp))) (\<lambda>body.
      rbind (map_err GhDecode
          (token_outcome [''incorrect_device_code'', ''invalid_grant'', ''unsupported_grant_type''] body))
        (\<lambda>outcome. ok_or GhInvalidDeviceCode outcome)))"

definition api_get :: "github_client \<Rightarrow> string \<Rightarrow> string \<Rightarrow> http_request" where
  "api_get c path access_token =
     \<lparr> hq_method = ''GET'', hq_url = gc_api_base_url c @ path, hq_form = [],
       hq_bearer = Some access_token \<rparr>"

definition get_user :: "upstream \<Rightarrow> github_client \<Rightarrow> string \<Rightarrow> (github_error, github_user) result" where
  "get_user u c access_token =
     rbind (map_err GhTransport (up_send u (api_get c ''/user'' access_token))) (\<lambda>resp.
     if hr_status resp = 200 then map_err GhDecode (dec_user u (hr_body resp))
     else Inl (auth_status_error resp))"

definition get_user_orgs :: "upstream \<Rightarrow> github_client \<Rightarrow> string \<Rightarrow> (github_error, string list) result" where
  "get_user_orgs u c access_token =
     rbind (map_err GhTransport (up_send u (api_get c ''/user/orgs'' access_token))) (\<lambda>resp.
     if hr_status resp \<noteq> 200 then Inl (auth_status_error resp)
     else map_err GhDecode (dec_orgs u (hr_body resp)))"

definition get_user_teams :: "upstream \<Rightarrow> github_client \<Rightarrow> string \<Rightarrow> (github_error, string list) result" where
  "get_user_teams u c access_token =
     rbind (map_err GhTransport (up_send u (api_get c ''/user/teams'' access_token))) (\<lambda>resp.
     if hr_status resp \<noteq> 200 then Inl (auth_status_error resp)
     else rbind (map_err GhDecode (dec_teams u (hr_body resp)))
            (\<lambda>teams. Inr (map (\<lambda>(org, slug). org @ ''/'' @ slug) teams)))"

section \<open>GitHub provider\<close>

definition GITHUB_PROVIDER_ID :: string where "GITHUB_PROVIDER_ID = ''github''"

definition fetch_or_empty :: "(github_error, string list) result \<Rightarrow> string list" where
  "fetch_or_empty r = (case r of Inr vs \<Rightarrow> vs | Inl _ \<Rightarrow> [])"

definition github_fetch_identity ::
  "upstream \<Rightarrow> github_client \<Rightarrow> string \<Rightarrow> (auth_provider_error, authenticated_identity) result" where
  "github_fetch_identity u c token =
     rbind (map_err provider_from_github (get_user u c token)) (\<lambda>user.
     Inr \<lparr> au_provider = GITHUB_PROVIDER_ID, au_subject = show_nat (gu_id user),
           au_username = gu_login user, au_email = gu_email user, au_display_name = gu_name user \<rparr>)"

definition github_resolve_authorization ::
  "upstream \<Rightarrow> github_client \<Rightarrow> string \<Rightarrow> authenticated_identity \<Rightarrow> authorization_needs
     \<Rightarrow> (auth_provider_error, authorization_context) result" where
  "github_resolve_authorization u c token authd needs =
     (let organizations = (if an_organizations needs then fetch_or_empty (get_user_orgs u c token) else []);
          teams = (if an_teams needs then fetch_or_empty (get_user_teams u c token) else [])
      in Inr (default_context\<lparr> ac_organizations := organizations, ac_teams := teams \<rparr>))"

definition github_provider :: "upstream \<Rightarrow> github_client \<Rightarrow> auth_provider" where
  "github_provider u c =
     \<lparr> ap_metadata = \<lparr> pm_id = GITHUB_PROVIDER_ID, pm_display_name = ''GitHub'', pm_kind = OAuth2Device \<rparr>,
       ap_start_device_authorization = map_err provider_from_github (start_device_flow u c),
       ap_poll_device_authorization = (\<lambda>code. map_err provider_from_github (poll_device_flow u c code)),
       ap_fetch_identity = github_fetch_identity u c,
       ap_resolve_authorization = github_resolve_authorization u c \<rparr>"

section \<open>Keycloak claims\<close>

definition KEYCLOAK_PROVIDER_ID :: string where "KEYCLOAK_PROVIDER_ID = ''keycloak''"

record keycloak_claims =
  kc_sub :: string
  kc_preferred_username :: "string option"
  kc_email :: "string option"
  kc_name :: "string option"
  kc_realm_access :: "string list option"
  kc_resource_access :: "(string \<times> string list) list option"
  kc_groups :: "string list"
  kc_extra :: "(string \<times> json) list"

definition to_identity :: "keycloak_claims \<Rightarrow> authenticated_identity" where
  "to_identity c =
     (let username = (case Option.bind (kc_preferred_username c) non_blank of
                        Some u \<Rightarrow> u | None \<Rightarrow> kc_sub c)
      in \<lparr> au_provider = KEYCLOAK_PROVIDER_ID, au_subject = kc_sub c, au_username = username,
           au_email = kc_email c, au_display_name = kc_name c \<rparr>)"

definition push_role :: "string list \<Rightarrow> string \<Rightarrow> string list" where
  "push_role roles r =
     (if r \<noteq> [] \<and> \<not> list_ex (\<lambda>y. eq_ignore_ascii_case y r) roles then roles @ [r] else roles)"

definition collect_roles :: "keycloak_claims \<Rightarrow> string list" where
  "collect_roles c =
     (let roles = (case kc_realm_access c of Some rs \<Rightarrow> foldl push_role [] rs | None \<Rightarrow> [])
      in case kc_resource_access c of
           Some res \<Rightarrow>
             foldl (\<lambda>acc (client, rs).
                foldl (\<lambda>acc r. push_role (push_role acc (client @ ''/'' @ r)) r) acc rs) roles res
         | None \<Rightarrow> roles)"

definition MAX_ATTRS :: nat where "MAX_ATTRS = 64"
definition MAX_VALUES :: nat where "MAX_VALUES = 64"

fun collect_attributes_loop ::
  "(string \<times> string list) list \<Rightarrow> (string \<times> json) list \<Rightarrow> (string \<times> string list) list" where
  "collect_attributes_loop out [] = out"
| "collect_attributes_loop out ((key, v) # rest) =
     (if length out \<ge> MAX_ATTRS then out
      else
        collect_attributes_loop
          (case v of
             JStr s \<Rightarrow> btree_insert key [s] out
           | JArr items \<Rightarrow>
               (let values = take MAX_VALUES (List.map_filter as_str items)
                in if values \<noteq> [] then btree_insert key values out else out)
           | _ \<Rightarrow> out) rest)"

definition collect_attributes :: "keycloak_claims \<Rightarrow> (string \<times> string list) list" where
  "collect_attributes c = collect_attributes_loop [] (kc_extra c)"

definition realm_from_issuer :: "string \<Rightarrow> string option" where
  "realm_from_issuer issuer =
     Option.bind
       (map_option (\<lambda>(_, realm). trim_matches (CHR ''/'') realm)
          (rsplit_once_str ''/realms/'' (trim_end_matches (CHR ''/'') issuer)))
       non_blank"

definition normalize_groups :: "string list \<Rightarrow> string list" where
  "normalize_groups groups = filter (\<lambda>g. g \<noteq> []) (map (trim_start_matches (CHR ''/'')) groups)"

definition to_authorization :: "keycloak_claims \<Rightarrow> string \<Rightarrow> authorization_context" where
  "to_authorization c issuer =
     \<lparr> ac_realm = realm_from_issuer issuer, ac_organizations = [], ac_teams = [],
       ac_groups = normalize_groups (kc_groups c), ac_roles = collect_roles c,
       ac_attributes = collect_attributes c \<rparr>"

section \<open>Token verification\<close>

datatype jwt_algorithm =
    HS256 | HS384 | HS512 | ES256 | ES384 | RS256 | RS384 | RS512 | PS256 | PS384 | PS512 | EdDSA

text \<open>A key's declared algorithm: a signature algorithm, or one for encryption or unknown.\<close>

datatype jwk_algorithm = SignatureAlgorithm jwt_algorithm | OtherKeyAlgorithm string

datatype jwk_family = RSA | EllipticCurve | OctetKey | OctetKeyPair

record jwk =
  jwk_kid :: "string option"
  jwk_key_algorithm :: "jwk_algorithm option"
  jwk_family :: jwk_family
  jwk_material :: string

record jwt_header =
  jh_alg :: jwt_algorithm
  jh_kid :: "string option"

record oidc_discovery =
  od_issuer :: string
  od_token_endpoint :: "string option"
  od_device_authorization_endpoint :: "string option"
  od_jwks_uri :: string

record keycloak_config =
  kcc_issuer_url :: string
  kcc_client_id :: string
  kcc_client_secret :: "string option"
  kcc_scopes :: string
  kcc_audience :: "string option"
  kcc_clock_skew_secs :: nat

record jwt_validation =
  jv_algorithms :: "jwt_algorithm list"
  jv_issuer :: "string list"
  jv_audience :: "string list option"
  jv_leeway :: nat
  jv_validate_nbf :: bool

datatype jwt_error_kind =
    InvalidSignature | ExpiredSignature | ImmatureSignature | InvalidIssuer | InvalidAudience
  | InvalidAlgorithm | MissingRequiredClaim string | OtherJwtError

text \<open>The functions of \<^verbatim>\<open>jsonwebtoken\<close>; an error is its kind and its text.\<close>

record jwt_library =
  decode_header :: "string \<Rightarrow> (string, jwt_header) result"
  decoding_key_from_jwk :: "jwk \<Rightarrow> (string, byte list) result"
  jwt_decode :: "string \<Rightarrow> byte list \<Rightarrow> jwt_validation \<Rightarrow> (jwt_error_kind \<times> string, keycloak_claims) result"

fun key_algorithm_to_algorithm :: "jwk_algorithm \<Rightarrow> (auth_provider_error, jwt_algorithm) result" where
  "key_algorithm_to_algorithm (SignatureAlgorithm a) =
     (if a \<in> {HS256, HS384, HS512} then Inl ProviderUnauthorized else Inr a)"
| "key_algorithm_to_algorithm (OtherKeyAlgorithm _) = Inl ProviderUnauthorized"

definition algorithm_for_jwk :: "jwk \<Rightarrow> (auth_provider_error, jwt_algorithm) result" where
  "algorithm_for_jwk k =
     (case jwk_key_algorithm k of
        Some a \<Rightarrow> key_algorithm_to_algorithm a
      | None \<Rightarrow>
          (case jwk_family k of
             RSA \<Rightarrow> Inr RS256
           | EllipticCurve \<Rightarrow> Inr ES256
           | _ \<Rightarrow> Inl ProviderUnauthorized))"

fun map_jwt_error :: "jwt_error_kind \<times> string \<Rightarrow> auth_provider_error" where
  "map_jwt_error (OtherJwtError, m) = DecodeFailed m"
| "map_jwt_error (_, m) = ProviderUnauthorized"

definition verify_access_token ::
  "jwt_library \<Rightarrow> string \<Rightarrow> jwk \<Rightarrow> oidc_discovery \<Rightarrow> keycloak_config
     \<Rightarrow> (auth_provider_error, keycloak_claims) result" where
  "verify_access_token l token k discovery config =
     rbind (map_err DecodeFailed (decode_header l token)) (\<lambda>header.
     rbind (algorithm_for_jwk k) (\<lambda>expected_alg.
     if jh_alg header \<noteq> expected_alg then Inl ProviderUnauthorized
     else
       rbind (map_err DecodeFailed (decoding_key_from_jwk l k)) (\<lambda>key.
       let validation =
             \<lparr> jv_algorithms = [expected_alg], jv_issuer = [od_issuer discovery],
               jv_audience = map_option (\<lambda>aud. [aud]) (kcc_audience config),
               jv_leeway = kcc_clock_skew_secs config, jv_validate_nbf = True \<rparr>
       in map_err map_jwt_error (jwt_decode l token key validation))))"

section \<open>Discovery and signing keys\<close>

definition kcc_issuer :: "keycloak_config \<Rightarrow> string" where
  "kcc_issuer c = trim_end_matches (CHR ''/'') (kcc_issuer_url c)"

definition discovery_url :: "keycloak_config \<Rightarrow> string" where
  "discovery_url c = kcc_issuer c @ ''/.well-known/openid-configuration''"

definition device_endpoint_convention :: "keycloak_config \<Rightarrow> string" where
  "device_endpoint_convention c = kcc_issuer c @ ''/protocol/openid-connect/auth/device''"

definition token_endpoint_convention :: "keycloak_config \<Rightarrow> string" where
  "token_endpoint_convention c = kcc_issuer c @ ''/protocol/openid-connect/token''"

definition MIN_JWKS_REFRESH :: int where "MIN_JWKS_REFRESH = seconds 30"

record oidc_cache =
  oc_discovery :: "oidc_discovery option"
  oc_set :: "jwk list option"
  oc_last_refresh :: "instant option"

definition empty_oidc_cache :: oidc_cache where
  "empty_oidc_cache = \<lparr> oc_discovery = None, oc_set = None, oc_last_refresh = None \<rparr>"

text \<open>\<^verbatim>\<open>fetch_discovery\<close> and \<^verbatim>\<open>fetch_jwks\<close>: the network's answers to one document fetch.\<close>

definition fetch_document ::
  "upstream \<Rightarrow> (string \<Rightarrow> (string, 'a) result) \<Rightarrow> string \<Rightarrow> string \<Rightarrow> (auth_provider_error, 'a) result" where
  "fetch_document u dec what url =
     rbind (map_err Transport (up_send u
        \<lparr> hq_method = ''GET'', hq_url = url, hq_form = [], hq_bearer = None \<rparr>)) (\<lambda>resp.
     if \<not> is_success (hr_status resp) then Inl (UnexpectedStatus (hr_status resp))
     else map_err (\<lambda>e. DecodeFailed (what @ '': '' @ e)) (dec (hr_body resp)))"

definition oidc_discover ::
  "(auth_provider_error, oidc_discovery) result \<Rightarrow> oidc_cache
     \<Rightarrow> (auth_provider_error, oidc_discovery) result \<times> oidc_cache" where
  "oidc_discover fetched cache =
     (case oc_discovery cache of
        Some d \<Rightarrow> (Inr d, cache)
      | None \<Rightarrow>
          (case fetched of
             Inl e \<Rightarrow> (Inl e, cache)
           | Inr doc \<Rightarrow> (Inr doc, cache\<lparr> oc_discovery := Some doc \<rparr>)))"

definition jwks_find :: "oidc_cache \<Rightarrow> string \<Rightarrow> jwk option" where
  "jwks_find cache kid =
     (case oc_set cache of None \<Rightarrow> None | Some ks \<Rightarrow> find (\<lambda>k. jwk_kid k = Some kid) ks)"

text \<open>The last component says whether the signing keys were fetched.\<close>

definition jwk_for_kid ::
  "(auth_provider_error, oidc_discovery) result \<Rightarrow> (string \<Rightarrow> (auth_provider_error, jwk list) result)
     \<Rightarrow> instant \<Rightarrow> oidc_cache \<Rightarrow> string
     \<Rightarrow> (auth_provider_error, jwk) result \<times> oidc_cache \<times> bool" where
  "jwk_for_kid discovered fetch_jwks now cache kid =
     (case jwks_find cache kid of
        Some k \<Rightarrow> (Inr k, cache, False)
      | None \<Rightarrow>
          (case oidc_discover discovered cache of
             (Inl e, cache) \<Rightarrow> (Inl e, cache, False)
           | (Inr d, cache) \<Rightarrow>
               if (case oc_last_refresh cache of
                     Some at \<Rightarrow> now - at < MIN_JWKS_REFRESH \<and> oc_set cache \<noteq> None
                   | None \<Rightarrow> False)
               then (Inl ProviderUnauthorized, cache, False)
               else
                 (case fetch_jwks (od_jwks_uri d) of
                    Inl e \<Rightarrow> (Inl e, cache, True)
                  | Inr ks \<Rightarrow>
                      let cache = cache\<lparr> oc_set := Some ks, oc_last_refresh := Some now \<rparr>
                      in (ok_or ProviderUnauthorized (jwks_find cache kid), cache, True))))"

section \<open>Keycloak provider\<close>

definition verified_claims ::
  "jwt_library \<Rightarrow> keycloak_config \<Rightarrow> (auth_provider_error, oidc_discovery) result
     \<Rightarrow> (string \<Rightarrow> (auth_provider_error, jwk list) result) \<Rightarrow> instant \<Rightarrow> oidc_cache \<Rightarrow> string
     \<Rightarrow> (auth_provider_error, keycloak_claims \<times> string) result \<times> oidc_cache" where
  "verified_claims l config discovered fetch_jwks now cache access_token =
     (case oidc_discover discovered cache of
        (Inl e, cache) \<Rightarrow> (Inl e, cache)
      | (Inr discovery, cache) \<Rightarrow>
          (case rbind (map_err DecodeFailed (decode_header l access_token))
                  (\<lambda>h. ok_or (DecodeFailed (''access token has no '' @ quoted ''kid'')) (jh_kid h)) of
             Inl e \<Rightarrow> (Inl e, cache)
           | Inr kid \<Rightarrow>
               (case jwk_for_kid discovered fetch_jwks now cache kid of
                  (Inl e, cache, _) \<Rightarrow> (Inl e, cache)
                | (Inr k, cache, _) \<Rightarrow>
                    (rbind (verify_access_token l access_token k discovery config)
                       (\<lambda>claims. Inr (claims, od_issuer discovery)), cache))))"

definition keycloak_start ::
  "upstream \<Rightarrow> keycloak_config \<Rightarrow> (auth_provider_error, oidc_discovery) result
     \<Rightarrow> (auth_provider_error, device_authorization) result" where
  "keycloak_start u config discovered =
     (let endpoint = (case discovered of
            Inr d \<Rightarrow> (case od_device_authorization_endpoint d of
                        Some e \<Rightarrow> e | None \<Rightarrow> device_endpoint_convention config)
          | Inl _ \<Rightarrow> device_endpoint_convention config);
          secret = (case kcc_client_secret config of Some s \<Rightarrow> [(''client_secret'', s)] | None \<Rightarrow> []);
          field = (\<lambda>body key. ok_or (DecodeFailed (''missing field '' @ quoted key)) (body_str body key));
          number = (\<lambda>body key dflt. case json_get body key of
             Some (JNum n) \<Rightarrow> if 0 \<le> n \<and> n < 2 ^ 64 then nat n else dflt | _ \<Rightarrow> dflt)
      in rbind (map_err Transport (up_send u
            \<lparr> hq_method = ''POST'', hq_url = endpoint,
              hq_form = [(''client_id'', kcc_client_id config), (''scope'', kcc_scopes config)] @ secret,
              hq_bearer = None \<rparr>)) (\<lambda>resp.
         if \<not> is_success (hr_status resp) then Inl (UnexpectedStatus (hr_status resp))
         else
           rbind (map_err DecodeFailed (dec_value u (hr_body resp))) (\<lambda>body.
           rbind (field body ''device_code'') (\<lambda>device_code.
           rbind (field body ''user_code'') (\<lambda>user_code.
           rbind (field body ''verification_uri'') (\<lambda>verification_uri.
           Inr \<lparr> da_device_code = device_code, da_user_code = user_code,
                 da_verification_uri = verification_uri,
                 da_expires_in = number body ''expires_in'' 0,
                 da_interval = number body ''interval'' 5 \<rparr>))))))"

definition keycloak_poll ::
  "upstream \<Rightarrow> keycloak_config \<Rightarrow> (auth_provider_error, oidc_discovery) result \<Rightarrow> string
     \<Rightarrow> (auth_provider_error, device_token_outcome) result" where
  "keycloak_poll u config discovered device_code =
     (let endpoint = (case discovered of
            Inr d \<Rightarrow> (case od_token_endpoint d of Some e \<Rightarrow> e | None \<Rightarrow> token_endpoint_convention config)
          | Inl _ \<Rightarrow> token_endpoint_convention config);
          secret = (case kcc_client_secret config of Some s \<Rightarrow> [(''client_secret'', s)] | None \<Rightarrow> [])
      in rbind (map_err Transport (up_send u
            \<lparr> hq_method = ''POST'', hq_url = endpoint,
              hq_form = [(''client_id'', kcc_client_id config), (''device_code'', device_code),
                 (''grant_type'', DEVICE_GRANT_TYPE)] @ secret,
              hq_bearer = None \<rparr>)) (\<lambda>resp.
         if hr_status resp \<noteq> 200 \<and> hr_status resp \<noteq> 400 then Inl (UnexpectedStatus (hr_status resp))
         else
           rbind (map_err DecodeFailed (dec_value u (hr_body resp))) (\<lambda>body.
           rbind (map_err DecodeFailed (token_outcome [''invalid_grant'', ''unsupported_grant_type''] body))
             (\<lambda>outcome. ok_or InvalidDeviceCode outcome))))"

text \<open>
  The provider over two verifications: each of \<^verbatim>\<open>fetch_identity\<close> and \<^verbatim>\<open>resolve_authorization\<close> verifies the
  token with the cache as it is then, so their verdicts are two functions.
\<close>

definition keycloak_provider ::
  "upstream \<Rightarrow> keycloak_config \<Rightarrow> (auth_provider_error, oidc_discovery) result
     \<Rightarrow> (string \<Rightarrow> (auth_provider_error, keycloak_claims \<times> string) result)
     \<Rightarrow> (string \<Rightarrow> (auth_provider_error, keycloak_claims \<times> string) result) \<Rightarrow> auth_provider" where
  "keycloak_provider u config discovered verified verified' =
     \<lparr> ap_metadata = \<lparr> pm_id = KEYCLOAK_PROVIDER_ID, pm_display_name = ''Keycloak'', pm_kind = OidcDevice \<rparr>,
       ap_start_device_authorization = keycloak_start u config discovered,
       ap_poll_device_authorization = keycloak_poll u config discovered,
       ap_fetch_identity = (\<lambda>token. rbind (verified token) (\<lambda>(claims, _). Inr (to_identity claims))),
       ap_resolve_authorization = (\<lambda>token _ _.
          rbind (verified' token) (\<lambda>(claims, issuer). Inr (to_authorization claims issuer))) \<rparr>"

section \<open>The provider interface\<close>

lemma any_ci_needed: "allowlist \<noteq> [] \<longrightarrow> xs = ys \<Longrightarrow> any_ci allowlist xs = any_ci allowlist ys"
  by (cases allowlist) (simp_all add: any_ci_def contains_ci_def list_ex_iff)

lemma is_allowed_authorize:
  "is_allowed (authorize x access i) \<longleftrightarrow>
     contains_ci (allowed_users access) (id_username i)
   \<or> any_ci (allowed_orgs access) (id_organizations i) \<or> any_ci (allowed_teams access) (id_teams i)
   \<or> any_ci (allowed_groups access) (id_groups i) \<or> any_ci (allowed_roles access) (id_roles i)
   \<or> attribute_match access i"
  by (simp add: authorize_def)

text \<open>
  What the rest of the server relies on: an identity is attributed to the provider that
  answered, resolving facts succeeds or fails independently of the needs, and a fact that is needed is
  resolved in full.
\<close>

locale identity_source =
  fixes provider_id :: string
    and fetch :: "string \<Rightarrow> (auth_provider_error, authenticated_identity) result"
    and facts :: "string \<Rightarrow> authenticated_identity \<Rightarrow> authorization_needs
          \<Rightarrow> (auth_provider_error, authorization_context) result"
  assumes attributed: "fetch token = Inr authd \<Longrightarrow> au_provider authd = provider_id"
    and same_error: "facts token authd n = Inl e \<longleftrightarrow> facts token authd needs_all = Inl e"
    and needed_facts: "facts token authd n = Inr c \<Longrightarrow> facts token authd needs_all = Inr c' \<Longrightarrow>
        (an_organizations n \<longrightarrow> ac_organizations c = ac_organizations c')
      \<and> (an_teams n \<longrightarrow> ac_teams c = ac_teams c') \<and> (an_groups n \<longrightarrow> ac_groups c = ac_groups c')
      \<and> (an_roles n \<longrightarrow> ac_roles c = ac_roles c') \<and> (an_attributes n \<longrightarrow> ac_attributes c = ac_attributes c')"
begin

lemma decision_with_needs:
  assumes "facts token authd (needs_from_access access) = Inr c" "facts token authd needs_all = Inr c'"
  shows "is_allowed (authorize x access (identity_of authd c)) = is_allowed (authorize x access (identity_of authd c'))"
proof -
  have f: "allowed_orgs access \<noteq> [] \<longrightarrow> ac_organizations c = ac_organizations c'"
    "allowed_teams access \<noteq> [] \<longrightarrow> ac_teams c = ac_teams c'"
    "allowed_groups access \<noteq> [] \<longrightarrow> ac_groups c = ac_groups c'"
    "allowed_roles access \<noteq> [] \<longrightarrow> ac_roles c = ac_roles c'"
    "allowed_attributes access \<noteq> [] \<longrightarrow> ac_attributes c = ac_attributes c'"
    using needed_facts [OF assms] unfolding needs_from_access_def authorization_needs.simps by blast+
  have "attribute_match access (identity_of authd c) = attribute_match access (identity_of authd c')"
    using f(5) by (cases "allowed_attributes access = []") (simp_all add: attribute_match_def identity_of_def)
  then show ?thesis
    using any_ci_needed [OF f(1)] any_ci_needed [OF f(2)] any_ci_needed [OF f(3)] any_ci_needed [OF f(4)]
    by (simp add: is_allowed_authorize identity_of_def)
qed

end

interpretation github: identity_source GITHUB_PROVIDER_ID "github_fetch_identity u c"
    "github_resolve_authorization u c" for u c
  by unfold_locales (auto simp: github_fetch_identity_def github_resolve_authorization_def result_simps
      needs_all_def Let_def default_context_def)

interpretation keycloak: identity_source KEYCLOAK_PROVIDER_ID
    "ap_fetch_identity (keycloak_provider u config discovered verified verified')"
    "ap_resolve_authorization (keycloak_provider u config discovered verified verified')"
    for u config discovered verified verified'
  by unfold_locales (auto simp: keycloak_provider_def to_identity_def Let_def result_simps)

section \<open>Authorization\<close>

lemma contains_ci_iff:
  "contains_ci allowlist v \<longleftrightarrow> to_ascii_lowercase v \<in> to_ascii_lowercase ` set allowlist"
  by (auto simp: contains_ci_def list_ex_iff eq_ignore_ascii_case_def image_iff) metis+

lemma any_ci_iff:
  "any_ci allowlist facts \<longleftrightarrow> to_ascii_lowercase ` set facts \<inter> to_ascii_lowercase ` set allowlist \<noteq> {}"
  by (auto simp: any_ci_def list_ex_iff contains_ci_iff)

lemma attribute_match_keys:
  assumes "attribute_match access i"
  obtains entry k v k' vs v' where "entry \<in> set (allowed_attributes access)" "entry = k @ CHR ''='' # v"
    "(k', vs) \<in> set (id_attributes i)" "v' \<in> set vs"
    "eq_ignore_ascii_case k' (trim k)" "eq_ignore_ascii_case v' (trim v)"
proof -
  from assms obtain entry where e: "entry \<in> set (allowed_attributes access)"
    "attribute_entry_match (id_attributes i) entry"
    by (auto simp: attribute_match_def list_ex_iff split: if_splits)
  from e(2) obtain k v where kv: "split_once (CHR ''='') entry = Some (k, v)"
    by (auto simp: attribute_entry_match_def split: option.splits)
  with e(2) obtain k' vs v' where f: "find (\<lambda>(k', _). eq_ignore_ascii_case k' (trim k)) (id_attributes i) = Some (k', vs)"
    "v' \<in> set vs" "eq_ignore_ascii_case v' (trim v)"
    by (auto simp: attribute_entry_match_def Let_def list_ex_iff split: option.splits)
  then have "(k', vs) \<in> set (id_attributes i)" "eq_ignore_ascii_case k' (trim k)"
    by (auto simp: find_Some_iff in_set_conv_nth)
  with that e(1) kv f(2,3) show thesis by (auto simp: split_once_Some_iff)
qed

text \<open>
  C17. Authorization is deny by default and only by configured facts: if a caller is allowed, their
  user name, one of their organizations, teams, groups or roles is listed, up to
  ASCII case, or an attribute of theirs carries a listed value; the empty configuration denies everyone; and a
  denial discloses no reason to the caller.
\<close>

theorem authorize_only_listed:
  "(is_allowed (authorize x access i) \<longrightarrow>
      to_ascii_lowercase (id_username i) \<in> to_ascii_lowercase ` set (allowed_users access)
    \<or> to_ascii_lowercase ` set (id_organizations i) \<inter> to_ascii_lowercase ` set (allowed_orgs access) \<noteq> {}
    \<or> to_ascii_lowercase ` set (id_teams i) \<inter> to_ascii_lowercase ` set (allowed_teams access) \<noteq> {}
    \<or> to_ascii_lowercase ` set (id_groups i) \<inter> to_ascii_lowercase ` set (allowed_groups access) \<noteq> {}
    \<or> to_ascii_lowercase ` set (id_roles i) \<inter> to_ascii_lowercase ` set (allowed_roles access) \<noteq> {}
    \<or> (\<exists>k v k' vs v'. k @ CHR ''='' # v \<in> set (allowed_attributes access)
         \<and> (k', vs) \<in> set (id_attributes i) \<and> v' \<in> set vs
         \<and> eq_ignore_ascii_case k' (trim k) \<and> eq_ignore_ascii_case v' (trim v)))
   \<and> \<not> is_allowed (authorize x default_access i)
   \<and> (\<forall>reason. api_into_response (api_from_denied reason) = api_into_response (Forbidden ''access denied''))"
proof -
  have "\<not> is_allowed (authorize x default_access i)"
    by (simp add: is_allowed_authorize default_access_def attribute_match_def contains_ci_def any_ci_def list_ex_iff)
  moreover have "\<exists>k v k' vs v'. k @ CHR ''='' # v \<in> set (allowed_attributes access)
         \<and> (k', vs) \<in> set (id_attributes i) \<and> v' \<in> set vs
         \<and> eq_ignore_ascii_case k' (trim k) \<and> eq_ignore_ascii_case v' (trim v)"
    if "attribute_match access i"
    using attribute_match_keys [OF that] by metis
  ultimately show ?thesis
    unfolding is_allowed_authorize [of x access] contains_ci_iff any_ci_iff api_from_denied_def by blast
qed

theorem authorize_only_listed_witness:
  "is_allowed (authorize ref_externals (default_access\<lparr> allowed_users := [''Ann''] \<rparr>) (new_identity ''github'' ''1'' ''ann''))
   \<and> to_ascii_lowercase ''ann'' \<in> to_ascii_lowercase ` {''Ann''}"
proof -
  have "is_allowed (authorize ref_externals (default_access\<lparr> allowed_users := [''Ann''] \<rparr>)
      (new_identity ''github'' ''1'' ''ann''))"
  proof -
    have "eq_ignore_ascii_case ''Ann'' ''ann''" by code_simp
    then show ?thesis by (simp add: is_allowed_authorize contains_ci_def new_identity_def default_access_def)
  qed
  with authorize_only_listed [of ref_externals "default_access\<lparr> allowed_users := [''Ann''] \<rparr>"
      "new_identity ''github'' ''1'' ''ann''"]
  show ?thesis by (simp add: new_identity_def default_access_def)
qed

text \<open>
  C18. Resolving only the facts that the policy mentions does not change who is allowed: for GitHub,
  where each skipped fact saves an API call, the decision with the needed facts is the decision with
  all facts, and a failed membership lookup can only take access away.
\<close>

theorem github_needs_suffice:
  "\<exists>c c' c0. github_resolve_authorization u cl token authd (needs_from_access access) = Inr c
     \<and> github_resolve_authorization u cl token authd needs_all = Inr c'
     \<and> github_resolve_authorization (u\<lparr> up_send := \<lambda>_. Inl e \<rparr>) cl token authd needs_all = Inr c0
     \<and> is_allowed (authorize x access (identity_of authd c)) = is_allowed (authorize x access (identity_of authd c'))
     \<and> (is_allowed (authorize x access (identity_of authd c0)) \<longrightarrow> is_allowed (authorize x access (identity_of authd c)))"
proof -
  obtain c c' c0 where c: "github_resolve_authorization u cl token authd (needs_from_access access) = Inr c"
    "github_resolve_authorization u cl token authd needs_all = Inr c'"
    "github_resolve_authorization (u\<lparr> up_send := \<lambda>_. Inl e \<rparr>) cl token authd needs_all = Inr c0"
    by (simp add: github_resolve_authorization_def)
  note same = github.decision_with_needs [OF c(1,2)]
  have "is_allowed (authorize x access (identity_of authd c'))"
    if "is_allowed (authorize x access (identity_of authd c0))"
    using that c(2,3)
    by (auto simp: github_resolve_authorization_def needs_all_def is_allowed_authorize identity_of_def
        fetch_or_empty_def get_user_orgs_def get_user_teams_def default_context_def attribute_match_def any_ci_def)
  with c same show ?thesis by metis
qed

definition demo_upstream :: upstream where
  "demo_upstream = \<lparr> up_send = (\<lambda>_. Inl ''unreachable''), dec_value = (\<lambda>_. Inl []),
     dec_device_authorization = (\<lambda>_. Inl []), dec_user = (\<lambda>_. Inl []), dec_orgs = (\<lambda>_. Inl []),
     dec_teams = (\<lambda>_. Inl []) \<rparr>"

definition demo_authd :: authenticated_identity where
  "demo_authd = \<lparr> au_provider = ''github'', au_subject = ''1'', au_username = ''ann'', au_email = None,
     au_display_name = None \<rparr>"

theorem github_needs_suffice_witness:
  "\<exists>c. github_resolve_authorization demo_upstream (new_github_client ''i'' ''s'' ''r'' ''d'' ''a'') ''t'' demo_authd
      (needs_from_access (default_access\<lparr> allowed_users := [''ann''] \<rparr>)) = Inr c
    \<and> is_allowed (authorize ref_externals (default_access\<lparr> allowed_users := [''ann''] \<rparr>) (identity_of demo_authd c))"
proof -
  have "is_allowed (authorize ref_externals (default_access\<lparr> allowed_users := [''ann''] \<rparr>) (identity_of demo_authd c0))" for c0
    by (simp add: is_allowed_authorize identity_of_def demo_authd_def contains_ci_def)
  with github_needs_suffice [of demo_upstream "new_github_client ''i'' ''s'' ''r'' ''d'' ''a''" "''t''" demo_authd
      "default_access\<lparr> allowed_users := [''ann''] \<rparr>" "''e''" ref_externals]
  show ?thesis by blast
qed

section \<open>Attribution\<close>

lemma register_get: "registry_get (register reg p) i =
    (if i = pm_id (ap_metadata p) then Some p else registry_get reg i)"
proof -
  have "map_of (filter (\<lambda>(k, _). k \<noteq> j) ps) i = map_of ps i" if "i \<noteq> j" for j and ps :: "(string \<times> auth_provider) list"
    using that by (induction ps) auto
  then show ?thesis by (auto simp: register_def registry_get_def Let_def)
qed

lemma registry_get_new [simp]: "registry_get (new_registry d) i = None"
  by (simp add: registry_get_def new_registry_def)

text \<open>The registry that the state builds: GitHub, then the extra providers.\<close>

definition state_providers :: "string option \<Rightarrow> auth_provider \<Rightarrow> auth_provider list \<Rightarrow> provider_registry" where
  "state_providers default_provider gh extras =
     foldl register
       (register (new_registry (case default_provider of Some d \<Rightarrow> d | None \<Rightarrow> GITHUB_PROVIDER_ID)) gh) extras"

definition attributes_to_itself :: "auth_provider \<Rightarrow> bool" where
  "attributes_to_itself p \<longleftrightarrow>
     (\<forall>token authd. ap_fetch_identity p token = Inr authd \<longrightarrow> au_provider authd = pm_id (ap_metadata p))"

lemma github_attributes: "attributes_to_itself (github_provider u c)"
  using github.attributed by (simp add: attributes_to_itself_def github_provider_def)

lemma keycloak_metadata_id [simp]:
  "pm_id (ap_metadata (keycloak_provider u config discovered verified verified')) = KEYCLOAK_PROVIDER_ID"
  by (simp add: keycloak_provider_def)

lemma keycloak_attributes: "attributes_to_itself (keycloak_provider u config discovered verified verified')"
  using keycloak.attributed by (simp add: attributes_to_itself_def)

text \<open>
  What a caller may expect who asks for the provider with identifier \<open>i\<close> among \<open>ps\<close>: an identity is the one that this provider
  gives for the token, under its name; and when no provider has the identifier the answer is a refusal.
\<close>

definition answers_for :: "auth_provider list \<Rightarrow> string \<Rightarrow> string \<Rightarrow> (api_error, identity) result \<Rightarrow> bool" where
  "answers_for ps i token answer \<longleftrightarrow>
     (if i \<in> set (map (\<lambda>p. pm_id (ap_metadata p)) ps)
      then \<forall>ident. answer = Inr ident \<longrightarrow>
        (\<exists>p \<in> set ps. \<exists>authd. pm_id (ap_metadata p) = i \<and> ap_fetch_identity p token = Inr authd \<and> id_provider ident = i
           \<and> id_subject ident = au_subject authd \<and> id_username ident = au_username authd)
      else answer = Inl (BadRequest ''unknown authentication provider''))"

lemma foldl_register_get:
  "registry_get (foldl register reg ps) i =
     (case find (\<lambda>p. pm_id (ap_metadata p) = i) (rev ps) of Some p \<Rightarrow> Some p | None \<Rightarrow> registry_get reg i)"
  by (induction ps arbitrary: reg rule: rev_induct) (auto simp: register_get)

lemma state_providers_get:
  "registry_get (state_providers d gh extras) i = find (\<lambda>p. pm_id (ap_metadata p) = i) (rev (gh # extras))"
  by (auto simp: state_providers_def foldl_register_get register_get find_append split: option.splits)

lemma state_providers_default:
  "pr_default_id (state_providers d gh extras) = (case d of Some i \<Rightarrow> i | None \<Rightarrow> GITHUB_PROVIDER_ID)"
proof -
  have "pr_default_id (foldl register reg ps) = pr_default_id reg" for reg ps
    by (induction ps arbitrary: reg) (auto simp: register_def Let_def)
  then show ?thesis by (simp add: state_providers_def register_def new_registry_def Let_def)
qed

lemma resolve_answers_for:
  assumes "list_all attributes_to_itself (gh # extras)"
  shows "answers_for (gh # extras) (selected_id (state_providers d gh extras) selector) token
    (resolve_identity (state_providers d gh extras) access selector token)"
proof -
  let ?reg = "state_providers d gh extras"
  let ?i = "selected_id ?reg selector"
  show ?thesis
  proof (cases "find (\<lambda>p. pm_id (ap_metadata p) = ?i) (rev (gh # extras))")
    case None
    then have "?i \<notin> set (map (\<lambda>p. pm_id (ap_metadata p)) (gh # extras))" by (auto simp: find_None_iff)
    moreover have "resolve_identity ?reg access selector token = Inl (BadRequest ''unknown authentication provider'')"
      using None by (simp add: resolve_identity_def registry_resolve_def state_providers_get)
    ultimately show ?thesis by (simp add: answers_for_def)
  next
    case (Some p)
    then have p: "p \<in> set (gh # extras)" "pm_id (ap_metadata p) = ?i"
      using find_SomeD [OF Some] by simp_all
    have answer: "\<exists>authd. ap_fetch_identity p token = Inr authd \<and> id_provider ident = au_provider authd
        \<and> id_subject ident = au_subject authd \<and> id_username ident = au_username authd"
      if "resolve_identity ?reg access selector token = Inr ident" for ident
      using that Some
      by (auto simp: resolve_identity_def registry_resolve_def state_providers_get result_simps identity_of_def Let_def)
    have "attributes_to_itself p" using assms p(1) by (auto simp: list_all_iff)
    then have self: "au_provider authd = ?i" if "ap_fetch_identity p token = Inr authd" for authd
      using that p(2) unfolding attributes_to_itself_def by metis
    have "?i \<in> (\<lambda>p. pm_id (ap_metadata p)) ` set (gh # extras)" using p by (metis imageI)
    then show ?thesis unfolding answers_for_def set_map using answer self p by (simp del: set_simps) metis
  qed
qed

text \<open>
  C19. Identities are attributed to the provider that was asked.  The server registers GitHub, and Keycloak when it is configured.  A caller
  who names a provider gets, if anything, the identity which that very provider gives for the token, under that provider's name, whatever
  the default is; a caller who names none, or only blanks, is served by the default provider (GitHub unless configured otherwise).  A name
  that is not registered, Keycloak's included when it is not configured, is refused and never redirected to the default.
\<close>

theorem identity_attribution:
  assumes "extras = (if with_keycloak then [keycloak_provider u config discovered verified verified'] else [])"
    and "ps = github_provider u c # extras" "reg = state_providers default_provider (github_provider u c) extras"
  shows "map (\<lambda>p. pm_id (ap_metadata p)) ps = (if with_keycloak then [''github'', ''keycloak''] else [''github''])
    \<and> (trim s \<noteq> [] \<longrightarrow> answers_for ps (trim s) token (resolve_identity reg access (Some s) token))
    \<and> (trim s = [] \<longrightarrow> resolve_identity reg access (Some s) token = resolve_identity reg access None token)
    \<and> answers_for ps (case default_provider of Some d \<Rightarrow> d | None \<Rightarrow> ''github'') token (resolve_identity reg access None token)"
proof -
  have "list_all attributes_to_itself (github_provider u c # extras)"
    by (simp add: assms(1) github_attributes keycloak_attributes)
  note answers = resolve_answers_for [OF this, of default_provider _ token access, folded assms(2,3)]
  have "answers_for ps (trim s) token (resolve_identity reg access (Some s) token)" if "trim s \<noteq> []"
    using answers [of "Some s"] that by (simp add: selected_id_def)
  moreover have "resolve_identity reg access (Some s) token = resolve_identity reg access None token" if "trim s = []"
    using that by (simp add: resolve_identity_def registry_resolve_def selected_id_def)
  moreover have "answers_for ps (case default_provider of Some d \<Rightarrow> d | None \<Rightarrow> ''github'') token (resolve_identity reg access None token)"
    using answers [of None] unfolding GITHUB_PROVIDER_ID_def [symmetric] by (simp add: selected_id_def assms(3) state_providers_default)
  moreover have "map (\<lambda>p. pm_id (ap_metadata p)) ps = (if with_keycloak then [''github'', ''keycloak''] else [''github''])"
    by (simp add: assms(1,2) github_provider_def GITHUB_PROVIDER_ID_def KEYCLOAK_PROVIDER_ID_def)
  ultimately show ?thesis by blast
qed

definition demo_client :: github_client where
  "demo_client = new_github_client ''i'' ''s'' ''r'' ''d'' ''a''"

text \<open>An upstream on which the token of user 1 resolves.\<close>

definition answering_upstream :: upstream where
  "answering_upstream = demo_upstream\<lparr> up_send := (\<lambda>_. Inr \<lparr> hr_status = 200, hr_headers = [], hr_body = [] \<rparr>),
     dec_user := (\<lambda>_. Inr \<lparr> gu_login = ''ann'', gu_id = 1, gu_name = None, gu_email = None \<rparr>) \<rparr>"

text \<open>
  With Keycloak not configured and yet the default: naming GitHub yields GitHub's identity, naming Keycloak or nothing is refused.
\<close>

theorem identity_attribution_witness:
  "\<exists>ident. resolve_identity (state_providers (Some ''keycloak'') (github_provider answering_upstream demo_client) []) default_access
        (Some '' github'') ''t'' = Inr ident
    \<and> id_provider ident = ''github'' \<and> id_username ident = ''ann''
    \<and> resolve_identity (state_providers (Some ''keycloak'') (github_provider answering_upstream demo_client) []) default_access
        (Some ''keycloak'') ''t'' = Inl (BadRequest ''unknown authentication provider'')
    \<and> resolve_identity (state_providers (Some ''keycloak'') (github_provider answering_upstream demo_client) []) default_access
        None ''t'' = Inl (BadRequest ''unknown authentication provider'')"
proof -
  let ?gh = "github_provider answering_upstream demo_client"
  let ?reg = "state_providers (Some ''keycloak'') ?gh []"
  have trims: "trim '' github'' = ''github''" "trim ''keycloak'' = ''keycloak''" by code_simp+
  have id: "pm_id (ap_metadata ?gh) = ''github''" by (simp add: github_provider_def GITHUB_PROVIDER_ID_def)
  have fetch: "ap_fetch_identity ?gh ''t'' = Inr authd \<Longrightarrow> au_username authd = ''ann''" for authd
    by (auto simp: github_provider_def github_fetch_identity_def get_user_def answering_upstream_def)
  obtain ident where r: "resolve_identity ?reg default_access (Some '' github'') ''t'' = Inr ident"
    by (simp add: resolve_identity_def registry_resolve_def selected_id_def trims state_providers_get id Let_def)
      (simp add: github_provider_def github_fetch_identity_def get_user_def answering_upstream_def
        github_resolve_authorization_def Let_def)
  note named = identity_attribution [where extras = "[]" and with_keycloak = False and u = answering_upstream and c = demo_client
      and ps = "[?gh]" and reg = ?reg and default_provider = "Some ''keycloak''" and token = "''t''" and access = default_access]
  have ids: "set (map (\<lambda>p. pm_id (ap_metadata p)) [?gh]) = {''github''}" by (simp add: id)
  have "answers_for [?gh] ''github'' ''t'' (Inr ident)"
    using named [where s = "'' github''"] unfolding trims r by simp
  then have "id_provider ident = ''github'' \<and> id_username ident = ''ann''"
    unfolding answers_for_def ids using fetch by auto
  moreover have "resolve_identity ?reg default_access sel ''t'' = Inl (BadRequest ''unknown authentication provider'')"
    if "answers_for [?gh] ''keycloak'' ''t'' (resolve_identity ?reg default_access sel ''t'')" for sel
    using that unfolding answers_for_def ids by simp
  moreover have "answers_for [?gh] ''keycloak'' ''t'' (resolve_identity ?reg default_access (Some ''keycloak'') ''t'')"
    "answers_for [?gh] ''keycloak'' ''t'' (resolve_identity ?reg default_access None ''t'')"
    using named [where s = "''keycloak''"] unfolding trims by simp_all
  ultimately show ?thesis using r by blast
qed

section \<open>Algorithm pinning\<close>

text \<open>
  C20. Access tokens cannot choose how they are verified: claims are accepted only if the token's declared
  algorithm is the one of the issuer's key, that algorithm is asymmetric, and the library verified the
  token for exactly that algorithm, the discovered issuer, the configured audience and leeway, with
  the not-before time checked.
\<close>

theorem algorithm_pinned:
  assumes "verify_access_token l token k discovery config = Inr claims"
  shows "\<exists>header alg key. decode_header l token = Inr header \<and> jh_alg header = alg
     \<and> algorithm_for_jwk k = Inr alg \<and> alg \<notin> {HS256, HS384, HS512}
     \<and> decoding_key_from_jwk l k = Inr key
     \<and> jwt_decode l token key
          \<lparr> jv_algorithms = [alg], jv_issuer = [od_issuer discovery],
            jv_audience = map_option (\<lambda>a. [a]) (kcc_audience config),
            jv_leeway = kcc_clock_skew_secs config, jv_validate_nbf = True \<rparr> = Inr claims"
proof -
  have "alg \<notin> {HS256, HS384, HS512}" if "algorithm_for_jwk k = Inr alg" for alg
    using that by (auto simp: algorithm_for_jwk_def split: option.splits jwk_family.splits if_splits
        elim!: key_algorithm_to_algorithm.elims)
  with assms show ?thesis
    by (auto simp: verify_access_token_def result_simps Let_def split: if_splits)
qed

definition demo_claims :: keycloak_claims where
  "demo_claims = \<lparr> kc_sub = ''s'', kc_preferred_username = Some ''ann'', kc_email = None, kc_name = None,
     kc_realm_access = Some [''admin''], kc_resource_access = None, kc_groups = [''/eng''], kc_extra = [] \<rparr>"

definition demo_library :: jwt_library where
  "demo_library = \<lparr> decode_header = (\<lambda>t. Inr \<lparr> jh_alg = RS256, jh_kid = Some t \<rparr>),
     decoding_key_from_jwk = (\<lambda>k. Inr (as_bytes (jwk_material k))),
     jwt_decode = (\<lambda>t key v. if jv_algorithms v = [RS256] then Inr demo_claims else Inl (InvalidAlgorithm, [])) \<rparr>"

definition demo_jwk :: jwk where
  "demo_jwk = \<lparr> jwk_kid = Some ''k1'', jwk_key_algorithm = None, jwk_family = RSA, jwk_material = ''n'' \<rparr>"

definition demo_discovery :: oidc_discovery where
  "demo_discovery = \<lparr> od_issuer = ''https://kc/realms/eng'', od_token_endpoint = None,
     od_device_authorization_endpoint = None, od_jwks_uri = ''https://kc/certs'' \<rparr>"

definition demo_keycloak :: keycloak_config where
  "demo_keycloak = \<lparr> kcc_issuer_url = ''https://kc/realms/eng'', kcc_client_id = ''m'', kcc_client_secret = None,
     kcc_scopes = ''openid'', kcc_audience = None, kcc_clock_skew_secs = 60 \<rparr>"

theorem algorithm_pinned_witness:
  "verify_access_token demo_library ''t'' demo_jwk demo_discovery demo_keycloak = Inr demo_claims
   \<and> (\<exists>alg. algorithm_for_jwk demo_jwk = Inr alg \<and> alg \<notin> {HS256, HS384, HS512})"
proof -
  have "verify_access_token demo_library ''t'' demo_jwk demo_discovery demo_keycloak = Inr demo_claims"
    by (simp add: verify_access_token_def demo_library_def demo_jwk_def algorithm_for_jwk_def demo_keycloak_def)
  with algorithm_pinned [OF this] show ?thesis by blast
qed

section \<open>Refreshing the signing keys\<close>

text \<open>
  A lookup of a signing key: when, for which key id, and what discovery and the key endpoint would
  answer.  The times at which the lookups of a sequence refreshed the key set.
\<close>

record key_lookup =
  kl_now :: instant
  kl_kid :: string
  kl_discovered :: "(auth_provider_error, oidc_discovery) result"
  kl_fetch :: "string \<Rightarrow> (auth_provider_error, jwk list) result"

definition key_lookup_step :: "oidc_cache \<Rightarrow> key_lookup \<Rightarrow> oidc_cache" where
  "key_lookup_step cache k =
     fst (snd (jwk_for_kid (kl_discovered k) (kl_fetch k) (kl_now k) cache (kl_kid k)))"

fun refresh_times :: "oidc_cache \<Rightarrow> key_lookup list \<Rightarrow> instant list" where
  "refresh_times cache [] = []"
| "refresh_times cache (k # ks) =
     (let cache' = key_lookup_step cache k in
      (if oc_set cache' \<noteq> oc_set cache \<or> oc_last_refresh cache' \<noteq> oc_last_refresh cache
       then [kl_now k] else []) @ refresh_times cache' ks)"

definition cache_ok :: "oidc_cache \<Rightarrow> bool" where
  "cache_ok cache \<longleftrightarrow> (oc_set cache = None \<longleftrightarrow> oc_last_refresh cache = None)"

lemma key_lookup_cases:
  obtains (kept) "oc_set (key_lookup_step cache k) = oc_set cache"
      "oc_last_refresh (key_lookup_step cache k) = oc_last_refresh cache"
  | (refreshed) "oc_set (key_lookup_step cache k) \<noteq> None"
      "oc_last_refresh (key_lookup_step cache k) = Some (kl_now k)"
      "cache_ok cache \<longrightarrow> (\<forall>t. oc_last_refresh cache = Some t \<longrightarrow> t + MIN_JWKS_REFRESH \<le> kl_now k)"
proof -
  have "oc_set (snd (oidc_discover d c)) = oc_set c"
    "oc_last_refresh (snd (oidc_discover d c)) = oc_last_refresh c" for d c
    by (simp_all add: oidc_discover_def split: option.splits sum.splits)
  then have disc: "oc_set c' = oc_set c \<and> oc_last_refresh c' = oc_last_refresh c"
    if "oidc_discover d c = (r, c')" for d c r c'
    using that by (metis snd_conv)
  show thesis
  proof (cases "oc_set (key_lookup_step cache k) = oc_set cache \<and>
      oc_last_refresh (key_lookup_step cache k) = oc_last_refresh cache")
    case True
    then show thesis using kept by blast
  next
    case False
    then have "oc_set (key_lookup_step cache k) \<noteq> None
      \<and> oc_last_refresh (key_lookup_step cache k) = Some (kl_now k)
      \<and> (cache_ok cache \<longrightarrow> (\<forall>t. oc_last_refresh cache = Some t \<longrightarrow> t + MIN_JWKS_REFRESH \<le> kl_now k))"
      by (auto simp: key_lookup_step_def jwk_for_kid_def Let_def cache_ok_def
          split: option.splits sum.splits prod.splits if_splits dest!: disc)
    then show thesis using refreshed by blast
  qed
qed

lemma refresh_times_spaced:
  assumes "cache_ok cache" "sorted (map kl_now ks)"
  shows "sorted_wrt (\<lambda>s t. s + MIN_JWKS_REFRESH \<le> t) (refresh_times cache ks)
    \<and> (\<forall>t s. oc_last_refresh cache = Some s \<longrightarrow> t \<in> set (refresh_times cache ks) \<longrightarrow> s + MIN_JWKS_REFRESH \<le> t)"
  using assms
proof (induction ks arbitrary: cache)
  case (Cons k ks)
  let ?c = "key_lookup_step cache k"
  have mono: "t \<in> set (refresh_times c ks) \<Longrightarrow> t \<in> kl_now ` set ks" for t c ks
    by (induction c ks rule: refresh_times.induct) (auto simp: Let_def split: if_splits)
  show ?case
  proof (cases rule: key_lookup_cases [of cache k])
    case kept
    then have "cache_ok ?c" using Cons.prems(1) by (simp add: cache_ok_def)
    with Cons kept show ?thesis by (simp add: Let_def)
  next
    case refreshed
    then have ok: "cache_ok ?c" by (simp add: cache_ok_def)
    have gap: "0 < MIN_JWKS_REFRESH" by (simp add: MIN_JWKS_REFRESH_def seconds_def nanos_per_sec_def)
    from Cons.IH [OF ok] Cons.prems(2) refreshed(2)
    have ih: "sorted_wrt (\<lambda>s t. s + MIN_JWKS_REFRESH \<le> t) (refresh_times ?c ks)"
      "\<forall>t \<in> set (refresh_times ?c ks). kl_now k + MIN_JWKS_REFRESH \<le> t"
      by auto
    have "\<forall>s. oc_last_refresh cache = Some s \<longrightarrow> s + MIN_JWKS_REFRESH \<le> kl_now k"
      using refreshed(3) Cons.prems(1) by blast
    with ih gap show ?thesis by (fastforce simp: Let_def)
  qed
qed simp

text \<open>
  Tokens with made-up key ids cannot cause a flood of key refreshes: over any sequence of key lookups in time
  order from a fresh cache, whatever ids they ask for and whatever the upstream answers, two refreshes of
  the key set are at least thirty seconds apart.
\<close>

theorem jwks_refreshes_spaced:
  assumes "sorted (map kl_now ks)"
  shows "sorted_wrt (\<lambda>s t. s + seconds 30 \<le> t) (refresh_times empty_oidc_cache ks)"
  using refresh_times_spaced [of empty_oidc_cache ks] assms
  by (simp add: cache_ok_def empty_oidc_cache_def MIN_JWKS_REFRESH_def)

definition demo_lookup :: "instant \<Rightarrow> string \<Rightarrow> key_lookup" where
  "demo_lookup t kid = \<lparr> kl_now = t, kl_kid = kid, kl_discovered = Inr demo_discovery,
     kl_fetch = (\<lambda>_. Inr [demo_jwk]) \<rparr>"

theorem jwks_refreshes_spaced_witness:
  "refresh_times empty_oidc_cache [demo_lookup 0 ''x'', demo_lookup (seconds 1) ''y'', demo_lookup (seconds 31) ''z'']
     = [0, seconds 31]
   \<and> sorted_wrt (\<lambda>s t. s + seconds 30 \<le> t) [0, seconds 31]"
proof -
  let ?ks = "[demo_lookup 0 ''x'', demo_lookup (seconds 1) ''y'', demo_lookup (seconds 31) ''z'']"
  have "sorted (map kl_now ?ks)" by (simp add: demo_lookup_def seconds_def nanos_per_sec_def)
  moreover have "refresh_times empty_oidc_cache ?ks = [0, seconds 31]"
    by (simp add: Let_def key_lookup_step_def jwk_for_kid_def jwks_find_def oidc_discover_def demo_lookup_def
        empty_oidc_cache_def demo_jwk_def MIN_JWKS_REFRESH_def seconds_def nanos_per_sec_def)
  ultimately show ?thesis using jwks_refreshes_spaced [of ?ks] by simp
qed

end
