(* ===== verification/Handlers.thy ===== *)
theory Handlers
  imports Registry Providers
begin

text \<open>
  What the HTTP handlers share: a handler as a state transformer that may fail (the state it had
  reached stays, since each statement commits on its own), the parts of a request and of
  \<^verbatim>\<open>AppState\<close> they read, fail-closed audit entries, and the three copies of \<^verbatim>\<open>authorize_admin\<close>
  (\<^verbatim>\<open>src/routes/admin_machines.rs\<close>, \<^verbatim>\<open>src/routes/ops.rs\<close>, \<^verbatim>\<open>src/routes/admin.rs\<close>).
\<close>

section \<open>Handlers\<close>

type_synonym ('s, 'a) handler = "'s \<Rightarrow> (api_error, 'a) result \<times> 's"

definition hreturn :: "'a \<Rightarrow> ('s, 'a) handler" where
  "hreturn a = (\<lambda>s. (Inr a, s))"

definition hlift :: "(api_error, 'a) result \<Rightarrow> ('s, 'a) handler" where
  "hlift r = (\<lambda>s. (r, s))"

definition hbind :: "('s, 'a) handler \<Rightarrow> ('a \<Rightarrow> ('s, 'b) handler) \<Rightarrow> ('s, 'b) handler" where
  "hbind m f = (\<lambda>s. case m s of (Inl e, s') \<Rightarrow> (Inl e, s') | (Inr a, s') \<Rightarrow> f a s')"

definition hread :: "('s \<Rightarrow> 'a) \<Rightarrow> ('s, 'a) handler" where
  "hread f = (\<lambda>s. (Inr (f s), s))"

lemma hbind_Inr_iff [result_simps]:
  "hbind m f s = (Inr b, s'') \<longleftrightarrow> (\<exists>a s'. m s = (Inr a, s') \<and> f a s' = (Inr b, s''))"
  by (auto simp: hbind_def split: prod.splits sum.splits)

lemma hbind_Inl_iff [result_simps]:
  "hbind m f s = (Inl e, s'') \<longleftrightarrow>
     m s = (Inl e, s'') \<or> (\<exists>a s'. m s = (Inr a, s') \<and> f a s' = (Inl e, s''))"
  by (auto simp: hbind_def split: prod.splits sum.splits)

lemma handler_simps [result_simps]:
  "hreturn a s = (r, s') \<longleftrightarrow> r = Inr a \<and> s' = s"
  "hlift q s = (r, s') \<longleftrightarrow> r = q \<and> s' = s"
  "hread f s = (r, s') \<longleftrightarrow> r = Inr (f s) \<and> s' = s"
  by (auto simp: hreturn_def hlift_def hread_def)

text \<open>A relation between the states before and after that a handler respects on every outcome.\<close>

definition steps_within :: "('s \<Rightarrow> 's \<Rightarrow> bool) \<Rightarrow> ('s, 'a) handler \<Rightarrow> bool" where
  "steps_within R m \<longleftrightarrow> (\<forall>s. R s (snd (m s)))"

lemma steps_within_hbind:
  assumes "transp R" "steps_within R m" "\<And>a. steps_within R (f a)"
  shows "steps_within R (hbind m f)"
  unfolding steps_within_def
proof
  fix s
  obtain r s' where m: "m s = (r, s')" by force
  have "R s s'" using assms(2) m by (metis steps_within_def snd_conv)
  then show "R s (snd (hbind m f s))"
    using m assms(1,3) by (cases r) (auto simp: hbind_def steps_within_def dest: transpD)
qed

lemma steps_within_pure:
  "reflp R \<Longrightarrow> steps_within R (hreturn a)" "reflp R \<Longrightarrow> steps_within R (hlift r)"
  "reflp R \<Longrightarrow> steps_within R (hread f)"
  by (simp_all add: steps_within_def hreturn_def hlift_def hread_def reflpD)

section \<open>Requests and state\<close>

text \<open>
  A request of an administrator, and what the handler reads of the state: providers and allowlists, the
  certificate authority's generation and primary key when one is configured, and the successive readings of the clock.
\<close>

record http_call =
  hc_headers :: headers
  hc_request_id :: string
  hc_token :: string

record server_env =
  se_registry :: provider_registry
  se_access :: access_config
  se_generation :: "int option"
  se_primary_key :: "(string, string) result option"
  se_clock :: "nat \<Rightarrow> instant"

definition audit_now :: "server_env \<Rightarrow> instant" where
  "audit_now env = se_clock env 2"

definition append_event ::
  "externals \<Rightarrow> bool \<Rightarrow> instant \<Rightarrow> new_audit_entry \<Rightarrow> (database, unit) handler" where
  "append_event x up now event = (\<lambda>db.
     case append_audit_event x up now (db_audit db) event of
       (Inl e, log) \<Rightarrow> (Inl (api_from_audit e), db\<lparr> db_audit := log \<rparr>)
     | (Inr _, log) \<Rightarrow> (Inr (), db\<lparr> db_audit := log \<rparr>))"

definition client_context :: "externals \<Rightarrow> server_env \<Rightarrow> identity \<Rightarrow> http_call \<Rightarrow> json" where
  "client_context x env i call =
     context_to_value (with_provider (id_provider i)
       (from_headers x (hc_headers call) (Some (hc_request_id call)) (se_clock env 1)))"

section \<open>Authorization of administrators\<close>

definition deny_with ::
  "externals \<Rightarrow> bool \<Rightarrow> server_env \<Rightarrow> string \<Rightarrow> identity \<Rightarrow> string \<Rightarrow> json \<Rightarrow> string
     \<Rightarrow> (database, identity) handler" where
  "deny_with x up env event_type i action metadata reason =
     hbind (append_event x up (audit_now env)
        (with_metadata metadata (with_subject action (new_entry event_type (id_username i))))) (\<lambda>_.
     hlift (Inl (api_from_denied reason)))"

definition authorize_machine_admin ::
  "externals \<Rightarrow> bool \<Rightarrow> server_env \<Rightarrow> http_call \<Rightarrow> string \<Rightarrow> (database, identity) handler" where
  "authorize_machine_admin x up env call action =
     hbind (hlift (resolve_identity (se_registry env) (se_access env) None (hc_token call))) (\<lambda>i.
     case authorize x (se_access env) i of
       Deny reason \<Rightarrow>
         deny_with x up env ''machine.admin_denied'' i action (json_object [(''reason'', JStr reason)]) reason
     | Allow \<Rightarrow> hreturn i)"

definition denial_metadata :: "externals \<Rightarrow> server_env \<Rightarrow> identity \<Rightarrow> http_call \<Rightarrow> string \<Rightarrow> json" where
  "denial_metadata x env i call reason =
     json_object [(''reason'', JStr reason), (''provider'', JStr (id_provider i)),
       (''subject'', JStr (id_subject i)), (''client'', client_context x env i call)]"

definition authorize_ops_admin ::
  "externals \<Rightarrow> bool \<Rightarrow> server_env \<Rightarrow> http_call \<Rightarrow> string \<Rightarrow> (database, identity) handler" where
  "authorize_ops_admin x up env call action =
     hbind (hlift (resolve_identity (se_registry env) (se_access env) None (hc_token call))) (\<lambda>i.
     case authorize x (se_access env) i of
       Deny reason \<Rightarrow>
         deny_with x up env ''ops.admin_denied'' i action (denial_metadata x env i call reason) reason
     | Allow \<Rightarrow> hreturn i)"

definition authorize_ca_admin ::
  "externals \<Rightarrow> bool \<Rightarrow> server_env \<Rightarrow> http_call \<Rightarrow> string \<Rightarrow> (database, identity) handler" where
  "authorize_ca_admin x up env call action =
     hbind (hlift (resolve_identity (se_registry env) (se_access env) None (hc_token call))) (\<lambda>i.
     case authorize x (se_access env) i of
       Deny reason \<Rightarrow>
         deny_with x up env ''ca.admin_denied'' i action (denial_metadata x env i call reason) reason
     | Allow \<Rightarrow> hreturn i)"

section \<open>The audit log under a handler\<close>

text \<open>One event was recorded: the log grew by one row with the event's type, actor and subject.\<close>

definition logged :: "database \<Rightarrow> database \<Rightarrow> string \<Rightarrow> string \<Rightarrow> string \<Rightarrow> bool" where
  "logged db db' event_type actor subject \<longleftrightarrow>
     (\<exists>row. db_audit db' = db_audit db @ [row] \<and> ar_event_type row = event_type
        \<and> ar_actor row = actor \<and> ar_subject row = Some subject)"

lemma append_event_cases:
  assumes "append_event x up now event db = (res, db')"
  obtains (failed) e where "res = Inl e" "db' = db"
  | (recorded) row where "res = Inr ()" "up" "db' = db\<lparr> db_audit := db_audit db @ [row] \<rparr>"
      "ar_event_type row = nae_event_type event" "ar_actor row = nae_actor event"
      "ar_subject row = nae_subject event"
proof -
  obtain r log where a: "append_audit_event x up now (db_audit db) event = (r, log)" by force
  from a [unfolded append_audit_event_def] show thesis
  proof (cases rule: append_entry_cases)
    case (failed err)
    with a assms that(1) show thesis by (auto simp: append_event_def)
  next
    case (appended entry row)
    with a assms that(2) show thesis by (auto simp: append_event_def)
  qed
qed

lemma append_event_ok:
  assumes "json_contract x" "database_inv x db" "json_wf (nae_metadata event)" "rfc3339_range now"
  obtains db' where "append_event x True now event db = (Inr (), db')"
proof -
  have "rfc3339_contract x" "log_intact x (db_audit db)"
    using assms(2) by (simp_all add: database_inv_def machines_inv_def)
  then obtain entry row where
    "append_audit_event x True now (db_audit db) event = (Inr entry, db_audit db @ [row])"
    by (rule append_audit_event_ok [OF assms(1) _ _ assms(3,4)])
  then have "append_event x True now event db = (Inr (), db\<lparr> db_audit := db_audit db @ [row] \<rparr>)"
    by (simp add: append_event_def)
  then show thesis by (rule that)
qed

lemma append_event_keeps:
  "append_event x up now event db = (res, db') \<Longrightarrow>
     db_machines db' = db_machines db \<and> db_tokens db' = db_tokens db"
  by (erule append_event_cases) auto

lemma deny_with_outcome:
  assumes "deny_with x up env event_type i action metadata reason db = (res, db')"
  shows "(\<exists>e. res = Inl e) \<and> db_machines db' = db_machines db \<and> db_tokens db' = db_tokens db
    \<and> (db' = db \<or> res = Inl (Forbidden ''access denied'') \<and> logged db db' event_type (id_username i) action)"
proof -
  obtain r db1 where a: "append_event x up (audit_now env)
      (with_metadata metadata (with_subject action (new_entry event_type (id_username i)))) db = (r, db1)"
    by force
  then have d: "(res, db') = (case r of Inl e \<Rightarrow> (Inl e, db1) | Inr _ \<Rightarrow> (Inl (Forbidden ''access denied''), db1))"
    using assms by (simp add: deny_with_def hbind_def hlift_def api_from_denied_def split: sum.splits)
  from a show ?thesis
  proof (cases rule: append_event_cases)
    case (recorded row)
    then have "logged db db1 event_type (id_username i) action"
      by (simp add: logged_def with_metadata_def with_subject_def new_entry_def)
    with recorded d show ?thesis by simp
  qed (use d in simp)
qed

text \<open>The three copies share their contract; clients rely on it through this interface.\<close>

locale admin_gate =
  fixes gate :: "externals \<Rightarrow> bool \<Rightarrow> server_env \<Rightarrow> http_call \<Rightarrow> string \<Rightarrow> (database, identity) handler"
    and denied_event :: string
  assumes gate_outcome: "gate x up env call action db = (res, db') \<Longrightarrow>
      db_machines db' = db_machines db \<and> db_tokens db' = db_tokens db
    \<and> (\<forall>i. res = Inr i \<longrightarrow> db' = db
         \<and> resolve_identity (se_registry env) (se_access env) None (hc_token call) = Inr i
         \<and> is_allowed (authorize x (se_access env) i))
    \<and> (\<forall>i. resolve_identity (se_registry env) (se_access env) None (hc_token call) = Inr i \<longrightarrow>
         \<not> is_allowed (authorize x (se_access env) i) \<longrightarrow>
         (\<exists>e. res = Inl e) \<and> (db' = db \<or> res = Inl (Forbidden ''access denied'')
            \<and> logged db db' denied_event (id_username i) action))
    \<and> (\<forall>i. resolve_identity (se_registry env) (se_access env) None (hc_token call) = Inr i \<longrightarrow>
         is_allowed (authorize x (se_access env) i) \<longrightarrow> res = Inr i \<and> db' = db)"
begin

lemma gate_frame:
  "gate x up env call action db = (res, db') \<Longrightarrow> db_machines db' = db_machines db \<and> db_tokens db' = db_tokens db"
  using gate_outcome by blast

lemma gate_passed:
  assumes "gate x up env call action db = (Inr i, db')"
  shows "db' = db \<and> resolve_identity (se_registry env) (se_access env) None (hc_token call) = Inr i
     \<and> is_allowed (authorize x (se_access env) i)"
  using gate_outcome [OF assms, THEN conjunct2, THEN conjunct2, THEN conjunct1] by blast

end

lemma gate_law:
  assumes "hbind (hlift (resolve_identity (se_registry env) (se_access env) None (hc_token call))) (\<lambda>i.
     case authorize x (se_access env) i of
       Deny reason \<Rightarrow> deny_with x up env event_type i action (metadata i reason) reason
     | Allow \<Rightarrow> hreturn i) db = (res, db')"
  shows "db_machines db' = db_machines db \<and> db_tokens db' = db_tokens db
    \<and> (\<forall>i. res = Inr i \<longrightarrow> db' = db
         \<and> resolve_identity (se_registry env) (se_access env) None (hc_token call) = Inr i
         \<and> is_allowed (authorize x (se_access env) i))
    \<and> (\<forall>i. resolve_identity (se_registry env) (se_access env) None (hc_token call) = Inr i \<longrightarrow>
         \<not> is_allowed (authorize x (se_access env) i) \<longrightarrow>
         (\<exists>e. res = Inl e) \<and> (db' = db \<or> res = Inl (Forbidden ''access denied'')
            \<and> logged db db' event_type (id_username i) action))
    \<and> (\<forall>i. resolve_identity (se_registry env) (se_access env) None (hc_token call) = Inr i \<longrightarrow>
         is_allowed (authorize x (se_access env) i) \<longrightarrow> res = Inr i \<and> db' = db)"
proof (cases "resolve_identity (se_registry env) (se_access env) None (hc_token call)")
  case (Inl e)
  with assms show ?thesis by (auto simp: hbind_def hlift_def)
next
  case (Inr i)
  show ?thesis
  proof (cases "authorize x (se_access env) i")
    case Allow
    with Inr assms show ?thesis by (auto simp: hbind_def hlift_def hreturn_def)
  next
    case (Deny reason)
    then have "deny_with x up env event_type i action (metadata i reason) reason db = (res, db')"
      using Inr assms by (simp add: hbind_def hlift_def)
    from deny_with_outcome [OF this] Inr Deny show ?thesis by auto
  qed
qed

interpretation machine_gate: admin_gate authorize_machine_admin "''machine.admin_denied''"
  by unfold_locales (rule gate_law, simp add: authorize_machine_admin_def)

interpretation ops_gate: admin_gate authorize_ops_admin "''ops.admin_denied''"
  by unfold_locales (rule gate_law, simp add: authorize_ops_admin_def)

interpretation ca_gate: admin_gate authorize_ca_admin "''ca.admin_denied''"
  by unfold_locales (rule gate_law, simp add: authorize_ca_admin_def)

section \<open>An administrator\<close>

text \<open>A concrete server whose provider identifies every token as one allowed user.\<close>

definition demo_env :: server_env where
  "demo_env = \<lparr> se_registry = register (new_registry ''github'')
       ((github_provider demo_upstream demo_client)\<lparr> ap_fetch_identity := (\<lambda>_. Inr demo_authd) \<rparr>),
     se_access = default_access\<lparr> allowed_users := [''ann''] \<rparr>, se_generation = Some 1,
     se_primary_key = Some (Inr ''ssh-ed25519 CA''), se_clock = (\<lambda>_. 0) \<rparr>"

definition demo_call :: http_call where
  "demo_call = \<lparr> hc_headers = [], hc_request_id = ''r1'', hc_token = ''t'' \<rparr>"

lemma demo_clocked: "rfc3339_range (se_clock demo_env n)"
  by (simp add: demo_env_def demo_times)

lemma demo_admin:
  obtains ident where
    "resolve_identity (se_registry demo_env) (se_access demo_env) None (hc_token demo_call) = Inr ident"
    "is_allowed (authorize ref_externals (se_access demo_env) ident)" "id_username ident = ''ann''"
proof -
  have "\<exists>c. resolve_identity (se_registry demo_env) (se_access demo_env) None (hc_token demo_call) = Inr (identity_of demo_authd c)"
    by (simp add: resolve_identity_def demo_env_def registry_resolve_def selected_id_def registry_get_def register_def
        new_registry_def github_provider_def GITHUB_PROVIDER_ID_def github_resolve_authorization_def Let_def) blast
  moreover have "is_allowed (authorize ref_externals (se_access demo_env) (identity_of demo_authd c))" for c
    by (simp add: is_allowed_authorize identity_of_def demo_authd_def contains_ci_def demo_env_def)
  ultimately show thesis using that by (auto simp: identity_of_def demo_authd_def)
qed

end
