(* ===== verification/AdminMachines.thy ===== *)
theory AdminMachines
  imports Handlers
begin

text \<open>
  The machine administration endpoints (\<^verbatim>\<open>src/routes/admin_machines.rs\<close>), the agent's heartbeat endpoint and the
  listing of servers (\<^verbatim>\<open>src/routes/agent.rs\<close>, \<^verbatim>\<open>src/routes/servers.rs\<close>).  Each database statement of
  a handler may fail on its own.
\<close>

section \<open>Query parameters\<close>

record machine_list_query =
  ml_status :: "string option"
  ml_liveness :: "string option"
  ml_hostname :: "string option"
  ml_generation :: "int option"
  ml_os :: "string option"
  ml_arch :: "string option"
  ml_agent_version :: "string option"

definition machine_non_empty :: "string option \<Rightarrow> string option" where
  "machine_non_empty v = Option.bind (map_option trim v) non_blank"

definition parse_opt ::
  "string option \<Rightarrow> (string \<Rightarrow> (api_error, 'a) result) \<Rightarrow> (api_error, 'a option) result" where
  "parse_opt v parse =
     (case machine_non_empty v of
        None \<Rightarrow> Inr None
      | Some s \<Rightarrow> rbind (parse s) (\<lambda>a. Inr (Some a)))"

definition parse_liveness :: "externals \<Rightarrow> string \<Rightarrow> liveness_status option" where
  "parse_liveness x v =
     (let s = unicode_lowercase x v in
      if s = ''online'' then Some Online
      else if s = ''stale'' then Some Stale
      else if s = ''offline'' then Some Offline
      else None)"

definition into_filter :: "externals \<Rightarrow> machine_list_query \<Rightarrow> (api_error, machine_filter) result" where
  "into_filter x q =
     rbind (parse_opt (ml_status q) (\<lambda>v.
        ok_or (BadRequest (''unknown status '' @ quoted v)) (status_from_db_str (unicode_lowercase x v)))) (\<lambda>status.
     rbind (parse_opt (ml_liveness q) (\<lambda>v.
        ok_or (BadRequest (''unknown liveness '' @ quoted v)) (parse_liveness x v))) (\<lambda>liveness.
     Inr \<lparr> mf_status = status, mf_liveness = liveness, mf_hostname = machine_non_empty (ml_hostname q),
           mf_generation = ml_generation q, mf_os = machine_non_empty (ml_os q),
           mf_arch = machine_non_empty (ml_arch q),
           mf_agent_version = machine_non_empty (ml_agent_version q) \<rparr>))"

section \<open>Handlers\<close>

datatype machine_io = AdDenial | AdRead | AdUpdate | AdFind | AdDelete | AdMint | AdAudit

definition on_machines ::
  "(machine_table \<Rightarrow> (machine_admin_error, 'a) result \<times> machine_table) \<Rightarrow> (database, 'a) handler" where
  "on_machines f = (\<lambda>db. let (r, tbl) = f (db_machines db)
     in (map_err api_from_machine_admin r, db\<lparr> db_machines := tbl \<rparr>))"

definition list_machines ::
  "externals \<Rightarrow> (machine_io \<Rightarrow> bool) \<Rightarrow> server_env \<Rightarrow> http_call \<Rightarrow> machine_list_query
     \<Rightarrow> (database, machine_view list) handler" where
  "list_machines x io env call query =
     hbind (authorize_machine_admin x (io AdDenial) env call ''machine.list'') (\<lambda>_.
     hbind (hlift (into_filter x query)) (\<lambda>flt.
     hbind (hread db_machines) (\<lambda>tbl.
     hlift (map_err (\<lambda>e. Internal (sqlx_display e))
       (admin_list x (io AdRead) tbl (se_clock env 0) (se_generation env) flt)))))"

definition get_machine ::
  "externals \<Rightarrow> (machine_io \<Rightarrow> bool) \<Rightarrow> server_env \<Rightarrow> http_call \<Rightarrow> string \<Rightarrow> (database, machine_view) handler" where
  "get_machine x io env call i =
     hbind (authorize_machine_admin x (io AdDenial) env call ''machine.get'') (\<lambda>_.
     hbind (hread db_machines) (\<lambda>tbl.
     hlift (rbind (map_err (\<lambda>e. Internal (sqlx_display e))
         (admin_get x (io AdRead) tbl (se_clock env 0) (se_generation env) i))
       (\<lambda>v. ok_or (NotFound (''machine '' @ quoted i @ '' was not found'')) v))))"

definition machine_metadata ::
  "externals \<Rightarrow> server_env \<Rightarrow> http_call \<Rightarrow> identity \<Rightarrow> machine \<Rightarrow> (string \<times> json) list \<Rightarrow> json" where
  "machine_metadata x env call i m extra =
     json_object ([(''hostname'', JStr (m_hostname m)), (''status'', JStr (status_as_str (m_status m))),
       (''agent_version'', JStr (m_agent_version m)), (''provider'', JStr (id_provider i)),
       (''subject'', JStr (id_subject i)), (''client'', client_context x env i call)] @ extra)"

definition audit_machine ::
  "externals \<Rightarrow> bool \<Rightarrow> server_env \<Rightarrow> http_call \<Rightarrow> identity \<Rightarrow> string \<Rightarrow> machine \<Rightarrow> (string \<times> json) list
     \<Rightarrow> (database, unit) handler" where
  "audit_machine x up env call i action m extra =
     append_event x up (audit_now env)
       (with_metadata (machine_metadata x env call i m extra)
         (with_subject (m_machine_id m) (new_entry action (id_username i))))"

definition set_lifecycle ::
  "externals \<Rightarrow> (machine_io \<Rightarrow> bool) \<Rightarrow> server_env \<Rightarrow> http_call \<Rightarrow> string \<Rightarrow> machine_status \<Rightarrow> string
     \<Rightarrow> (database, machine_view) handler" where
  "set_lifecycle x io env call i target action =
     hbind (authorize_machine_admin x (io AdDenial) env call action) (\<lambda>ident.
     hbind (on_machines (\<lambda>tbl. set_status x (io AdUpdate) (io AdFind) tbl i target (se_clock env 0))) (\<lambda>m.
     hbind (audit_machine x (io AdAudit) env call ident action m []) (\<lambda>_.
     hreturn (from_machine x m (se_clock env 0) (se_generation env)))))"

definition approve where
  "approve x io env call i = set_lifecycle x io env call i Active ''machine.approved''"
definition disable where
  "disable x io env call i = set_lifecycle x io env call i Disabled ''machine.disabled''"
definition enable where
  "enable x io env call i = set_lifecycle x io env call i Active ''machine.enabled''"
definition revoke where
  "revoke x io env call i = set_lifecycle x io env call i Revoked ''machine.revoked''"

record delete_machine_response =
  dm_deleted :: bool
  dm_machine_id :: string
  dm_hostname :: string

definition delete_machine ::
  "externals \<Rightarrow> (machine_io \<Rightarrow> bool) \<Rightarrow> server_env \<Rightarrow> http_call \<Rightarrow> string
     \<Rightarrow> (database, delete_machine_response) handler" where
  "delete_machine x io env call i =
     hbind (authorize_machine_admin x (io AdDenial) env call ''machine.delete'') (\<lambda>ident.
     hbind (on_machines (\<lambda>tbl. admin_delete x (io AdFind) (io AdDelete) tbl i)) (\<lambda>m.
     hbind (audit_machine x (io AdAudit) env call ident ''machine.deleted'' m []) (\<lambda>_.
     hreturn \<lparr> dm_deleted = True, dm_machine_id = m_machine_id m, dm_hostname = m_hostname m \<rparr>)))"

record mint_enrollment_token_response =
  mt_token :: string
  mt_id :: string
  mt_expires_at :: string
  mt_single_use :: bool

definition REENROLL_TOKEN_TTL_SECONDS :: int where "REENROLL_TOKEN_TTL_SECONDS = 3600"

text \<open>The random bytes and the identifier that the token generation draws.\<close>

record entropy =
  en_random :: "byte list"
  en_uuid :: string

definition mint ::
  "externals \<Rightarrow> bool \<Rightarrow> entropy \<Rightarrow> instant \<Rightarrow> string \<Rightarrow> int \<Rightarrow> bool \<Rightarrow> (database, issued_enrollment_token) handler" where
  "mint x up en now created_by ttl single_use = (\<lambda>db.
     let (r, db') = create_enrollment_token x up (en_random en) (en_uuid en) now db created_by ttl single_use
     in (map_err (\<lambda>e. Internal (enrollment_client_message e)) r, db'))"

definition issued_response :: "externals \<Rightarrow> issued_enrollment_token \<Rightarrow> mint_enrollment_token_response" where
  "issued_response x issued =
     \<lparr> mt_token = iet_plaintext issued, mt_id = et_id (iet_record issued),
       mt_expires_at = to_rfc3339_auto x (et_expires_at (iet_record issued)),
       mt_single_use = et_single_use (iet_record issued) \<rparr>"

definition reissue_identity ::
  "externals \<Rightarrow> (machine_io \<Rightarrow> bool) \<Rightarrow> server_env \<Rightarrow> http_call \<Rightarrow> entropy \<Rightarrow> string \<Rightarrow> string
     \<Rightarrow> (database, mint_enrollment_token_response) handler" where
  "reissue_identity x io env call en i action =
     hbind (authorize_machine_admin x (io AdDenial) env call action) (\<lambda>ident.
     hbind (hlift (rbind (ok_or (Internal ''certificate authority is not configured'') (se_primary_key env))
        (map_err Internal))) (\<lambda>_.
     hbind (on_machines (\<lambda>tbl. admin_delete x (io AdFind) (io AdDelete) tbl i)) (\<lambda>old.
     hbind (mint x (io AdMint) en (se_clock env 3) (id_username ident)
        (seconds REENROLL_TOKEN_TTL_SECONDS) True) (\<lambda>issued.
     hbind (audit_machine x (io AdAudit) env call ident action old
        [(''enrollment_token_id'', JStr (et_id (iet_record issued))),
         (''token_expires_at'', JStr (to_rfc3339_auto x (et_expires_at (iet_record issued))))]) (\<lambda>_.
     hreturn (issued_response x issued))))))"

definition reenroll where
  "reenroll x io env call en i = reissue_identity x io env call en i ''machine.reenroll_requested''"
definition rotate_identity where
  "rotate_identity x io env call en i =
     reissue_identity x io env call en i ''machine.identity_rotation_requested''"

section \<open>Agents and listings\<close>

definition heartbeat ::
  "externals \<Rightarrow> bool \<Rightarrow> instant \<Rightarrow> machine \<Rightarrow> heartbeat_request \<Rightarrow> (database, heartbeat_response) handler" where
  "heartbeat x up now authenticated request = (\<lambda>db.
     let (r, tbl) = record_heartbeat x up (db_machines db) (m_machine_id authenticated) request now
     in (map_err api_from_registry r, db\<lparr> db_machines := tbl \<rparr>))"

definition list_servers_handler ::
  "externals \<Rightarrow> bool \<Rightarrow> server_env \<Rightarrow> string option \<Rightarrow> string \<Rightarrow> (database, server_summary list) handler" where
  "list_servers_handler x up env provider token =
     hbind (hlift (resolve_identity (se_registry env) (se_access env) provider token)) (\<lambda>ident.
     case authorize x (se_access env) ident of
       Deny reason \<Rightarrow> hlift (Inl (api_from_denied reason))
     | Allow \<Rightarrow>
         hbind (hread db_machines) (\<lambda>tbl.
         hlift (map_err api_from_registry (list_servers x up tbl (se_clock env 0) DEFAULT_LIST_LIMIT))))"

section \<open>Tokens for enrollment\<close>

definition DEFAULT_ENROLLMENT_TOKEN_TTL_SECONDS :: u32 where "DEFAULT_ENROLLMENT_TOKEN_TTL_SECONDS = 3600"
definition MIN_ENROLLMENT_TOKEN_TTL_SECONDS :: u32 where "MIN_ENROLLMENT_TOKEN_TTL_SECONDS = 60"
definition MAX_ENROLLMENT_TOKEN_TTL_SECONDS :: u32 where "MAX_ENROLLMENT_TOKEN_TTL_SECONDS = 86400"

record mint_enrollment_token_request =
  mr_ttl_seconds :: u32
  mr_single_use :: bool

definition default_mint_request :: mint_enrollment_token_request where
  "default_mint_request = \<lparr> mr_ttl_seconds = 0, mr_single_use = True \<rparr>"

definition clamp_enrollment_token_ttl :: "u32 \<Rightarrow> u32" where
  "clamp_enrollment_token_ttl requested =
     (if requested = 0 then DEFAULT_ENROLLMENT_TOKEN_TTL_SECONDS
      else max MIN_ENROLLMENT_TOKEN_TTL_SECONDS (min MAX_ENROLLMENT_TOKEN_TTL_SECONDS requested))"

definition mint_enrollment_token ::
  "externals \<Rightarrow> (machine_io \<Rightarrow> bool) \<Rightarrow> server_env \<Rightarrow> http_call \<Rightarrow> entropy \<Rightarrow> mint_enrollment_token_request option
     \<Rightarrow> (database, mint_enrollment_token_response) handler" where
  "mint_enrollment_token x io env call en request =
     hbind (authorize_ca_admin x (io AdDenial) env call ''machine.enrollment_token.mint'') (\<lambda>ident.
     hbind (hlift (rbind (ok_or (Internal ''certificate authority is not configured'') (se_primary_key env))
        (map_err Internal))) (\<lambda>_.
     let request = (case request of Some r \<Rightarrow> r | None \<Rightarrow> default_mint_request);
         ttl_seconds = clamp_enrollment_token_ttl (mr_ttl_seconds request) in
     hbind (mint x (io AdMint) en (se_clock env 3) (id_username ident)
        (seconds (uint ttl_seconds)) (mr_single_use request)) (\<lambda>issued.
     hbind (append_event x (io AdAudit) (audit_now env)
        (with_metadata (json_object
           [(''expires_at'', JStr (to_rfc3339_auto x (et_expires_at (iet_record issued)))),
            (''single_use'', JBool (et_single_use (iet_record issued))),
            (''ttl_seconds'', JNum (uint ttl_seconds)),
            (''client'', client_context x env ident call)])
          (with_subject (et_id (iet_record issued))
            (new_entry ''machine.enrollment_token.minted'' (id_username ident))))) (\<lambda>_.
     hreturn (issued_response x issued)))))"

section \<open>The database invariant under the handlers\<close>

definition inv_step :: "externals \<Rightarrow> database \<Rightarrow> database \<Rightarrow> bool" where
  "inv_step x db db' \<longleftrightarrow> (database_inv x db \<longrightarrow> database_inv x db')"

lemma inv_step_order: "reflp (inv_step x)" "transp (inv_step x)"
  by (auto simp: inv_step_def intro: reflpI transpI)

lemmas inv_step_rules =
  steps_within_hbind [OF inv_step_order(2)] steps_within_pure [OF inv_step_order(1)]

lemma append_event_inv:
  assumes "json_contract x" "rfc3339_range now" "json_wf (nae_metadata event)"
  shows "steps_within (inv_step x) (append_event x up now event)"
  unfolding steps_within_def inv_step_def
proof (intro allI impI)
  fix db assume inv: "database_inv x db"
  then have "log_intact x (snd (append_audit_event x up now (db_audit db) event))"
    by (intro append_audit_event_intact assms) (simp_all add: database_inv_def machines_inv_def)
  with inv show "database_inv x (snd (append_event x up now event db))"
    by (auto simp: append_event_def database_inv_def split: prod.splits sum.splits)
qed

lemma json_wf_client_context [simp]: "json_wf (client_context x env i call)"
  by (simp add: client_context_def)

lemma gate_inv:
  assumes "json_contract x" "\<And>n. rfc3339_range (se_clock env n)"
  shows "steps_within (inv_step x) (authorize_machine_admin x up env call action)"
    and "steps_within (inv_step x) (authorize_ca_admin x up env call action)"
    and "steps_within (inv_step x) (authorize_ops_admin x up env call action)"
proof -
  have wf: "json_wf (denial_metadata x env i call reason)" for i reason
    unfolding denial_metadata_def by (rule json_wf_json_object) simp
  have wf': "json_wf (json_object [(''reason'', JStr reason)])" for reason
    by (rule json_wf_json_object) simp
  have deny: "steps_within (inv_step x) (deny_with x up env event_type i action metadata reason)"
    if "json_wf metadata" for event_type i metadata reason
    unfolding deny_with_def using assms that
    by (intro inv_step_rules append_event_inv)
      (simp_all add: audit_now_def with_metadata_def with_subject_def new_entry_def)
  show "steps_within (inv_step x) (authorize_machine_admin x up env call action)"
    "steps_within (inv_step x) (authorize_ca_admin x up env call action)"
    "steps_within (inv_step x) (authorize_ops_admin x up env call action)"
    unfolding authorize_machine_admin_def authorize_ca_admin_def authorize_ops_admin_def
    by (intro inv_step_rules; simp split: authz_decision.split; intro allI conjI impI inv_step_rules deny wf wf')+
qed

lemma on_machines_inv:
  assumes "\<And>tbl. machines_inv x tbl \<Longrightarrow> machines_inv x (snd (f tbl))"
  shows "steps_within (inv_step x) (on_machines f)"
  using assms
  by (auto simp: steps_within_def inv_step_def on_machines_def database_inv_def Let_def split: prod.splits)
    (metis snd_conv)

lemma set_status_inv:
  assumes "machines_inv x tbl" "rfc3339_range now"
  shows "machines_inv x (snd (set_status x u f tbl i s now))"
proof -
  obtain found t where "update_status x tbl i s now = (found, t)" by force
  with sqlite_machines.set_status [OF assms(1) _ this] assms show ?thesis
    by (auto simp: set_status_def Let_def)
qed

lemma admin_delete_inv:
  assumes "machines_inv x tbl"
  shows "machines_inv x (snd (admin_delete x f d tbl i))"
proof -
  obtain found t where "delete_machine_row tbl i = (found, t)" by force
  with sqlite_machines.del [OF assms this] assms show ?thesis
    by (auto simp: admin_delete_def Let_def split: sum.splits)
qed

lemma mint_inv: "steps_within (inv_step x) (mint x up en now created_by ttl single_use)"
  unfolding steps_within_def inv_step_def mint_def Let_def
  using create_enrollment_token_inv by (auto split: prod.splits)

lemma audit_machine_inv:
  assumes "json_contract x" "\<And>n. rfc3339_range (se_clock env n)" "\<forall>kv \<in> set extra. json_wf (snd kv)"
  shows "steps_within (inv_step x) (audit_machine x up env call i action m extra)"
proof -
  have "json_wf (machine_metadata x env call i m extra)"
    unfolding machine_metadata_def using assms(3) by (intro json_wf_json_object) auto
  then show ?thesis
    unfolding audit_machine_def
    by (intro append_event_inv assms) (simp_all add: audit_now_def assms with_metadata_def with_subject_def new_entry_def)
qed

lemmas handler_inv = inv_step_rules gate_inv on_machines_inv set_status_inv admin_delete_inv mint_inv
  audit_machine_inv append_event_inv

lemma lifecycle_inv:
  assumes "json_contract x" "\<And>n. rfc3339_range (se_clock env n)"
  shows "steps_within (inv_step x) (set_lifecycle x io env call i target action)"
    and "steps_within (inv_step x) (delete_machine x io env call i)"
    and "steps_within (inv_step x) (reissue_identity x io env call en i action)"
  unfolding set_lifecycle_def delete_machine_def reissue_identity_def
  by (intro handler_inv assms; simp)+

lemma mint_enrollment_token_inv:
  assumes "json_contract x" "\<And>n. rfc3339_range (se_clock env n)"
  shows "steps_within (inv_step x) (mint_enrollment_token x io env call en request)"
proof -
  have wf: "json_wf (json_object [(''expires_at'', JStr a), (''single_use'', JBool b), (''ttl_seconds'', JNum c),
      (''client'', client_context x env i call)])" for a b c i
    by (rule json_wf_json_object) simp
  show ?thesis
    unfolding mint_enrollment_token_def Let_def
    by (intro handler_inv assms)
      (simp_all add: audit_now_def assms with_metadata_def with_subject_def new_entry_def wf)
qed

lemma read_only_inv:
  assumes "json_contract x" "\<And>n. rfc3339_range (se_clock env n)"
  shows "steps_within (inv_step x) (list_machines x io env call query)"
    and "steps_within (inv_step x) (get_machine x io env call i)"
  unfolding list_machines_def get_machine_def by (intro handler_inv assms)+

lemma heartbeat_inv:
  assumes "rfc3339_range now"
  shows "steps_within (inv_step x) (heartbeat x up now m request)"
  unfolding steps_within_def inv_step_def
proof (intro allI impI)
  fix db assume inv: "database_inv x db"
  obtain r t where h: "record_heartbeat x up (db_machines db) (m_machine_id m) request now = (r, t)" by force
  have "machines_inv x t"
    using inv assms h by (auto simp: database_inv_def elim!: record_heartbeat_cases [rotated 2])
  with inv h show "database_inv x (snd (heartbeat x up now m request db))"
    by (simp add: heartbeat_def database_inv_def)
qed

section \<open>What the handlers do\<close>

lemma set_status_outcome:
  assumes "machines_inv x tbl" "rfc3339_range now" "set_status x u f tbl i s now = (res, tbl')"
  shows "(\<forall>m'. res = Inr m' \<longrightarrow>
      (\<exists>m. find_by_id x tbl i = Inr (Some m) \<and> m' = m\<lparr> m_status := s, m_updated_at := trunc_ms now \<rparr>
         \<and> find_by_id x tbl' i = Inr (Some m') \<and> (\<forall>j. j \<noteq> i \<longrightarrow> find_by_id x tbl' j = find_by_id x tbl j)))
    \<and> (u \<longrightarrow> f \<longrightarrow> (\<exists>m. find_by_id x tbl i = Inr (Some m)) \<longrightarrow> (\<exists>m'. res = Inr m'))"
proof (cases u)
  case True
  obtain found t where t: "update_status x tbl i s now = (found, t)" by force
  note laws = sqlite_machines.set_status [OF assms(1) _ t] sqlite_machines.by_id_set_status [OF assms(1) _ t]
    sqlite_machines.set_status_frame [OF assms(1) _ t]
  have tbl': "tbl' = t" and res: "res = (if found then rbind (map_err AdminDatabase (admin_find x f t i))
      (\<lambda>m. ok_or (MachineNotFound i) m) else Inl (MachineNotFound i))"
    using assms(3) t True by (auto simp: set_status_def split: if_splits)
  have find: "find_by_id x tbl i = Inr (find (\<lambda>m. m_machine_id m = i) (abs_machines x tbl))"
    by (rule sqlite_machines.by_id [OF assms(1)])
  show ?thesis
  proof (cases "find (\<lambda>m. m_machine_id m = i) (abs_machines x tbl)")
    case None
    then have "\<not> found" using laws(1) assms(2) by (auto simp: find_None_iff)
    then show ?thesis using res None find by simp
  next
    case (Some m)
    have m: "m_machine_id m = i" and mem: "m \<in> set (abs_machines x tbl)" using find_key_Some [OF Some] by auto
    have "found" using laws(1) assms(2) m mem by auto
    moreover have "find_by_id x t i = Inr (Some (m\<lparr> m_status := s, m_updated_at := trunc_ms now \<rparr>))"
      using laws(2) [of i] assms(2) Some m by simp
    ultimately show ?thesis
      using res find Some laws(3) assms(2) tbl' by (auto simp: admin_find_def ensure_def)
  qed
next
  case False
  with assms(3) show ?thesis by (auto simp: set_status_def)
qed

lemma audit_machine_cases:
  assumes "audit_machine x up env call i action m extra db = (res, db')"
  shows "db_machines db' = db_machines db \<and> db_tokens db' = db_tokens db
    \<and> (res = Inr () \<longrightarrow> logged db db' action (id_username i) (m_machine_id m))
    \<and> ((\<exists>e. res = Inl e) \<longrightarrow> db' = db)"
  using assms unfolding audit_machine_def
  by (cases rule: append_event_cases)
    (auto simp: logged_def with_metadata_def with_subject_def new_entry_def)

lemma audit_machine_ok:
  assumes "json_contract x" "database_inv x db" "\<And>n. rfc3339_range (se_clock env n)"
    "\<forall>kv \<in> set extra. json_wf (snd kv)"
  obtains db' where "audit_machine x True env call i action m extra db = (Inr (), db')"
proof -
  have "json_wf (machine_metadata x env call i m extra)"
    unfolding machine_metadata_def using assms(4) by (intro json_wf_json_object) auto
  then have "json_wf (nae_metadata (with_metadata (machine_metadata x env call i m extra)
      (with_subject (m_machine_id m) (new_entry action (id_username i)))))"
    by (simp add: with_metadata_def)
  from append_event_ok [OF assms(1,2) this] assms(3) that show thesis
    unfolding audit_machine_def audit_now_def by blast
qed

lemma audit_machine_down:
  "fst (audit_machine x False env call i action m extra db) = Inr () \<Longrightarrow> False"
  unfolding audit_machine_def
  by (cases "append_event x False (audit_now env)
       (with_metadata (machine_metadata x env call i m extra)
         (with_subject (m_machine_id m) (new_entry action (id_username i)))) db")
    (auto elim: append_event_cases)

lemma lifecycle_unfold:
  assumes "resolve_identity (se_registry env) (se_access env) None (hc_token call) = Inr ident"
    "is_allowed (authorize x (se_access env) ident)" "io AdUpdate" "io AdFind"
    "database_inv x db" "\<And>n. rfc3339_range (se_clock env n)" "find_by_id x (db_machines db) i = Inr (Some m)"
  obtains m' tbl where "find_by_id x tbl i = Inr (Some m')" "m_status m' = target"
    "machines_inv x tbl"
    "set_lifecycle x io env call i target action db =
       hbind (audit_machine x (io AdAudit) env call ident action m' []) (\<lambda>_.
         hreturn (from_machine x m' (se_clock env 0) (se_generation env))) (db\<lparr> db_machines := tbl \<rparr>)"
proof -
  obtain r1 db1 where g: "authorize_machine_admin x (io AdDenial) env call action db = (r1, db1)" by force
  then have g': "authorize_machine_admin x (io AdDenial) env call action db = (Inr ident, db)"
    using machine_gate.gate_outcome [OF g, THEN conjunct2, THEN conjunct2, THEN conjunct2] assms(1,2) by blast
  obtain r2 tbl where s: "set_status x (io AdUpdate) (io AdFind) (db_machines db) i target (se_clock env 0) = (r2, tbl)"
    by force
  have minv: "machines_inv x (db_machines db)" using assms(5) by (simp add: database_inv_def)
  note out = set_status_outcome [OF minv assms(6) s]
  obtain m' where m': "r2 = Inr m'" using out assms(3,4,7) by blast
  show thesis
  proof (rule that)
    show "find_by_id x tbl i = Inr (Some m')" "m_status m' = target" using out m' by auto
    show "machines_inv x tbl" using set_status_inv [OF minv assms(6)] s by (metis snd_conv)
    show "set_lifecycle x io env call i target action db =
       hbind (audit_machine x (io AdAudit) env call ident action m' []) (\<lambda>_.
         hreturn (from_machine x m' (se_clock env 0) (se_generation env))) (db\<lparr> db_machines := tbl \<rparr>)"
      using g' s m' by (simp add: set_lifecycle_def hbind_def on_machines_def)
  qed
qed

lemma lifecycle_outcome:
  assumes "database_inv x db" "\<And>n. rfc3339_range (se_clock env n)"
    "set_lifecycle x io env call i target action db = (res, db')"
  shows "(\<forall>v. res = Inr v \<longrightarrow>
      (\<exists>ident m. resolve_identity (se_registry env) (se_access env) None (hc_token call) = Inr ident
         \<and> is_allowed (authorize x (se_access env) ident)
         \<and> find_by_id x (db_machines db) i = Inr (Some m)
         \<and> find_by_id x (db_machines db') i =
             Inr (Some (m\<lparr> m_status := target, m_updated_at := trunc_ms (se_clock env 0) \<rparr>))
         \<and> (\<forall>j. j \<noteq> i \<longrightarrow> find_by_id x (db_machines db') j = find_by_id x (db_machines db) j)
         \<and> db_tokens db' = db_tokens db \<and> mv_status v = target
         \<and> logged db db' action (id_username ident) i))
    \<and> ((\<forall>ident. resolve_identity (se_registry env) (se_access env) None (hc_token call) = Inr ident \<longrightarrow>
          \<not> is_allowed (authorize x (se_access env) ident)) \<longrightarrow>
        (\<exists>e. res = Inl e) \<and> db_machines db' = db_machines db \<and> db_tokens db' = db_tokens db)"
proof -
  obtain r1 db1 where g: "authorize_machine_admin x (io AdDenial) env call action db = (r1, db1)" by force
  show ?thesis
  proof (cases r1)
    case (Inl e)
    with g assms(3) have "res = Inl e" "db' = db1" by (simp_all add: set_lifecycle_def hbind_def)
    with machine_gate.gate_frame [OF g] show ?thesis by auto
  next
    case (Inr ident)
    note gate = machine_gate.gate_passed [OF g [unfolded Inr]]
    obtain r2 tbl where s: "set_status x (io AdUpdate) (io AdFind) (db_machines db) i target (se_clock env 0) = (r2, tbl)"
      by force
    note st = set_status_outcome [OF _ assms(2) s] assms(1) [unfolded database_inv_def]
    have rest: "(res, db') = hbind (\<lambda>d. (map_err api_from_machine_admin r2, db\<lparr> db_machines := tbl \<rparr>)) (\<lambda>m.
        hbind (audit_machine x (io AdAudit) env call ident action m []) (\<lambda>_.
        hreturn (from_machine x m (se_clock env 0) (se_generation env)))) db"
      using assms(3) g Inr gate s by (simp add: set_lifecycle_def hbind_def on_machines_def)
    show ?thesis
    proof (cases r2)
      case (Inl e)
      with rest gate show ?thesis by (auto simp: hbind_def)
    next
      case (Inr m')
      obtain r3 db3 where a: "audit_machine x (io AdAudit) env call ident action m' [] (db\<lparr> db_machines := tbl \<rparr>) = (r3, db3)"
        by force
      from st Inr obtain m where m: "find_by_id x (db_machines db) i = Inr (Some m)"
        "m' = m\<lparr> m_status := target, m_updated_at := trunc_ms (se_clock env 0) \<rparr>"
        "find_by_id x tbl i = Inr (Some m')" "\<forall>j. j \<noteq> i \<longrightarrow> find_by_id x tbl j = find_by_id x (db_machines db) j"
        by auto
      have mid: "m_machine_id m' = i"
        using m(1,2) sqlite_machines.by_id_Some_iff [of x "db_machines db" i m] st(2) by simp
      from rest Inr a have res: "res = map_err id (rbind r3 (\<lambda>_. Inr (from_machine x m' (se_clock env 0) (se_generation env))))"
        "db' = db3"
        by (auto simp: hbind_def hreturn_def split: sum.splits)
      show ?thesis
        using gate m res audit_machine_cases [OF a] mid
        by (cases r3) (auto simp: logged_def from_machine_def Let_def)
    qed
  qed
qed

lemma lifecycle_succeeds:
  assumes "json_contract x" "database_inv x db" "\<And>n. rfc3339_range (se_clock env n)"
    "resolve_identity (se_registry env) (se_access env) None (hc_token call) = Inr ident"
    "is_allowed (authorize x (se_access env) ident)" "find_by_id x (db_machines db) i = Inr (Some m)"
  shows "\<exists>v. fst (set_lifecycle x (\<lambda>_. True) env call i target action db) = Inr v"
proof -
  obtain m' tbl where m': "machines_inv x tbl"
    "set_lifecycle x (\<lambda>_. True) env call i target action db =
       hbind (audit_machine x True env call ident action m' []) (\<lambda>_.
         hreturn (from_machine x m' (se_clock env 0) (se_generation env))) (db\<lparr> db_machines := tbl \<rparr>)"
    by (rule lifecycle_unfold [OF assms(4,5) _ _ assms(2,3,6)]) auto
  have "database_inv x (db\<lparr> db_machines := tbl \<rparr>)" using m'(1) assms(2) by (simp add: database_inv_def)
  then obtain db' where "audit_machine x True env call ident action m' [] (db\<lparr> db_machines := tbl \<rparr>) = (Inr (), db')"
    by (rule audit_machine_ok [OF assms(1) _ assms(3), where extra = "[]"]) auto
  then show ?thesis by (simp add: m'(2) hbind_def hreturn_def)
qed

text \<open>
  C23. A lifecycle change that reports success was made by an authorized caller, changed the status of exactly the
  addressed machine to exactly the requested one, and left one audit entry with the
  action, the caller and the machine; a caller who is not authorized changes no machine and no
  token, and their attempt is refused; and with storage available an authorized caller's change of an existing machine
  succeeds.
\<close>

theorem lifecycle_effect:
  assumes "database_inv x db" "\<And>n. rfc3339_range (se_clock env n)" "json_contract x"
    "set_lifecycle x io env call i target action db = (res, db')"
  shows "(\<forall>v. res = Inr v \<longrightarrow>
      (\<exists>ident m. resolve_identity (se_registry env) (se_access env) None (hc_token call) = Inr ident
         \<and> is_allowed (authorize x (se_access env) ident)
         \<and> find_by_id x (db_machines db) i = Inr (Some m)
         \<and> find_by_id x (db_machines db') i =
             Inr (Some (m\<lparr> m_status := target, m_updated_at := trunc_ms (se_clock env 0) \<rparr>))
         \<and> (\<forall>j. j \<noteq> i \<longrightarrow> find_by_id x (db_machines db') j = find_by_id x (db_machines db) j)
         \<and> db_tokens db' = db_tokens db \<and> mv_status v = target
         \<and> logged db db' action (id_username ident) i))
    \<and> ((\<forall>ident. resolve_identity (se_registry env) (se_access env) None (hc_token call) = Inr ident \<longrightarrow>
          \<not> is_allowed (authorize x (se_access env) ident)) \<longrightarrow>
        (\<exists>e. res = Inl e) \<and> db_machines db' = db_machines db \<and> db_tokens db' = db_tokens db)
    \<and> (\<forall>ident m. resolve_identity (se_registry env) (se_access env) None (hc_token call) = Inr ident \<longrightarrow>
          is_allowed (authorize x (se_access env) ident) \<longrightarrow> find_by_id x (db_machines db) i = Inr (Some m) \<longrightarrow>
          io = (\<lambda>_. True) \<longrightarrow> (\<exists>v. res = Inr v))"
  using lifecycle_outcome [OF assms(1,2,4)] lifecycle_succeeds [OF assms(3,1,2)] assms(4) by (metis fst_conv)

definition demo_database :: database where
  "demo_database = empty_database\<lparr> db_machines := demo_tbl \<rparr>"

lemma demo_database_inv: "database_inv ref_externals demo_database"
  using demo_inv
  by (simp add: database_inv_def demo_database_def empty_database_def tokens_unique_def log_intact_def)

lemma demo_database_found: "find_by_id ref_externals (db_machines demo_database) ''srv_1'' = Inr (Some demo_machine)"
  by (simp add: demo_database_def demo_found)

theorem lifecycle_effect_witness:
  "\<exists>v db'. disable ref_externals (\<lambda>_. True) demo_env demo_call ''srv_1'' demo_database = (Inr v, db')
     \<and> find_by_id ref_externals (db_machines db') ''srv_1'' =
         Inr (Some (demo_machine\<lparr> m_status := Disabled, m_updated_at := trunc_ms 0 \<rparr>))
     \<and> logged demo_database db' ''machine.disabled'' ''ann'' ''srv_1''"
proof -
  obtain res db' where r: "set_lifecycle ref_externals (\<lambda>_. True) demo_env demo_call ''srv_1'' Disabled ''machine.disabled''
    demo_database = (res, db')" by force
  note e = lifecycle_effect [OF demo_database_inv demo_clocked ref_json_contract r]
  obtain ident where i: "resolve_identity (se_registry demo_env) (se_access demo_env) None (hc_token demo_call) = Inr ident"
    "is_allowed (authorize ref_externals (se_access demo_env) ident)" "id_username ident = ''ann''"
    by (rule demo_admin)
  have clk: "se_clock demo_env 0 = 0" by (simp add: demo_env_def)
  obtain v where v: "res = Inr v" using e [THEN conjunct2, THEN conjunct2] i demo_database_found by blast
  from e [THEN conjunct1, rule_format, OF v] i demo_database_found v r clk show ?thesis
    by (auto simp: disable_def)
qed

text \<open>
  The audit entry is written after the change has been committed: when only the audit insert fails, an
  authorized lifecycle change answers with an error, its effect stays, and the log has no trace of it.
\<close>

theorem lifecycle_unaudited:
  assumes "database_inv x db" "\<And>n. rfc3339_range (se_clock env n)"
    "resolve_identity (se_registry env) (se_access env) None (hc_token call) = Inr ident"
    "is_allowed (authorize x (se_access env) ident)" "find_by_id x (db_machines db) i = Inr (Some m)"
  shows "\<exists>e m' db'. set_lifecycle x (\<lambda>s. s \<noteq> AdAudit) env call i target action db = (Inl e, db')
     \<and> find_by_id x (db_machines db') i = Inr (Some m') \<and> m_status m' = target \<and> db_audit db' = db_audit db"
proof -
  obtain m' tbl where m': "find_by_id x tbl i = Inr (Some m')" "m_status m' = target"
    "set_lifecycle x (\<lambda>s. s \<noteq> AdAudit) env call i target action db =
       hbind (audit_machine x (AdAudit \<noteq> AdAudit) env call ident action m' []) (\<lambda>_.
         hreturn (from_machine x m' (se_clock env 0) (se_generation env))) (db\<lparr> db_machines := tbl \<rparr>)"
    by (rule lifecycle_unfold [OF assms(3,4) _ _ assms(1,2,5), of "\<lambda>s. s \<noteq> AdAudit"]) auto
  obtain r db' where a: "audit_machine x False env call ident action m' [] (db\<lparr> db_machines := tbl \<rparr>) = (r, db')"
    by force
  with audit_machine_down [of x env call ident action m' "[]" "db\<lparr> db_machines := tbl \<rparr>"]
  obtain e where "r = Inl e" by (cases r) auto
  with a audit_machine_cases [OF a] m' show ?thesis by (auto simp: hbind_def)
qed

theorem lifecycle_unaudited_witness:
  "\<exists>e m' db'. revoke ref_externals (\<lambda>s. s \<noteq> AdAudit) demo_env demo_call ''srv_1'' demo_database = (Inl e, db')
     \<and> find_by_id ref_externals (db_machines db') ''srv_1'' = Inr (Some m') \<and> m_status m' = Revoked
     \<and> db_audit db' = []"
proof -
  obtain ident where i: "resolve_identity (se_registry demo_env) (se_access demo_env) None (hc_token demo_call) = Inr ident"
    "is_allowed (authorize ref_externals (se_access demo_env) ident)" "id_username ident = ''ann''"
    by (rule demo_admin)
  from lifecycle_unaudited [OF demo_database_inv demo_clocked i(1,2) demo_database_found, of Revoked "''machine.revoked''"]
  show ?thesis by (simp add: revoke_def demo_database_def empty_database_def)
qed

section \<open>Renewing a machine's identity\<close>

lemma admin_delete_outcome:
  assumes "machines_inv x tbl" "admin_delete x f d tbl i = (Inr m, tbl')"
  shows "find_by_id x tbl i = Inr (Some m)" "tbl' = filter (\<lambda>r. mr_machine_id r \<noteq> i) tbl"
    and "m_hostname m \<notin> mr_hostname ` set tbl'" "m_public_key m \<notin> mr_public_key ` set tbl'"
    and "find_by_id x tbl' i = Inr None"
proof -
  show fnd: "find_by_id x tbl i = Inr (Some m)" and tbl': "tbl' = filter (\<lambda>r. mr_machine_id r \<noteq> i) tbl"
    using assms(2)
    by (auto simp: admin_delete_def admin_find_def delete_machine_row_def Let_def result_simps
        split: sum.splits if_splits)
  obtain r where r: "r \<in> set tbl" "mr_machine_id r = i" "machine_of_row x r = Inr m"
    using fnd find_key_Some [of mr_machine_id i tbl]
    by (auto simp: find_by_id_def find_machine_def result_simps split: option.splits)
  have u: "inj_on mr_hostname (set tbl)" "inj_on mr_public_key (set tbl)"
    using assms(1) by (auto simp: machines_inv_def machines_unique_def distinct_map)
  show "m_hostname m \<notin> mr_hostname ` set tbl'" "m_public_key m \<notin> mr_public_key ` set tbl'"
    using r machine_of_row_keys [OF r(3)] u by (auto simp: tbl' dest: inj_onD)
  show "find_by_id x tbl' i = Inr None"
    using sqlite_machines.deleted_gone [OF assms(1), of i] by (simp add: delete_machine_row_def tbl')
qed

lemma mint_outcome:
  assumes "mint x up en now created_by ttl single_use db = (Inr issued, db')"
  shows "en_uuid en \<notin> tr_id ` set (db_tokens db)"
    "hash_token x (generate_token x (en_random en)) \<notin> tr_token_hash ` set (db_tokens db)"
    "create_enrollment_token x True (en_random en) (en_uuid en) now db created_by ttl single_use = (Inr issued, db')"
    "iet_plaintext issued = generate_token x (en_random en)"
  using assms
  by (auto simp: mint_def create_enrollment_token_def create_token_def Let_def result_simps
      split: sum.splits if_splits prod.splits)

lemma create_enrollment_token_log:
  assumes "create_enrollment_token x True random uuid now db created_by ttl single_use = (Inr issued, db1)"
  shows "create_enrollment_token x True random uuid now (db\<lparr> db_audit := log \<rparr>) created_by ttl single_use =
    (Inr issued, db1\<lparr> db_audit := log \<rparr>)"
  using assms by (auto simp: create_enrollment_token_def Let_def split: sum.splits)

text \<open>
  C24. Renewing an identity hands the host over without a gap in its uniqueness: after a successful
  \<^verbatim>\<open>reenroll\<close> or \<^verbatim>\<open>rotate-identity\<close> the old machine is gone, and the token in the response enrolls
  the same host name, under its old key or any unused one, for an hour and not longer.
\<close>

theorem reissue_then_enroll:
  assumes x: "json_contract x" "rfc3339_contract x" "hex_contract x"
    and inv: "database_inv x db" "\<And>n. rfc3339_range (se_clock env n)"
      "rfc3339_range (se_clock env 3 + seconds REENROLL_TOKEN_TTL_SECONDS)" "rfc3339_range audited_at"
    and call: "reissue_identity x io env call en i action db = (Inr resp, db')"
      "length (en_random en) = TOKEN_ENTROPY_BYTES" "find_by_id x (db_machines db) i = Inr (Some old)"
    and rq: "rq_enrollment_token rq = mt_token resp" "rq_hostname rq = m_hostname old" "is_valid_hostname (m_hostname old)"
      "validate_ed25519_public_key x (rq_public_key rq) = Inr pk"
      "pk = m_public_key old \<or> pk \<notin> mr_public_key ` set (db_machines db)"
      "generate_machine_id uuid \<notin> mr_machine_id ` set (db_machines db)"
  shows "find_by_id x (db_machines db') i = Inr None
    \<and> fst (enroll x (\<lambda>_. True) svc uuid now audited_at db' rq) =
      (if now < trunc_ms (se_clock env 3 + seconds REENROLL_TOKEN_TTL_SECONDS)
       then Inr (enroll_ok_response svc uuid) else Inl TokenExpired)"
proof -
  obtain ident db0 m db1 issued db2 u where
    g: "authorize_machine_admin x (io AdDenial) env call action db = (Inr ident, db0)"
    and d0: "on_machines (\<lambda>tbl. admin_delete x (io AdFind) (io AdDelete) tbl i) db0 = (Inr m, db1)"
    and mi0: "mint x (io AdMint) en (se_clock env 3) (id_username ident) (seconds REENROLL_TOKEN_TTL_SECONDS) True
        db1 = (Inr issued, db2)"
    and a: "audit_machine x (io AdAudit) env call ident action m
        [(''enrollment_token_id'', JStr (et_id (iet_record issued))),
         (''token_expires_at'', JStr (to_rfc3339_auto x (et_expires_at (iet_record issued))))] db2 = (Inr u, db')"
    and resp: "resp = issued_response x issued"
    using call(1) unfolding reissue_identity_def hbind_Inr_iff handler_simps by (elim exE conjE) blast
  have db0: "db0 = db" using machine_gate.gate_passed [OF g] by simp
  obtain tbl where d: "admin_delete x (io AdFind) (io AdDelete) (db_machines db) i = (Inr m, tbl)"
    and db1: "db1 = db\<lparr> db_machines := tbl \<rparr>"
    using d0 unfolding db0 on_machines_def by (auto simp: Let_def result_simps split: prod.splits)
  note mi = mi0 [unfolded db1]
  have minv: "machines_inv x (db_machines db)" using inv(1) by (simp add: database_inv_def)
  note del = admin_delete_outcome [OF minv d]
  have old: "m = old" using del(1) call(3) by simp
  let ?db = "db\<lparr> db_machines := tbl, db_audit := db_audit db' \<rparr>"
  have "db' = db2\<lparr> db_audit := db_audit db' \<rparr>" using audit_machine_cases [OF a] by simp
  then have mint': "create_enrollment_token x True (en_random en) (en_uuid en) (se_clock env 3) ?db (id_username ident)
      (seconds REENROLL_TOKEN_TTL_SECONDS) True = (Inr issued, db')"
    using create_enrollment_token_log [OF mint_outcome(3) [OF mi], of "db_audit db'"] by simp
  have inv': "database_inv x db'"
    using lifecycle_inv(3) [OF x(1) inv(2), of io call en i action] call(1) inv(1)
    by (metis inv_step_def snd_conv steps_within_def)
  have "db_machines db' = tbl" using mint_outcome(3) [OF mi] audit_machine_cases [OF a]
    by (auto simp: create_enrollment_token_def Let_def split: sum.splits)
  moreover have "fst (enroll x (\<lambda>_. True) svc uuid now audited_at db' rq) =
      (if now < trunc_ms (se_clock env 3 + seconds REENROLL_TOKEN_TTL_SECONDS)
       then Inr (enroll_ok_response svc uuid) else Inl TokenExpired)"
  proof (rule minted_token_outcome [OF x _ _ call(2) _ _ mint' inv(2) inv(3,4), where pk = pk])
    show "tokens_unique (db_tokens ?db)" using inv(1) by (simp add: database_inv_def)
    show "log_intact x (db_audit ?db)" using inv' by (simp add: database_inv_def)
    show "en_uuid en \<notin> tr_id ` set (db_tokens ?db)"
      "hash_token x (generate_token x (en_random en)) \<notin> tr_token_hash ` set (db_tokens ?db)"
      using mint_outcome(1,2) [OF mi] by simp_all
    show "rq_enrollment_token rq = iet_plaintext issued" using rq(1) resp by (simp add: issued_response_def)
    show "is_valid_hostname (rq_hostname rq)" "validate_ed25519_public_key x (rq_public_key rq) = Inr pk"
      using rq by simp_all
    have sub: "set tbl \<subseteq> set (db_machines db)" using del(2) by auto
    show "rq_hostname rq \<notin> mr_hostname ` set (db_machines ?db)" using rq(2) del(3) old by simp
    show "pk \<notin> mr_public_key ` set (db_machines ?db)" 
      using rq(5) del(4) old image_mono [OF sub, of mr_public_key] by simp (metis subsetD)
    show "generate_machine_id uuid \<notin> mr_machine_id ` set (db_machines ?db)" 
      using rq(6) image_mono [OF sub, of mr_machine_id] by simp (metis subsetD)
  qed simp
  ultimately show ?thesis using del(5) by simp
qed

lemma reissue_succeeds:
  assumes "json_contract x" "database_inv x db" "\<And>n. rfc3339_range (se_clock env n)"
    "resolve_identity (se_registry env) (se_access env) None (hc_token call) = Inr ident"
    "is_allowed (authorize x (se_access env) ident)" "find_by_id x (db_machines db) i = Inr (Some m)"
    "se_primary_key env = Some (Inr key)" "en_uuid en \<notin> tr_id ` set (db_tokens db)"
    "hash_token x (generate_token x (en_random en)) \<notin> tr_token_hash ` set (db_tokens db)"
  shows "\<exists>resp. fst (reissue_identity x (\<lambda>_. True) env call en i action db) = Inr resp"
proof -
  obtain r1 db1 where g: "authorize_machine_admin x True env call action db = (r1, db1)" by force
  then have g': "authorize_machine_admin x True env call action db = (Inr ident, db)"
    using machine_gate.gate_outcome [OF g, THEN conjunct2, THEN conjunct2, THEN conjunct2] assms(4,5) by blast
  have minv: "machines_inv x (db_machines db)" using assms(2) by (simp add: database_inv_def)
  obtain found tbl where d: "delete_machine_row (db_machines db) i = (found, tbl)" by force
  have found: "found" "machines_inv x tbl"
    using sqlite_machines.del [OF minv d] sqlite_machines.by_id_Some_iff [OF minv] assms(6) by auto
  let ?db1 = "db\<lparr> db_machines := tbl \<rparr>"
  have del: "on_machines (\<lambda>tbl. admin_delete x True True tbl i) db = (Inr m, ?db1)"
    using d found assms(6) by (simp add: on_machines_def admin_delete_def admin_find_def ensure_def)
  obtain issued db2 where m: "mint x True en (se_clock env 3) (id_username ident) (seconds REENROLL_TOKEN_TTL_SECONDS) True
      ?db1 = (Inr issued, db2)"
    using create_enrollment_token_ok [of "en_uuid en" ?db1 x "en_random en"] assms(8,9) by (simp add: mint_def)
  have "database_inv x ?db1" using assms(2) found by (simp add: database_inv_def)
  then have inv2: "database_inv x db2" using create_enrollment_token_inv [OF _ mint_outcome(3) [OF m]] by simp
  obtain db3 where "audit_machine x True env call ident action m
        [(''enrollment_token_id'', JStr (et_id (iet_record issued))),
         (''token_expires_at'', JStr (to_rfc3339_auto x (et_expires_at (iet_record issued))))] db2 = (Inr (), db3)"
    by (rule audit_machine_ok [OF assms(1) inv2 assms(3)]) auto
  with g' del m show ?thesis
    by (simp add: reissue_identity_def hbind_def hlift_def hreturn_def assms(7))
qed

definition demo_entropy :: entropy where
  "demo_entropy = \<lparr> en_random = replicate 32 0, en_uuid = ''t1'' \<rparr>"

theorem reissue_then_enroll_witness:
  "\<exists>resp db'. rotate_identity ref_externals (\<lambda>_. True) demo_env demo_call demo_entropy ''srv_1'' demo_database = (Inr resp, db')
     \<and> find_by_id ref_externals (db_machines db') ''srv_1'' = Inr None
     \<and> fst (enroll ref_externals (\<lambda>_. True) demo_service ''u1'' 0 0 db' (demo_request (mt_token resp)))
         = Inr (enroll_ok_response demo_service ''u1'')"
proof -
  let ?act = "''machine.identity_rotation_requested''"
  obtain ident where i: "resolve_identity (se_registry demo_env) (se_access demo_env) None (hc_token demo_call) = Inr ident"
    "is_allowed (authorize ref_externals (se_access demo_env) ident)" "id_username ident = ''ann''"
    by (rule demo_admin)
  have "\<exists>resp. fst (reissue_identity ref_externals (\<lambda>_. True) demo_env demo_call demo_entropy ''srv_1'' ?act demo_database) = Inr resp"
    by (rule reissue_succeeds [OF ref_json_contract demo_database_inv demo_clocked i(1,2) demo_database_found])
      (simp_all add: demo_env_def demo_database_def empty_database_def)
  then obtain resp db' where r: "reissue_identity ref_externals (\<lambda>_. True) demo_env demo_call demo_entropy ''srv_1'' ?act
      demo_database = (Inr resp, db')" by (metis prod.collapse)
  have machine: "m_hostname demo_machine = ''web-01''" "''ssh-ed25519 AAAA'' \<notin> mr_public_key ` set (db_machines demo_database)"
    "mr_machine_id ` set (db_machines demo_database) = {''srv_1''}"
    by (simp_all add: demo_machine_def stored_machine_def inserted_machine_def demo_database_def demo_tbl_def
        inserted_row_def demo_line_def Let_def numeral_eq_Suc)
  have clk: "se_clock demo_env 3 = 0" by (simp add: demo_env_def)
  have "find_by_id ref_externals (db_machines db') ''srv_1'' = Inr None
    \<and> fst (enroll ref_externals (\<lambda>_. True) demo_service ''u1'' 0 0 db' (demo_request (mt_token resp))) =
      (if 0 < trunc_ms (se_clock demo_env 3 + seconds REENROLL_TOKEN_TTL_SECONDS)
       then Inr (enroll_ok_response demo_service ''u1'') else Inl TokenExpired)"
    by (rule reissue_then_enroll [OF ref_json_contract ref_rfc3339_contract ref_hex_contract demo_database_inv demo_clocked
          _ demo_times(1) r _ demo_database_found, where pk = "''ssh-ed25519 AAAA''"])
      (use demo_times machine in \<open>simp_all add: clk REENROLL_TOKEN_TTL_SECONDS_def demo_entropy_def TOKEN_ENTROPY_BYTES_def
        demo_request_def demo_hostname demo_key generate_machine_id_def\<close>)
  then show ?thesis using r demo_times(3) by (auto simp: clk REENROLL_TOKEN_TTL_SECONDS_def rotate_identity_def)
qed

section \<open>Lifetimes of minted tokens\<close>

text \<open>
  Whatever lifetime is requested, a minted token lives between one minute and one day: zero means one hour,
  anything else is clamped, and requests already in that range are honoured exactly.
\<close>

theorem clamp_enrollment_token_ttl_bounds:
  "60 \<le> uint (clamp_enrollment_token_ttl t) \<and> uint (clamp_enrollment_token_ttl t) \<le> 86400
   \<and> clamp_enrollment_token_ttl 0 = 3600
   \<and> (60 \<le> t \<and> t \<le> 86400 \<longrightarrow> clamp_enrollment_token_ttl t = t)
   \<and> clamp_enrollment_token_ttl (clamp_enrollment_token_ttl t) = clamp_enrollment_token_ttl t"
proof -
  have b: "60 \<le> clamp_enrollment_token_ttl t" "clamp_enrollment_token_ttl t \<le> 86400"
    by (auto simp: clamp_enrollment_token_ttl_def DEFAULT_ENROLLMENT_TOKEN_TTL_SECONDS_def
        MIN_ENROLLMENT_TOKEN_TTL_SECONDS_def MAX_ENROLLMENT_TOKEN_TTL_SECONDS_def max_def min_def)
  have in_range: "clamp_enrollment_token_ttl u = u" if "60 \<le> u" "u \<le> 86400" for u
    using that
    by (auto simp: clamp_enrollment_token_ttl_def MIN_ENROLLMENT_TOKEN_TTL_SECONDS_def
        MAX_ENROLLMENT_TOKEN_TTL_SECONDS_def max_def min_def)
  have "60 \<le> uint (clamp_enrollment_token_ttl t)" "uint (clamp_enrollment_token_ttl t) \<le> 86400"
    using b by (simp_all add: word_le_def)
  then show ?thesis
    using in_range [OF b] in_range [of t]
    by (simp add: clamp_enrollment_token_ttl_def [of 0] DEFAULT_ENROLLMENT_TOKEN_TTL_SECONDS_def)
qed

theorem clamp_enrollment_token_ttl_bounds_witness:
  "clamp_enrollment_token_ttl 600 = 600"
  using clamp_enrollment_token_ttl_bounds [of 600] by (simp add: word_le_def)

end
