(* ===== verification/Certificates.thy ===== *)
theory Certificates
  imports AdminMachines
begin

text \<open>
  Certificates: the error and record types of the certificate authority (\<^verbatim>\<open>src/ca/errors.rs\<close>,
  \<^verbatim>\<open>src/ca/models.rs\<close>), one signing key (\<^verbatim>\<open>src/ca/service.rs\<close>), and the issuing and validating endpoints
  (\<^verbatim>\<open>src/routes/certificates.rs\<close>).  The certificate builder and the private key formats of \<^verbatim>\<open>ssh-key\<close> are
  parameters, and so is the \<^verbatim>\<open>CaManager\<close>, whose source is not part of the tree: its operations are
  functions on an abstract state.
\<close>

section \<open>Errors\<close>

datatype ca_error =
    KeyFile string string string | StoragePassphraseMissing string | KeyParse string string
  | KeyDecrypt string | NotEd25519 string string | NoKeysConfigured | CaTooManyKeys nat nat | CaNoEnabledKeys
  | CannotDisableLast string | CannotRetireEnabled string | CannotDeleteActive string
  | CaDuplicateKeyId string | CaDuplicatePublicKey string string | DuplicateFingerprint string string
  | CaNotFound string | KeyIdInUse string | PublicKeyInUse string | FingerprintInUse string
  | PassphraseMismatch | InvalidRequest string | InvalidInput string | SignFailed string | EncodeFailed string
  | CaStorage string

fun ca_error_display :: "ca_error \<Rightarrow> string" where
  "ca_error_display (KeyFile k p e) = ''ca key '' @ quoted k @ '' file '' @ quoted p @ '' could not be accessed: '' @ e"
| "ca_error_display (StoragePassphraseMissing e) =
     ''ca storage passphrase environment variable '' @ quoted e @ '' is not set or empty''"
| "ca_error_display (KeyParse k m) =
     ''ca key '' @ quoted k @ '' could not be parsed as an OpenSSH private key: '' @ m"
| "ca_error_display (KeyDecrypt k) = ''ca key '' @ quoted k @ '' could not be decrypted (wrong passphrase?)''"
| "ca_error_display (NotEd25519 k a) = ''ca key '' @ quoted k @ '' must be Ed25519, found '' @ a"
| "ca_error_display NoKeysConfigured = ''no ca keys are configured (at least one is required)''"
| "ca_error_display (CaTooManyKeys c m) = ''too many ca keys: '' @ show_nat c @ '' (maximum is '' @ show_nat m @ '')''"
| "ca_error_display CaNoEnabledKeys = ''no enabled ca keys (at least one key must be enabled)''"
| "ca_error_display (CannotDisableLast k) = ''cannot disable ca '' @ quoted k @ '': it is the last enabled CA''"
| "ca_error_display (CannotRetireEnabled k) =
     ''cannot retire ca '' @ quoted k @ '': it is still enabled (disable it first)''"
| "ca_error_display (CannotDeleteActive k) =
     ''cannot delete ca '' @ quoted k @ '': it is still active (disable it first)''"
| "ca_error_display (CaDuplicateKeyId k) = ''duplicate ca key id '' @ quoted k"
| "ca_error_display (CaDuplicatePublicKey a b) =
     ''duplicate ca public key shared by key ids '' @ quoted a @ '' and '' @ quoted b"
| "ca_error_display (DuplicateFingerprint a b) =
     ''duplicate ca key fingerprint shared by key ids '' @ quoted a @ '' and '' @ quoted b"
| "ca_error_display (CaNotFound i) = ''ca '' @ quoted i @ '' was not found''"
| "ca_error_display (KeyIdInUse k) = ''ca key id '' @ quoted k @ '' is already in use''"
| "ca_error_display (PublicKeyInUse k) = ''ca public key is already managed (matches key id '' @ quoted k @ '')''"
| "ca_error_display (FingerprintInUse k) = ''ca fingerprint is already managed (matches key id '' @ quoted k @ '')''"
| "ca_error_display PassphraseMismatch = ''passphrase does not match the configured CA storage passphrase''"
| "ca_error_display (InvalidRequest m) = ''invalid certificate request: '' @ m"
| "ca_error_display (InvalidInput m) = m"
| "ca_error_display (SignFailed m) = ''failed to sign certificate: '' @ m"
| "ca_error_display (EncodeFailed m) = ''failed to encode openssh data: '' @ m"
| "ca_error_display (CaStorage m) = ''ca storage error: '' @ m"

definition ca_from_sqlx :: "sqlx_error \<Rightarrow> ca_error" where
  "ca_from_sqlx e = CaStorage (sqlx_display e)"

fun is_ca_conflict :: "ca_error \<Rightarrow> bool" where
  "is_ca_conflict (KeyIdInUse _) = True"
| "is_ca_conflict (PublicKeyInUse _) = True"
| "is_ca_conflict (FingerprintInUse _) = True"
| "is_ca_conflict (CaDuplicateKeyId _) = True"
| "is_ca_conflict (CaDuplicatePublicKey _ _) = True"
| "is_ca_conflict (DuplicateFingerprint _ _) = True"
| "is_ca_conflict (CannotDisableLast _) = True"
| "is_ca_conflict (CannotRetireEnabled _) = True"
| "is_ca_conflict (CannotDeleteActive _) = True"
| "is_ca_conflict _ = False"

definition api_from_ca :: "ca_error \<Rightarrow> api_error" where
  "api_from_ca e =
     (case e of
        InvalidRequest msg \<Rightarrow> BadRequest msg
      | InvalidInput msg \<Rightarrow> BadRequest msg
      | PassphraseMismatch \<Rightarrow> BadRequest ''passphrase does not match the CA storage passphrase''
      | CaNotFound i \<Rightarrow> NotFound (''ca '' @ quoted i @ '' was not found'')
      | _ \<Rightarrow> if is_ca_conflict e then Conflict (ca_error_display e) else Internal (ca_error_display e))"

section \<open>Records\<close>

definition MIN_TTL_SECONDS :: u32 where "MIN_TTL_SECONDS = 60"
definition MAX_TTL_SECONDS :: u32 where "MAX_TTL_SECONDS = 3600"
definition DEFAULT_TTL_SECONDS :: u32 where "DEFAULT_TTL_SECONDS = 300"
definition CA_MAX_KEY_ID_LEN :: nat where "CA_MAX_KEY_ID_LEN = 64"

record ca_record =
  ca_id :: string
  ca_key_id :: string
  ca_public_key :: string
  ca_fingerprint :: string
  ca_enabled :: bool
  ca_created_at :: instant
  ca_enabled_at :: "instant option"
  ca_disabled_at :: "instant option"
  ca_last_used_at :: "instant option"
  ca_issued_certificates :: nat
  ca_disabled_generation :: "u32 option"

record ca_public_key_entry =
  cpe_key_id :: string
  cpe_public_key :: string
  cpe_fingerprint :: string

record public_bundle =
  pb_generation :: u32
  pb_fingerprint :: string
  pb_keys :: "ca_public_key_entry list"

record certificate_request =
  crq_principal :: string
  crq_hostname :: string
  crq_public_key :: string
  crq_ttl_seconds :: u32

record certificate_validation =
  cv_valid :: bool
  cv_reason :: "string option"
  cv_issued_by_this_ca :: bool
  cv_principals :: "string list"
  cv_serial :: nat
  cv_valid_after :: string
  cv_valid_before :: string

record certificate_response =
  cr_certificate :: string
  cr_serial :: nat
  cr_valid_after :: string
  cr_valid_before :: string
  cr_ttl_seconds :: u32
  cr_principal :: string
  cr_fingerprint :: string
  cr_ca_key_id :: string
  cr_ca_fingerprint :: string

definition ca_validate_key_id :: "string \<Rightarrow> (string, unit) result" where
  "ca_validate_key_id key_id =
     (let trimmed = trim key_id in
      if trimmed = [] then Inl ''key_id must not be empty''
      else if length trimmed > CA_MAX_KEY_ID_LEN then Inl ''key_id must be at most 64 characters''
      else if trimmed \<noteq> key_id then Inl ''key_id must not have leading or trailing whitespace''
      else if list_all (\<lambda>c. is_ascii_alphanumeric c \<or> c \<in> set ''-_.:'') key_id then Inr ()
      else Inl (''key_id may only contain alphanumerics and '' @ quoted ''-'' @ '', '' @ quoted ''_''
             @ '', '' @ quoted ''.'' @ '', '' @ quoted '':''))"

section \<open>A signing key\<close>

definition STANDARD_EXTENSIONS :: "string list" where
  "STANDARD_EXTENSIONS = [''permit-pty'', ''permit-port-forwarding'', ''permit-agent-forwarding'']"

text \<open>What the builder has been given when it signs; every certificate is a user certificate.\<close>

record certificate_data =
  cd_subject :: ssh_public_key
  cd_serial :: nat
  cd_key_id :: string
  cd_valid_principals :: "string list"
  cd_valid_after :: nat
  cd_valid_before :: nat
  cd_comment :: string
  cd_extensions :: "(string \<times> string) list"

record private_key =
  pk_public :: ssh_public_key
  pk_encrypted :: bool
  pk_secret :: "byte list"

text \<open>
  The functions of \<^verbatim>\<open>ssh-key\<close> on private keys and certificates (a certificate as its bytes), with the text of its
  errors, and the construction of an instant from epoch seconds of \<^verbatim>\<open>chrono\<close>.
\<close>

record cert_library =
  cl_parse_error :: "string \<Rightarrow> string"
  cl_public_to_openssh :: "ssh_public_key \<Rightarrow> (string, string) result"
  cl_private_from_openssh :: "string \<Rightarrow> (string, private_key) result"
  cl_private_to_openssh :: "private_key \<Rightarrow> (string, string) result"
  cl_encrypt :: "private_key \<Rightarrow> string \<Rightarrow> (string, private_key) result"
  cl_decrypt :: "private_key \<Rightarrow> string \<Rightarrow> private_key option"
  cl_sign :: "private_key \<Rightarrow> certificate_data \<Rightarrow> (string, byte list) result"
  cl_cert_to_openssh :: "byte list \<Rightarrow> (string, string) result"
  cl_validate_at_start :: "byte list \<Rightarrow> string \<Rightarrow> bool"
  cl_from_timestamp :: "int \<Rightarrow> instant option"

record ca_key =
  ck_private_key :: private_key
  ck_public_key :: string
  ck_fingerprint :: string

fun algorithm_as_str :: "key_algorithm \<Rightarrow> string" where
  "algorithm_as_str Ed25519 = ''ssh-ed25519''"
| "algorithm_as_str (OtherAlgorithm a) = a"

definition from_private_key :: "externals \<Rightarrow> cert_library \<Rightarrow> private_key \<Rightarrow> string \<Rightarrow> (ca_error, ca_key) result" where
  "from_private_key x l key key_id =
     (if ssh_algorithm (pk_public key) \<noteq> Ed25519
      then Inl (NotEd25519 key_id (algorithm_as_str (ssh_algorithm (pk_public key))))
      else
        rbind (map_err EncodeFailed (cl_public_to_openssh l (pk_public key))) (\<lambda>public_key.
        Inr \<lparr> ck_private_key = key, ck_public_key = public_key,
              ck_fingerprint = key_fingerprint x (pk_public key) \<rparr>))"

definition from_encrypted_openssh ::
  "externals \<Rightarrow> cert_library \<Rightarrow> string \<Rightarrow> string \<Rightarrow> string \<Rightarrow> (ca_error, ca_key) result" where
  "from_encrypted_openssh x l encrypted passphrase key_id =
     rbind (map_err (KeyParse key_id) (cl_private_from_openssh l encrypted)) (\<lambda>key.
     rbind (if pk_encrypted key then ok_or (KeyDecrypt key_id) (cl_decrypt l key passphrase) else Inr key)
       (\<lambda>decrypted. from_private_key x l decrypted key_id))"

definition to_encrypted_openssh :: "cert_library \<Rightarrow> ca_key \<Rightarrow> string \<Rightarrow> string \<Rightarrow> (ca_error, string) result" where
  "to_encrypted_openssh l k passphrase key_id =
     rbind (map_err (\<lambda>err. SignFailed (''failed to encrypt ca key '' @ quoted key_id @ '': '' @ err))
        (cl_encrypt l (ck_private_key k) passphrase)) (\<lambda>encrypted.
     map_err EncodeFailed (cl_private_to_openssh l encrypted))"

definition signed_by :: "externals \<Rightarrow> cert_library \<Rightarrow> ca_key \<Rightarrow> byte list \<Rightarrow> bool" where
  "signed_by x l k certificate =
     cl_validate_at_start l certificate (key_fingerprint x (pk_public (ck_private_key k)))"

definition validate_ttl :: "u32 \<Rightarrow> (ca_error, u32) result" where
  "validate_ttl requested =
     (let ttl = (if requested = 0 then DEFAULT_TTL_SECONDS else requested) in
      if \<not> (MIN_TTL_SECONDS \<le> ttl \<and> ttl \<le> MAX_TTL_SECONDS)
      then Inl (InvalidRequest (''ttl_seconds must be between 60 and 3600, got '' @ show_nat (unat requested)))
      else Inr ttl)"

definition format_timestamp :: "externals \<Rightarrow> cert_library \<Rightarrow> nat \<Rightarrow> string" where
  "format_timestamp x l secs =
     (case cl_from_timestamp l (int secs) of Some dt \<Rightarrow> to_rfc3339_secs x dt | None \<Rightarrow> [])"

definition certificate_for ::
  "ssh_public_key \<Rightarrow> string \<Rightarrow> string \<Rightarrow> string \<Rightarrow> nat \<Rightarrow> u32 \<Rightarrow> certificate_data" where
  "certificate_for subject key_id who hostname valid_after ttl =
     \<lparr> cd_subject = subject, cd_serial = valid_after, cd_key_id = key_id, cd_valid_principals = [who],
       cd_valid_after = valid_after, cd_valid_before = valid_after + unat ttl,
       cd_comment = who @ ''@'' @ hostname, cd_extensions = map (\<lambda>e. (e, [])) STANDARD_EXTENSIONS \<rparr>"

definition sign_certificate ::
  "externals \<Rightarrow> cert_library \<Rightarrow> ca_key \<Rightarrow> certificate_request \<Rightarrow> int \<Rightarrow> string
     \<Rightarrow> (ca_error, certificate_response) result" where
  "sign_certificate x l k request now key_id =
     rbind (validate_ttl (crq_ttl_seconds request)) (\<lambda>ttl.
     let who = trim (crq_principal request) in
     rbind (ensure (who \<noteq> []) (InvalidRequest ''principal must not be empty'')) (\<lambda>_.
     let hostname = trim (crq_hostname request) in
     rbind (ensure (hostname \<noteq> []) (InvalidRequest ''hostname must not be empty'')) (\<lambda>_.
     rbind (ok_or (InvalidRequest (''invalid public_key: '' @ cl_parse_error l (crq_public_key request)))
        (from_openssh x (crq_public_key request))) (\<lambda>subject.
     rbind (ensure (0 \<le> now) (SignFailed ''clock is before the unix epoch'')) (\<lambda>_.
     let valid_after = nat now; serial = valid_after; valid_before = valid_after + unat ttl in
     rbind (map_err SignFailed (cl_sign l (ck_private_key k)
        (certificate_for subject key_id who hostname valid_after ttl))) (\<lambda>certificate.
     rbind (map_err EncodeFailed (cl_cert_to_openssh l certificate)) (\<lambda>openssh.
     Inr \<lparr> cr_certificate = openssh, cr_serial = serial,
           cr_valid_after = format_timestamp x l valid_after, cr_valid_before = format_timestamp x l valid_before,
           cr_ttl_seconds = ttl, cr_principal = who, cr_fingerprint = key_fingerprint x subject,
           cr_ca_key_id = key_id, cr_ca_fingerprint = ck_fingerprint k \<rparr>)))))))"

section \<open>Handlers over the database and the certificate authority\<close>

text \<open>
  The state of a handler that also calls the \<^verbatim>\<open>CaManager\<close>: the database, and the manager's state, of whose type nothing is assumed.
\<close>

definition on_db :: "(database, 'a) handler \<Rightarrow> (database \<times> 'm, 'a) handler" where
  "on_db h = (\<lambda>(db, m). let (r, db') = h db in (r, (db', m)))"

definition on_ca :: "('m \<Rightarrow> (ca_error, 'a) result \<times> 'm) \<Rightarrow> (database \<times> 'm, 'a) handler" where
  "on_ca f = (\<lambda>(db, m). let (r, m') = f m in (map_err api_from_ca r, (db, m')))"

lemma on_db_iff [result_simps]: "on_db h s = (r, s') \<longleftrightarrow> h (fst s) = (r, fst s') \<and> snd s' = snd s"
  by (cases s; cases s') (auto simp: on_db_def split: prod.splits)

lemma on_ca_iff [result_simps]:
  "on_ca f s = (r, s') \<longleftrightarrow> (\<exists>q. f (snd s) = (q, snd s') \<and> map_err api_from_ca q = r \<and> fst s' = fst s)"
  by (cases s; cases s') (auto simp: on_ca_def split: prod.splits)

definition not_configured :: api_error where
  "not_configured = Internal ''certificate authority is not configured''"

record issue_certificate_request =
  icr_public_key :: string
  icr_hostname :: string
  icr_ttl_seconds :: u32
  icr_provider :: "string option"

datatype cert_io = CertDenial | CertAudit

definition issued_metadata :: "identity \<Rightarrow> certificate_response \<Rightarrow> json \<Rightarrow> json" where
  "issued_metadata ident response client =
     json_object
       [(''serial'', JNum (int (cr_serial response))), (''fingerprint'', JStr (cr_fingerprint response)),
        (''principal'', JStr (cr_principal response)), (''ttl_seconds'', JNum (uint (cr_ttl_seconds response))),
        (''valid_before'', JStr (cr_valid_before response)), (''ca_key_id'', JStr (cr_ca_key_id response)),
        (''ca_fingerprint'', JStr (cr_ca_fingerprint response)), (''provider'', JStr (id_provider ident)),
        (''subject'', JStr (id_subject ident)), (''realm'', json_opt_str (id_realm ident)),
        (''groups'', JArr (map JStr (id_groups ident))), (''roles'', JArr (map JStr (id_roles ident))),
        (''client'', client)]"

definition issue ::
  "externals \<Rightarrow> (cert_io \<Rightarrow> bool) \<Rightarrow> server_env
     \<Rightarrow> (certificate_request \<Rightarrow> 'm \<Rightarrow> (ca_error, certificate_response) result \<times> 'm) option
     \<Rightarrow> http_call \<Rightarrow> issue_certificate_request \<Rightarrow> (database \<times> 'm, certificate_response) handler" where
  "issue x io env ca call request =
     hbind (hlift (ok_or not_configured ca)) (\<lambda>sign.
     hbind (hlift (resolve_identity (se_registry env) (se_access env) (icr_provider request) (hc_token call))) (\<lambda>ident.
     case authorize x (se_access env) ident of
       Deny reason \<Rightarrow>
         hbind (on_db (append_event x (io CertDenial) (audit_now env)
           (with_metadata (json_object [(''reason'', JStr reason), (''provider'', JStr (id_provider ident)),
               (''subject'', JStr (id_subject ident))])
             (with_subject (icr_hostname request) (new_entry ''certificate.denied'' (id_username ident)))))) (\<lambda>_.
         hlift (Inl (api_from_denied reason)))
     | Allow \<Rightarrow>
         hbind (on_ca (sign \<lparr> crq_principal = id_username ident, crq_hostname = icr_hostname request,
             crq_public_key = icr_public_key request, crq_ttl_seconds = icr_ttl_seconds request \<rparr>)) (\<lambda>response.
         hbind (on_db (append_event x (io CertAudit) (audit_now env)
           (with_metadata (issued_metadata ident response (client_context x env ident call))
             (with_subject (icr_hostname request) (new_entry ''certificate.issued'' (id_username ident)))))) (\<lambda>_.
         hreturn response))))"

definition validate ::
  "(string \<Rightarrow> instant \<Rightarrow> 'm \<Rightarrow> (ca_error, certificate_validation) result) option \<Rightarrow> instant \<Rightarrow> string
     \<Rightarrow> (database \<times> 'm, certificate_validation) handler" where
  "validate ca now certificate =
     hbind (hlift (ok_or not_configured ca)) (\<lambda>verify.
     on_ca (\<lambda>m. (verify certificate now m, m)))"

section \<open>What an issued certificate says\<close>

lemma validate_ttl_Inr_iff:
  "validate_ttl t = Inr ttl \<longleftrightarrow> ttl = (if t = 0 then 300 else t) \<and> 60 \<le> uint ttl \<and> uint ttl \<le> 3600"
  by (auto simp: validate_ttl_def Let_def DEFAULT_TTL_SECONDS_def MIN_TTL_SECONDS_def MAX_TTL_SECONDS_def word_le_def)

text \<open>
  C27. A certificate that a key signs names exactly one principal, the trimmed one of the request, is valid from
  the time of issue for the requested 60 to 3600 seconds (300 when none is given), carries the three standard
  extensions and no other, and the response repeats these values; a request outside those bounds is refused.
\<close>

theorem signed_certificate_sound:
  "(sign_certificate x l k request now key_id = Inr resp \<longrightarrow>
      (\<exists>subject cert. let d = certificate_for subject key_id (trim (crq_principal request)) (trim (crq_hostname request))
            (nat now) (cr_ttl_seconds resp) in
         from_openssh x (crq_public_key request) = Some subject
       \<and> cl_sign l (ck_private_key k) d = Inr cert \<and> cl_cert_to_openssh l cert = Inr (cr_certificate resp)
       \<and> 0 \<le> now \<and> int (cd_valid_after d) = now
       \<and> int (cd_valid_before d) = now + uint (cr_ttl_seconds resp)
       \<and> cd_valid_principals d = [cr_principal resp] \<and> cr_principal resp = trim (crq_principal request)
       \<and> cr_principal resp \<noteq> []
       \<and> map fst (cd_extensions d) = [''permit-pty'', ''permit-port-forwarding'', ''permit-agent-forwarding'']
       \<and> 60 \<le> uint (cr_ttl_seconds resp) \<and> uint (cr_ttl_seconds resp) \<le> 3600
       \<and> cr_ttl_seconds resp = (if crq_ttl_seconds request = 0 then 300 else crq_ttl_seconds request)
       \<and> int (cr_serial resp) = now))
   \<and> (crq_ttl_seconds request \<noteq> 0 \<longrightarrow> \<not> (60 \<le> uint (crq_ttl_seconds request) \<and> uint (crq_ttl_seconds request) \<le> 3600) \<longrightarrow>
      (\<exists>e. sign_certificate x l k request now key_id = Inl (InvalidRequest e)))"
proof (intro conjI impI)
  assume "sign_certificate x l k request now key_id = Inr resp"
  then show "\<exists>subject cert. let d = certificate_for subject key_id (trim (crq_principal request)) (trim (crq_hostname request))
            (nat now) (cr_ttl_seconds resp) in
         from_openssh x (crq_public_key request) = Some subject
       \<and> cl_sign l (ck_private_key k) d = Inr cert \<and> cl_cert_to_openssh l cert = Inr (cr_certificate resp)
       \<and> 0 \<le> now \<and> int (cd_valid_after d) = now
       \<and> int (cd_valid_before d) = now + uint (cr_ttl_seconds resp)
       \<and> cd_valid_principals d = [cr_principal resp] \<and> cr_principal resp = trim (crq_principal request)
       \<and> cr_principal resp \<noteq> []
       \<and> map fst (cd_extensions d) = [''permit-pty'', ''permit-port-forwarding'', ''permit-agent-forwarding'']
       \<and> 60 \<le> uint (cr_ttl_seconds resp) \<and> uint (cr_ttl_seconds resp) \<le> 3600
       \<and> cr_ttl_seconds resp = (if crq_ttl_seconds request = 0 then 300 else crq_ttl_seconds request)
       \<and> int (cr_serial resp) = now"
    by (auto simp: sign_certificate_def Let_def result_simps validate_ttl_Inr_iff certificate_for_def STANDARD_EXTENSIONS_def
        split: if_splits)
next
  assume "crq_ttl_seconds request \<noteq> 0" "\<not> (60 \<le> uint (crq_ttl_seconds request) \<and> uint (crq_ttl_seconds request) \<le> 3600)"
  then show "\<exists>e. sign_certificate x l k request now key_id = Inl (InvalidRequest e)"
    by (auto simp: sign_certificate_def validate_ttl_def Let_def MIN_TTL_SECONDS_def MAX_TTL_SECONDS_def word_le_def)
qed

text \<open>
  What is relied on of \<^verbatim>\<open>CaManager::sign_certificate\<close>: a certificate it returns was signed by one of its keys, by the
  function above.
\<close>

definition manager_signs ::
  "externals \<Rightarrow> cert_library \<Rightarrow> (certificate_request \<Rightarrow> 'm \<Rightarrow> (ca_error, certificate_response) result \<times> 'm) \<Rightarrow> bool" where
  "manager_signs x l sign \<longleftrightarrow>
     (\<forall>request m resp m'. sign request m = (Inr resp, m') \<longrightarrow>
        (\<exists>k now key_id. sign_certificate x l k request now key_id = Inr resp))"

lemma sign_certificate_response:
  "sign_certificate x l k request now key_id = Inr resp \<Longrightarrow>
     cr_principal resp = trim (crq_principal request) \<and> 60 \<le> uint (cr_ttl_seconds resp) \<and> uint (cr_ttl_seconds resp) \<le> 3600"
  by (auto simp: sign_certificate_def Let_def result_simps validate_ttl_Inr_iff split: if_splits)

lemma logged_event:
  assumes "append_event x up now (with_metadata md (with_subject subj (new_entry event actor))) db = (res, db')"
  shows "db_machines db' = db_machines db \<and> db_tokens db' = db_tokens db
    \<and> (if res = Inr () then logged db db' event actor subj else db' = db)"
  using assms
  by (cases rule: append_event_cases) (auto simp: logged_def with_metadata_def with_subject_def new_entry_def)

lemma issue_denied:
  assumes "issue x io env (Some sign) call request (db, m) = (res, s')"
    "\<forall>ident. resolve_identity (se_registry env) (se_access env) (icr_provider request) (hc_token call) = Inr ident \<longrightarrow>
       \<not> is_allowed (authorize x (se_access env) ident)"
  shows "(\<exists>e. res = Inl e) \<and> snd s' = m \<and> db_machines (fst s') = db_machines db \<and> db_tokens (fst s') = db_tokens db
    \<and> (fst s' = db \<or> (\<exists>actor. logged db (fst s') ''certificate.denied'' actor (icr_hostname request)))"
proof (cases "resolve_identity (se_registry env) (se_access env) (icr_provider request) (hc_token call)")
  case (Inl e)
  with assms(1) show ?thesis by (auto simp: issue_def hbind_def hlift_def)
next
  case (Inr ident)
  with assms(2) obtain reason where d: "authorize x (se_access env) ident = Deny reason"
    by (cases "authorize x (se_access env) ident") auto
  let ?ev = "with_metadata (json_object [(''reason'', JStr reason), (''provider'', JStr (id_provider ident)),
       (''subject'', JStr (id_subject ident))])
     (with_subject (icr_hostname request) (new_entry ''certificate.denied'' (id_username ident)))"
  obtain r db1 where a: "append_event x (io CertDenial) (audit_now env) ?ev db = (r, db1)" by force
  have "(res, s') = (case r of Inl e \<Rightarrow> (Inl e, (db1, m)) | Inr _ \<Rightarrow> (Inl (api_from_denied reason), (db1, m)))"
    using assms(1) Inr d a by (simp add: issue_def hbind_def hlift_def on_db_def split: sum.splits)
  with logged_event [OF a] show ?thesis by (cases r) auto
qed

text \<open>
  C28. A certificate is issued only to an authenticated and authorized caller, for the caller's own username whatever the
  request body says, with a lifetime of 60 to 3600 seconds, and leaves exactly one audit entry
  with the caller and the host; a caller who is not authorized gets no certificate and the certificate
  authority is not called.
\<close>

theorem certificate_only_for_caller:
  assumes "manager_signs x l sign" "issue x io env (Some sign) call request (db, m) = (res, s')"
  shows "(\<forall>resp. res = Inr resp \<longrightarrow>
      (\<exists>ident. resolve_identity (se_registry env) (se_access env) (icr_provider request) (hc_token call) = Inr ident
         \<and> is_allowed (authorize x (se_access env) ident) \<and> cr_principal resp = trim (id_username ident)
         \<and> 60 \<le> uint (cr_ttl_seconds resp) \<and> uint (cr_ttl_seconds resp) \<le> 3600
         \<and> logged db (fst s') ''certificate.issued'' (id_username ident) (icr_hostname request)
         \<and> db_machines (fst s') = db_machines db \<and> db_tokens (fst s') = db_tokens db))
    \<and> ((\<forall>ident. resolve_identity (se_registry env) (se_access env) (icr_provider request) (hc_token call) = Inr ident \<longrightarrow>
          \<not> is_allowed (authorize x (se_access env) ident)) \<longrightarrow>
        (\<exists>e. res = Inl e) \<and> snd s' = m
        \<and> (fst s' = db \<or> (\<exists>actor. logged db (fst s') ''certificate.denied'' actor (icr_hostname request))))"
proof (intro conjI allI impI)
  fix resp assume res: "res = Inr resp"
  obtain ident where i: "resolve_identity (se_registry env) (se_access env) (icr_provider request) (hc_token call) = Inr ident"
    using assms(2) res
    by (cases "resolve_identity (se_registry env) (se_access env) (icr_provider request) (hc_token call)")
      (auto simp: issue_def hbind_def hlift_def)
  have a: "authorize x (se_access env) ident = Allow"
  proof (rule ccontr)
    assume "authorize x (se_access env) ident \<noteq> Allow"
    then have "\<not> is_allowed (authorize x (se_access env) ident)" by (cases "authorize x (se_access env) ident") auto
    with issue_denied [OF assms(2)] i res show False by simp
  qed
  let ?rq = "\<lparr> crq_principal = id_username ident, crq_hostname = icr_hostname request,
             crq_public_key = icr_public_key request, crq_ttl_seconds = icr_ttl_seconds request \<rparr>"
  have "hbind (on_ca (sign ?rq)) (\<lambda>response.
         hbind (on_db (append_event x (io CertAudit) (audit_now env)
           (with_metadata (issued_metadata ident response (client_context x env ident call))
             (with_subject (icr_hostname request) (new_entry ''certificate.issued'' (id_username ident)))))) (\<lambda>_.
         hreturn response)) (db, m) = (Inr resp, s')"
    using assms(2) res i a by (simp add: issue_def hbind_def hlift_def)
  then obtain m1 u where sg: "sign ?rq m = (Inr resp, m1)"
    and ev: "append_event x (io CertAudit) (audit_now env)
           (with_metadata (issued_metadata ident resp (client_context x env ident call))
             (with_subject (icr_hostname request) (new_entry ''certificate.issued'' (id_username ident)))) db = (Inr u, fst s')"
    by (auto simp: result_simps)
  from assms(1) sg obtain k now key_id where "sign_certificate x l k ?rq now key_id = Inr resp"
    unfolding manager_signs_def by blast
  from sign_certificate_response [OF this] logged_event [OF ev] i a
  show "\<exists>ident. resolve_identity (se_registry env) (se_access env) (icr_provider request) (hc_token call) = Inr ident
         \<and> is_allowed (authorize x (se_access env) ident) \<and> cr_principal resp = trim (id_username ident)
         \<and> 60 \<le> uint (cr_ttl_seconds resp) \<and> uint (cr_ttl_seconds resp) \<le> 3600
         \<and> logged db (fst s') ''certificate.issued'' (id_username ident) (icr_hostname request)
         \<and> db_machines (fst s') = db_machines db \<and> db_tokens (fst s') = db_tokens db"
    by (intro exI [of _ ident]) simp
qed (use issue_denied [OF assms(2)] in blast)+

section \<open>Witnesses\<close>

definition demo_cert_library :: cert_library where
  "demo_cert_library = \<lparr> cl_parse_error = (\<lambda>_. []), cl_public_to_openssh = (\<lambda>_. Inr ''ssh-ed25519 CA''),
     cl_private_from_openssh = (\<lambda>_. Inl []), cl_private_to_openssh = (\<lambda>_. Inl []), cl_encrypt = (\<lambda>_ _. Inl []),
     cl_decrypt = (\<lambda>_ _. None), cl_sign = (\<lambda>_ _. Inr []), cl_cert_to_openssh = (\<lambda>_. Inr ''ssh-ed25519-cert''),
     cl_validate_at_start = (\<lambda>_ _. True), cl_from_timestamp = (\<lambda>s. Some (seconds s)) \<rparr>"

definition demo_ca_key :: ca_key where
  "demo_ca_key = \<lparr> ck_private_key = \<lparr> pk_public = \<lparr> ssh_algorithm = Ed25519, ssh_key_bytes = [], ssh_comment = [] \<rparr>,
       pk_encrypted = False, pk_secret = [] \<rparr>, ck_public_key = ''ssh-ed25519 CA'', ck_fingerprint = ''SHA256:ca'' \<rparr>"

definition demo_sign :: "certificate_request \<Rightarrow> nat \<Rightarrow> (ca_error, certificate_response) result \<times> nat" where
  "demo_sign request m = (sign_certificate ref_externals demo_cert_library demo_ca_key request 1000 ''ca-01'', m + 1)"

definition demo_cert_request :: "string \<Rightarrow> u32 \<Rightarrow> certificate_request" where
  "demo_cert_request who ttl = \<lparr> crq_principal = who, crq_hostname = ''web-01'',
     crq_public_key = ''ssh-ed25519 AAAA'', crq_ttl_seconds = ttl \<rparr>"

lemma demo_trim: "trim ''ann'' = ''ann''" "trim ''web-01'' = ''web-01''" by code_simp+

lemma demo_certificate:
  "\<exists>resp. sign_certificate ref_externals demo_cert_library demo_ca_key (demo_cert_request ''ann'' 0) 1000 ''ca-01'' = Inr resp"
  by (simp add: sign_certificate_def demo_cert_request_def Let_def result_simps validate_ttl_Inr_iff demo_trim
      demo_cert_library_def) (simp add: ref_externals_def ref_from_openssh_def)

theorem signed_certificate_sound_witness:
  "\<exists>resp. sign_certificate ref_externals demo_cert_library demo_ca_key (demo_cert_request ''ann'' 0) 1000 ''ca-01'' = Inr resp
     \<and> cr_principal resp = ''ann'' \<and> cr_ttl_seconds resp = 300 \<and> int (cr_serial resp) = 1000"
proof -
  obtain resp where r: "sign_certificate ref_externals demo_cert_library demo_ca_key (demo_cert_request ''ann'' 0) 1000 ''ca-01''
      = Inr resp" using demo_certificate by blast
  have "cr_principal resp = trim (crq_principal (demo_cert_request ''ann'' 0)) \<and> int (cr_serial resp) = 1000
    \<and> cr_ttl_seconds resp = (if crq_ttl_seconds (demo_cert_request ''ann'' 0) = 0 then 300 else crq_ttl_seconds (demo_cert_request ''ann'' 0))"
    using signed_certificate_sound [of ref_externals demo_cert_library demo_ca_key "demo_cert_request ''ann'' 0" 1000 "''ca-01''" resp] r
    unfolding Let_def by blast
  then have "cr_principal resp = ''ann''" "int (cr_serial resp) = 1000" "cr_ttl_seconds resp = 300"
    by (simp_all add: demo_cert_request_def demo_trim)
  with r show ?thesis by blast
qed

theorem certificate_only_for_caller_witness:
  "\<exists>resp db'. issue ref_externals (\<lambda>_. True) demo_env (Some demo_sign) demo_call
      \<lparr> icr_public_key = ''ssh-ed25519 AAAA'', icr_hostname = ''web-01'', icr_ttl_seconds = 0, icr_provider = None \<rparr>
      (demo_database, 0) = (Inr resp, (db', 1))
    \<and> cr_principal resp = ''ann'' \<and> logged demo_database db' ''certificate.issued'' ''ann'' ''web-01''"
proof -
  let ?rq = "\<lparr> icr_public_key = ''ssh-ed25519 AAAA'', icr_hostname = ''web-01'', icr_ttl_seconds = 0, icr_provider = None \<rparr>"
  obtain ident where i: "resolve_identity (se_registry demo_env) (se_access demo_env) None (hc_token demo_call) = Inr ident"
    "is_allowed (authorize ref_externals (se_access demo_env) ident)" "id_username ident = ''ann''"
    by (rule demo_admin)
  then have a: "authorize ref_externals (se_access demo_env) ident = Allow"
    by (cases "authorize ref_externals (se_access demo_env) ident") auto
  obtain resp where r: "sign_certificate ref_externals demo_cert_library demo_ca_key (demo_cert_request ''ann'' 0) 1000 ''ca-01''
      = Inr resp" using demo_certificate by blast
  have "json_wf (issued_metadata ident resp (client_context ref_externals demo_env ident demo_call))"
    unfolding issued_metadata_def by (rule json_wf_json_object) (cases "id_realm ident"; auto)
  then have "json_wf (nae_metadata (with_metadata (issued_metadata ident resp (client_context ref_externals demo_env ident demo_call))
      (with_subject ''web-01'' (new_entry ''certificate.issued'' ''ann''))))"
    by (simp add: with_metadata_def)
  from append_event_ok [OF ref_json_contract demo_database_inv this demo_clocked [of 2]]
  obtain db' where ev: "append_event ref_externals True (audit_now demo_env)
      (with_metadata (issued_metadata ident resp (client_context ref_externals demo_env ident demo_call))
        (with_subject ''web-01'' (new_entry ''certificate.issued'' ''ann''))) demo_database = (Inr (), db')"
    unfolding audit_now_def by blast
  have iss: "issue ref_externals (\<lambda>_. True) demo_env (Some demo_sign) demo_call ?rq (demo_database, 0) = (Inr resp, (db', 1))"
    using i a r ev
    by (simp add: issue_def hbind_def hlift_def hreturn_def on_ca_def on_db_def demo_sign_def demo_cert_request_def)
  have "manager_signs ref_externals demo_cert_library demo_sign"
    by (auto simp: manager_signs_def demo_sign_def)
  from certificate_only_for_caller [OF this iss] i iss show ?thesis by (auto simp: demo_trim)
qed

end
