(* ===== verification/CanonicalJson.thy ===== *)
theory CanonicalJson
  imports TextOps
begin

text \<open>
  Hand-written JSON text: quoted members, escaped strings and arrays.  The server builds two such
  documents whose bytes are hashed or signed (\<^verbatim>\<open>src/cabundle/models.rs\<close>, \<^verbatim>\<open>src/bundle/canonical.rs\<close>), each
  with an escaping of its own; what both need is that text determines content.
\<close>

section \<open>Text that delimits itself\<close>

definition dquote :: char where "dquote = CHR 0x22"
definition backslash :: char where "backslash = CHR 0x5C"

text \<open>A member name of an object, quoted and with its colon.\<close>

definition member :: "string \<Rightarrow> string" where
  "member name = [dquote] @ name @ [dquote] @ '':''"

definition self_delimiting :: "('a \<Rightarrow> string) \<Rightarrow> bool" where
  "self_delimiting f \<longleftrightarrow> (\<forall>a b r s. f a @ r = f b @ s \<longrightarrow> a = b \<and> r = s)"

lemma self_delimitingD: "self_delimiting f \<Longrightarrow> f a @ r = f b @ s \<Longrightarrow> a = b \<and> r = s"
  unfolding self_delimiting_def by blast

text \<open>A decimal number followed by something that is not part of one.\<close>

lemma delimited_eqD:
  "a @ c # r = b @ c # s \<Longrightarrow> c \<notin> set a \<Longrightarrow> c \<notin> set b \<Longrightarrow> a = b \<and> r = s"
proof (induction a arbitrary: b)
  case Nil
  then show ?case by (cases b) auto
next
  case (Cons d a)
  then show ?case by (cases b) auto
qed

lemma show_int_delimited: "show_int m @ CHR '','' # r = show_int n @ CHR '','' # s \<Longrightarrow> m = n \<and> r = s"
proof -
  have "CHR '','' \<notin> set (show_int k)" for k
    using show_int_chars [of "CHR '',''" k] by (auto simp: is_ascii_digit_def char_code_def)
  then show "show_int m @ CHR '','' # r = show_int n @ CHR '','' # s \<Longrightarrow> m = n \<and> r = s"
    by (auto dest: delimited_eqD)
qed

text \<open>Elements separated by commas up to a closing bracket.\<close>

lemma separated_eqD:
  assumes "self_delimiting f" "\<And>a. f a \<noteq> []" "\<And>a. hd (f a) \<noteq> CHR '']''"
    and "intercalate '','' (map f as) @ CHR '']'' # r = intercalate '','' (map f bs) @ CHR '']'' # s"
  shows "as = bs \<and> r = s"
proof -
  have tail: "as = bs \<and> r = s"
    if "concat (map (\<lambda>a. '','' @ f a) as) @ CHR '']'' # r = concat (map (\<lambda>a. '','' @ f a) bs) @ CHR '']'' # s"
    for as bs r s
    using that
  proof (induction as arbitrary: bs)
    case Nil
    then show ?case by (cases bs) auto
  next
    case (Cons a as)
    then obtain b bs' where "bs = b # bs'" by (cases bs) auto
    with Cons.prems Cons.IH [of bs'] self_delimitingD [OF assms(1)] show ?case by auto
  qed
  have hd: "f a @ r \<noteq> CHR '']'' # s" for a r s
    using assms(2,3) [of a] by (cases "f a") auto
  show ?thesis
  proof (cases as)
    case Nil
    then show ?thesis using assms(4) hd by (cases bs) (auto simp: intercalate_def dest: sym)
  next
    case (Cons a as')
    then obtain b bs' where bs: "bs = b # bs'"
      using assms(4) hd by (cases bs) (auto simp: intercalate_def)
    with Cons assms(4) have "f a @ concat (map (\<lambda>a. '','' @ f a) as') @ CHR '']'' # r =
        f b @ concat (map (\<lambda>a. '','' @ f a) bs') @ CHR '']'' # s"
      by (simp add: intercalate_def o_def)
    from self_delimitingD [OF assms(1) this] tail [of as' r bs' s] Cons bs show ?thesis by simp
  qed
qed

section \<open>Escapings\<close>

text \<open>
  What an escaping of the bytes of a string has to satisfy: codes are nonempty, no code begins with
  the quote that ends the string, and no code is the beginning of another.
\<close>

locale json_escaper =
  fixes esc :: "char \<Rightarrow> string"
  assumes esc_nonempty: "esc c \<noteq> []"
    and esc_no_quote: "hd (esc c) \<noteq> dquote"
    and esc_prefix_free: "esc c @ r = esc d @ s \<Longrightarrow> c = d"
begin

lemma esc_not_quote: "esc c @ r \<noteq> dquote # s" "dquote # s \<noteq> esc c @ r"
  using esc_nonempty [of c] esc_no_quote [of c] by (cases "esc c"; simp)+

lemma body_eqD:
  "concat (map esc u) @ dquote # r = concat (map esc v) @ dquote # s \<Longrightarrow> u = v \<and> r = s"
proof (induction u arbitrary: v)
  case Nil
  then show ?case by (cases v) (simp_all add: esc_not_quote)
next
  case (Cons c u)
  then obtain d v' where v: "v = d # v'" by (cases v) (simp_all add: esc_not_quote)
  with Cons.prems have eq: "esc c @ concat (map esc u) @ dquote # r = esc d @ concat (map esc v') @ dquote # s"
    by simp
  then have "c = d" by (rule esc_prefix_free)
  with eq Cons.IH [of v'] v show ?case by simp
qed

lemma quoted_delimits: "self_delimiting (\<lambda>v. dquote # concat (map esc v) @ [dquote])"
  unfolding self_delimiting_def by (auto dest: body_eqD)

end

text \<open>The codes that both escapings consist of.\<close>

definition unicode_escape :: "char \<Rightarrow> string" where
  "unicode_escape c = [backslash] @ ''u00'' @ [lower_hex_digit (char_code c div 16), lower_hex_digit (char_code c mod 16)]"

lemma lower_hex_digit_inject: "m < 16 \<Longrightarrow> n < 16 \<Longrightarrow> lower_hex_digit m = lower_hex_digit n \<longleftrightarrow> m = n"
  by (auto simp: lower_hex_digit_def of_char_of take_bit_eq_mod split: if_splits dest!: arg_cong [of _ _ "of_char :: char \<Rightarrow> nat"])

lemma char_code_less: "char_code c < 256"
  by (simp add: char_code_def)

lemma unicode_escape_inject: "unicode_escape c @ r = unicode_escape d @ s \<Longrightarrow> c = d"
proof -
  assume "unicode_escape c @ r = unicode_escape d @ s"
  moreover have "char_code k div 16 < 16" for k using char_code_less [of k] by simp
  ultimately have "char_code c div 16 = char_code d div 16" "char_code c mod 16 = char_code d mod 16"
    by (simp_all add: unicode_escape_def lower_hex_digit_inject)
  then have "char_code c = char_code d" by (metis div_mult_mod_eq)
  then show "c = d" by simp
qed

text \<open>
  An escaping by a table of two-character escapes, \<^verbatim>\<open>\u00xx\<close> for the other control characters, and every other
  byte as it is.
\<close>

definition escape_with :: "(char \<times> char) list \<Rightarrow> char \<Rightarrow> string" where
  "escape_with shorts c =
     (case map_of shorts c of
        Some e \<Rightarrow> [backslash, e]
      | None \<Rightarrow> if char_code c < 32 then unicode_escape c else [c])"

definition shorts_ok :: "(char \<times> char) list \<Rightarrow> bool" where
  "shorts_ok shorts \<longleftrightarrow> distinct (map snd shorts) \<and> CHR ''u'' \<notin> snd ` set shorts
     \<and> map_of shorts dquote \<noteq> None \<and> map_of shorts backslash \<noteq> None"

lemma map_of_inject_snd:
  assumes "distinct (map snd ps)" "map_of ps a = Some e" "map_of ps b = Some e"
  shows "a = b"
proof -
  have "(a, e) \<in> set ps" "(b, e) \<in> set ps" using assms(2,3) by (auto dest: map_of_SomeD)
  then show ?thesis using assms(1) by (metis distinct_map inj_onD prod.inject snd_conv)
qed

lemma escape_with_escaper:
  assumes ok: "shorts_ok shorts"
  shows "json_escaper (escape_with shorts)"
proof
  fix c d :: char and r s :: string
  show "escape_with shorts c \<noteq> []"
    by (simp add: escape_with_def unicode_escape_def split: option.split)
  have bs: "backslash \<noteq> dquote" by (simp add: backslash_def dquote_def)
  show "hd (escape_with shorts c) \<noteq> dquote"
    using ok bs by (auto simp: escape_with_def unicode_escape_def shorts_ok_def split: option.split)
  have no_u: "map_of shorts k \<noteq> Some (CHR ''u'')" for k
    using ok map_of_SomeD [of shorts k "CHR ''u''"] by (force simp: shorts_ok_def)
  have lit: "map_of shorts k = None \<Longrightarrow> k \<noteq> backslash" for k
    using ok by (auto simp: shorts_ok_def)
  assume eq: "escape_with shorts c @ r = escape_with shorts d @ s"
  show "c = d"
  proof (cases "map_of shorts c"; cases "map_of shorts d")
    fix e f assume ef: "map_of shorts c = Some e" "map_of shorts d = Some f"
    with eq have "e = f" by (simp add: escape_with_def)
    with ef show ?thesis using ok map_of_inject_snd by (auto simp: shorts_ok_def)
  next
    fix e assume "map_of shorts c = Some e" "map_of shorts d = None"
    then show ?thesis using eq lit [of d] no_u [of c]
      by (auto simp: escape_with_def unicode_escape_def split: if_splits)
  next
    fix f assume "map_of shorts c = None" "map_of shorts d = Some f"
    then show ?thesis using eq lit [of c] no_u [of d]
      by (auto simp: escape_with_def unicode_escape_def split: if_splits)
  next
    assume n: "map_of shorts c = None" "map_of shorts d = None"
    show ?thesis
    proof (cases "char_code c < 32 \<and> char_code d < 32")
      case True
      then show ?thesis using eq n unicode_escape_inject by (auto simp: escape_with_def)
    next
      case False
      then show ?thesis using eq n lit [of c] lit [of d]
        by (auto simp: escape_with_def unicode_escape_def split: if_splits)
    qed
  qed
qed

end
