(* ===== verification/CaBundle.thy ===== *)
theory CaBundle
  imports CanonicalJson AgentAuth "HOL-Library.Product_Lexorder"
begin

text \<open>
  The validated CA bundle and its fingerprint (\<^verbatim>\<open>src/cabundle\<close>): assembling a bundle from a set of keys,
  the canonical JSON that is hashed, the key tables, and the acknowledgement of a bundle by a machine.
\<close>

section \<open>Data\<close>

definition MIN_CA_KEYS :: nat where "MIN_CA_KEYS = 1"
definition MAX_CA_KEYS :: nat where "MAX_CA_KEYS = 64"
definition MAX_KEY_ID_LEN :: nat where "MAX_KEY_ID_LEN = 64"
definition MAX_PUBLIC_KEY_LEN :: nat where "MAX_PUBLIC_KEY_LEN = 4096"
definition MAX_FINGERPRINT_LEN :: nat where "MAX_FINGERPRINT_LEN = 128"

record ca_key_record =
  ckr_key_id :: string
  ckr_public_key :: string
  ckr_created_at :: string
  ckr_generation :: int
  ckr_enabled :: bool

record ack_request =
  ack_generation :: int
  ack_fingerprint :: string
  ack_status :: string

record ack_response =
  acr_status :: string
  acr_generation :: int

record ca_bundle_key =
  cbk_key_id :: string
  cbk_public_key :: string

record ca_bundle =
  cb_generation :: int
  cb_fingerprint :: string
  cb_keys :: "ca_bundle_key list"

datatype ca_bundle_error =
    BundleEmpty | TooManyKeys | DuplicateKeyId | DuplicatePublicKey | InvalidKeyId | InvalidPublicKey
  | InvalidGeneration | BundleDatabase sqlx_error

fun ca_bundle_error_display :: "ca_bundle_error \<Rightarrow> string" where
  "ca_bundle_error_display BundleEmpty = ''bundle must contain at least one key''"
| "ca_bundle_error_display TooManyKeys = ''bundle exceeds the maximum of 64 keys''"
| "ca_bundle_error_display DuplicateKeyId = ''bundle contains a duplicate key_id''"
| "ca_bundle_error_display DuplicatePublicKey = ''bundle contains a duplicate public_key''"
| "ca_bundle_error_display InvalidKeyId = ''bundle contains an invalid key_id''"
| "ca_bundle_error_display InvalidPublicKey = ''bundle contains an invalid CA public key''"
| "ca_bundle_error_display InvalidGeneration = ''bundle generation is invalid''"
| "ca_bundle_error_display (BundleDatabase e) = ''CA bundle database error''"

definition api_from_ca_bundle :: "ca_bundle_error \<Rightarrow> api_error" where
  "api_from_ca_bundle e = Internal (ca_bundle_error_display e)"

datatype ack_error = AckInvalid string | AckMismatch | AckUnknownMachine | AckBundle ca_bundle_error

fun api_from_ack :: "ack_error \<Rightarrow> api_error" where
  "api_from_ack (AckInvalid msg) = BadRequest msg"
| "api_from_ack AckMismatch =
     Conflict ''acknowledged generation or fingerprint does not match the current bundle''"
| "api_from_ack AckUnknownMachine = Unauthorized ''request authentication failed''"
| "api_from_ack (AckBundle e) = api_from_ca_bundle e"

section \<open>Canonical JSON and fingerprint\<close>

definition short_escapes :: "(char \<times> char) list" where
  "short_escapes = [(dquote, dquote), (backslash, backslash), (CHR 0x0A, CHR ''n''), (CHR 0x0D, CHR ''r''),
     (CHR 0x09, CHR ''t'')]"

definition escape_char :: "char \<Rightarrow> string" where
  "escape_char c = escape_with short_escapes c"

definition json_escape :: "string \<Rightarrow> string" where
  "json_escape v = dquote # concat (map escape_char v) @ [dquote]"

definition key_object :: "ca_bundle_key \<Rightarrow> string" where
  "key_object k = ''{'' @ member ''key_id'' @ json_escape (cbk_key_id k)
     @ '','' @ member ''public_key'' @ json_escape (cbk_public_key k) @ ''}''"

definition canonical_json :: "int \<Rightarrow> ca_bundle_key list \<Rightarrow> string" where
  "canonical_json generation keys =
     ''{'' @ member ''generation'' @ show_int generation
     @ '','' @ member ''keys'' @ ''['' @ intercalate '','' (map key_object keys) @ '']}''"

definition compute_fingerprint :: "externals \<Rightarrow> int \<Rightarrow> ca_bundle_key list \<Rightarrow> string" where
  "compute_fingerprint x generation keys =
     ''sha256:'' @ sha256_hex x (as_bytes (canonical_json generation keys))"

section \<open>Assembling a bundle\<close>

definition validate_key_id :: "string \<Rightarrow> (ca_bundle_error, unit) result" where
  "validate_key_id key_id =
     (if key_id = [] \<or> length key_id > MAX_KEY_ID_LEN then Inl InvalidKeyId
      else if list_all (\<lambda>c. is_ascii_alphanumeric c \<or> c \<in> set ''-_.:'') key_id then Inr ()
      else Inl InvalidKeyId)"

definition validate_ca_public_key :: "externals \<Rightarrow> string \<Rightarrow> (ca_bundle_error, unit) result" where
  "validate_ca_public_key x public_key =
     (if public_key = [] \<or> length public_key > MAX_PUBLIC_KEY_LEN \<or> has_control public_key
      then Inl InvalidPublicKey
      else
        (case from_openssh x public_key of
           None \<Rightarrow> Inl InvalidPublicKey
         | Some key \<Rightarrow> if ssh_algorithm key = Ed25519 then Inr () else Inl InvalidPublicKey))"

text \<open>The loop over the sorted keys, with the identifier of the key before.\<close>

fun check_keys :: "externals \<Rightarrow> string option \<Rightarrow> ca_bundle_key list \<Rightarrow> (ca_bundle_error, unit) result" where
  "check_keys x prev [] = Inr ()"
| "check_keys x prev (k # ks) =
     rbind (validate_key_id (cbk_key_id k)) (\<lambda>_.
     rbind (validate_ca_public_key x (cbk_public_key k)) (\<lambda>_.
     if prev = Some (cbk_key_id k) then Inl DuplicateKeyId
     else check_keys x (Some (cbk_key_id k)) ks))"

fun adjacent_equal :: "'a list \<Rightarrow> bool" where
  "adjacent_equal (a # b # rest) \<longleftrightarrow> a = b \<or> adjacent_equal (b # rest)"
| "adjacent_equal _ \<longleftrightarrow> False"

definition sort_keys :: "ca_bundle_key list \<Rightarrow> ca_bundle_key list" where
  "sort_keys keys = sort_key (\<lambda>k. (cbk_key_id k, cbk_public_key k)) keys"

definition build :: "externals \<Rightarrow> int \<Rightarrow> ca_bundle_key list \<Rightarrow> (ca_bundle_error, ca_bundle) result" where
  "build x generation keys =
     (if generation < 1 then Inl InvalidGeneration
      else if length keys < MIN_CA_KEYS then Inl BundleEmpty
      else if length keys > MAX_CA_KEYS then Inl TooManyKeys
      else
        let keys = sort_keys keys in
        rbind (check_keys x None keys) (\<lambda>_.
        if adjacent_equal (sort (map cbk_public_key keys)) then Inl DuplicatePublicKey
        else Inr \<lparr> cb_generation = generation, cb_fingerprint = compute_fingerprint x generation keys,
                   cb_keys = keys \<rparr>))"

section \<open>Tables and service\<close>

record ca_key_row =
  ckw_key_id :: string
  ckw_public_key :: string
  ckw_created_at :: string
  ckw_generation :: int
  ckw_enabled :: int

text \<open>The key table and the generation in the single row of \<^verbatim>\<open>ca_bundle_state\<close>, when it is there.\<close>

record ca_store =
  cs_keys :: "ca_key_row list"
  cs_generation :: "int option"

definition record_of_row :: "ca_key_row \<Rightarrow> ca_key_record" where
  "record_of_row r =
     \<lparr> ckr_key_id = ckw_key_id r, ckr_public_key = ckw_public_key r, ckr_created_at = ckw_created_at r,
       ckr_generation = ckw_generation r, ckr_enabled = (ckw_enabled r \<noteq> 0) \<rparr>"

definition repo_current_generation :: "ca_store \<Rightarrow> int" where
  "repo_current_generation store = (case cs_generation store of Some g \<Rightarrow> g | None \<Rightarrow> 0)"

definition list_enabled :: "ca_store \<Rightarrow> ca_key_record list" where
  "list_enabled store = map record_of_row (sort_key ckw_key_id (filter (\<lambda>r. ckw_enabled r = 1) (cs_keys store)))"

definition repo_record_ack ::
  "externals \<Rightarrow> machine_table \<Rightarrow> string \<Rightarrow> int \<Rightarrow> string \<Rightarrow> instant \<Rightarrow> bool \<times> machine_table" where
  "repo_record_ack x tbl machine_id generation fingerprint now =
     (let now_text = to_text x now; sel = (\<lambda>r. mr_machine_id r = machine_id) in
      (rows_affected sel tbl = 1,
       update_where sel (\<lambda>r. r\<lparr> mr_synced_generation := Some generation, mr_bundle_fingerprint := Some fingerprint,
          mr_last_sync := Some now_text, mr_updated_at := now_text \<rparr>) tbl))"

definition repo_ensure_seeded :: "externals \<Rightarrow> ca_store \<Rightarrow> string \<Rightarrow> string \<Rightarrow> instant \<Rightarrow> ca_store" where
  "repo_ensure_seeded x store key_id public_key now =
     (if length (cs_keys store) = 0 then
        \<lparr> cs_keys = cs_keys store @ [\<lparr> ckw_key_id = key_id, ckw_public_key = public_key,
            ckw_created_at = to_text x now, ckw_generation = 1, ckw_enabled = 1 \<rparr>],
          cs_generation = Some 1 \<rparr>
      else store)"

definition ensure_seeded ::
  "externals \<Rightarrow> bool \<Rightarrow> ca_store \<Rightarrow> string \<Rightarrow> string \<Rightarrow> instant \<Rightarrow> (ca_bundle_error, unit) result \<times> ca_store" where
  "ensure_seeded x up store key_id public_key now =
     (if up then (Inr (), repo_ensure_seeded x store key_id public_key now)
      else (Inl (BundleDatabase SqlIo), store))"

definition service_current_generation :: "bool \<Rightarrow> ca_store \<Rightarrow> (ca_bundle_error, int) result" where
  "service_current_generation up store =
     rbind (ensure up (BundleDatabase SqlIo)) (\<lambda>_. Inr (repo_current_generation store))"

definition current_bundle :: "externals \<Rightarrow> bool \<Rightarrow> ca_store \<Rightarrow> (ca_bundle_error, ca_bundle) result" where
  "current_bundle x up store =
     rbind (ensure up (BundleDatabase SqlIo)) (\<lambda>_.
     build x (repo_current_generation store)
       (map (\<lambda>r. \<lparr> cbk_key_id = ckr_key_id r, cbk_public_key = ckr_public_key r \<rparr>) (list_enabled store)))"

text \<open>Reading the bundle and recording the acknowledgement may each fail.\<close>

definition record_ack ::
  "externals \<Rightarrow> bool \<Rightarrow> bool \<Rightarrow> ca_store \<Rightarrow> machine_table \<Rightarrow> string \<Rightarrow> ack_request \<Rightarrow> instant
     \<Rightarrow> (ack_error, ack_response) result \<times> machine_table" where
  "record_ack x read_up write_up store tbl machine_id ack now =
     (if trim (ack_status ack) \<noteq> ''success'' then
        (Inl (AckInvalid (''status must be '' @ quoted ''success'')), tbl)
      else
        let fingerprint = trim (ack_fingerprint ack) in
        if fingerprint = [] \<or> length fingerprint > MAX_FINGERPRINT_LEN then
          (Inl (AckInvalid ''fingerprint is invalid''), tbl)
        else
          (case current_bundle x read_up store of
             Inl e \<Rightarrow> (Inl (AckBundle e), tbl)
           | Inr bundle \<Rightarrow>
               if ack_generation ack \<noteq> cb_generation bundle \<or> fingerprint \<noteq> cb_fingerprint bundle then
                 (Inl AckMismatch, tbl)
               else if \<not> write_up then (Inl (AckBundle (BundleDatabase SqlIo)), tbl)
               else
                 let (updated, tbl') =
                   repo_record_ack x tbl machine_id (cb_generation bundle) (cb_fingerprint bundle) now in
                 if \<not> updated then (Inl AckUnknownMachine, tbl')
                 else (Inr \<lparr> acr_status = ''recorded'', acr_generation = cb_generation bundle \<rparr>, tbl')))"

section \<open>The text determines the content\<close>

lemma short_escapes_ok: "shorts_ok short_escapes"
  by (simp add: shorts_ok_def short_escapes_def dquote_def backslash_def)

interpretation bundle_text: json_escaper escape_char
  using escape_with_escaper [OF short_escapes_ok] by (simp add: escape_char_def [abs_def])

lemma json_escape_delimits: "self_delimiting json_escape"
  unfolding json_escape_def by (rule bundle_text.quoted_delimits)

lemma key_object_delimits: "self_delimiting key_object"
  unfolding self_delimiting_def
proof (intro allI impI)
  fix k l :: ca_bundle_key and r s
  assume "key_object k @ r = key_object l @ s"
  then have "json_escape (cbk_key_id k) @ '','' @ member ''public_key'' @ json_escape (cbk_public_key k) @ ''}'' @ r =
      json_escape (cbk_key_id l) @ '','' @ member ''public_key'' @ json_escape (cbk_public_key l) @ ''}'' @ s"
    by (simp add: key_object_def)
  then have "cbk_key_id k = cbk_key_id l" and
    "json_escape (cbk_public_key k) @ ''}'' @ r = json_escape (cbk_public_key l) @ ''}'' @ s"
    by (auto dest: self_delimitingD [OF json_escape_delimits])
  then show "k = l \<and> r = s" by (auto dest: self_delimitingD [OF json_escape_delimits])
qed

lemma canonical_json_inject:
  assumes "canonical_json g ks = canonical_json h ls"
  shows "g = h \<and> ks = ls"
proof -
  have "show_int g @ CHR '','' # member ''keys'' @ ''['' @ intercalate '','' (map key_object ks) @ '']}'' =
      show_int h @ CHR '','' # member ''keys'' @ ''['' @ intercalate '','' (map key_object ls) @ '']}''"
    using assms by (simp add: canonical_json_def)
  from show_int_delimited [OF this]
  have "g = h" "intercalate '','' (map key_object ks) @ CHR '']'' # ''}'' =
      intercalate '','' (map key_object ls) @ CHR '']'' # ''}''" by simp_all
  with separated_eqD [OF key_object_delimits _ _ this(2)] show ?thesis by (simp add: key_object_def)
qed

section \<open>What is assembled\<close>

lemma adjacent_equal_sorted: "sorted xs \<Longrightarrow> adjacent_equal xs \<longleftrightarrow> \<not> distinct xs"
  by (induction xs rule: adjacent_equal.induct) auto

definition key_ok :: "externals \<Rightarrow> ca_bundle_key \<Rightarrow> bool" where
  "key_ok x k \<longleftrightarrow> validate_key_id (cbk_key_id k) = Inr () \<and> validate_ca_public_key x (cbk_public_key k) = Inr ()"

lemma check_keys_Inr_iff:
  "check_keys x prev ks = Inr () \<longleftrightarrow>
     (\<forall>k \<in> set ks. key_ok x k) \<and>
     \<not> adjacent_equal ((case prev of None \<Rightarrow> [] | Some p \<Rightarrow> [p]) @ map cbk_key_id ks)"
proof (induction ks arbitrary: prev)
  case (Cons k ks)
  have "check_keys x prev (k # ks) = Inr () \<longleftrightarrow>
      key_ok x k \<and> prev \<noteq> Some (cbk_key_id k) \<and> check_keys x (Some (cbk_key_id k)) ks = Inr ()"
    by (auto simp: result_simps key_ok_def)
  then show ?case by (cases prev) (auto simp: Cons.IH)
qed (simp split: option.split)

lemma sort_keys_simps [simp]:
  "set (sort_keys ks) = set ks" "mset (sort_keys ks) = mset ks" "length (sort_keys ks) = length ks"
  by (simp_all add: sort_keys_def)

lemma sorted_sort_keys: "sorted (map cbk_key_id (sort_keys ks))"
proof -
  have "sorted (map (\<lambda>k. (cbk_key_id k, cbk_public_key k)) (sort_keys ks))"
    unfolding sort_keys_def by (rule sorted_sort_key)
  then show ?thesis by (auto simp: sorted_map less_eq_prod_simp elim!: sorted_wrt_mono_rel [rotated])
qed

lemma sort_keys_cong: "mset ks = mset ls \<Longrightarrow> sort_keys ks = sort_keys ls"
  unfolding sort_keys_def
  by (rule sort_key_inj_key_eq) (auto simp: inj_on_def)

lemma distinct_map_sort_keys [simp]: "distinct (map f (sort_keys ks)) \<longleftrightarrow> distinct (map f ks)"
  by (metis mset_map mset_eq_imp_distinct_iff sort_keys_simps(2))

lemma build_Inr_iff:
  "build x g ks = Inr b \<longleftrightarrow>
     1 \<le> g \<and> ks \<noteq> [] \<and> length ks \<le> 64 \<and> (\<forall>k \<in> set ks. key_ok x k)
     \<and> distinct (map cbk_key_id ks) \<and> distinct (map cbk_public_key ks)
     \<and> b = \<lparr> cb_generation = g, cb_fingerprint = compute_fingerprint x g (sort_keys ks), cb_keys = sort_keys ks \<rparr>"
  by (auto simp: build_def Let_def result_simps check_keys_Inr_iff adjacent_equal_sorted sorted_sort_keys
      MIN_CA_KEYS_def MAX_CA_KEYS_def)

lemma build_fingerprint: "build x g ks = Inr b \<Longrightarrow> cb_fingerprint b = compute_fingerprint x g (sort_keys ks)"
  by (simp add: build_Inr_iff)

text \<open>
  C25. A bundle is assembled exactly from a positive generation and 1 to 64 valid keys without a repeated identifier
  or public key; it holds them sorted by identifier, and neither the bundle nor the error
  when there is one depends on the order in which the database returned the keys.
\<close>

theorem ca_bundle_build_exact:
  "(build x g ks = Inr b \<longleftrightarrow>
      1 \<le> g \<and> ks \<noteq> [] \<and> length ks \<le> 64 \<and> (\<forall>k \<in> set ks. key_ok x k)
      \<and> distinct (map cbk_key_id ks) \<and> distinct (map cbk_public_key ks)
      \<and> b = \<lparr> cb_generation = g, cb_fingerprint = compute_fingerprint x g (sort_keys ks), cb_keys = sort_keys ks \<rparr>)
   \<and> sorted (map cbk_key_id (sort_keys ks)) \<and> mset (sort_keys ks) = mset ks
   \<and> (mset ks = mset ls \<longrightarrow> build x g ks = build x g ls)"
proof -
  have "build x g ks = build x g ls" if "mset ks = mset ls"
    using sort_keys_cong [OF that] mset_eq_length [OF that] by (simp add: build_def)
  then show ?thesis using build_Inr_iff sorted_sort_keys by simp
qed

text \<open>
  C26. The fingerprint binds the bundle: two bundles with the same fingerprint have the same generation and the same
  keys, unless the two documents that were hashed are different and have the same SHA-256 digest.  In particular no content of an
  identifier or a key line can imitate the structure of the hashed document.
\<close>

theorem ca_bundle_fingerprint_binds:
  assumes "build x g ks = Inr b" "build x h ls = Inr c" "cb_fingerprint b = cb_fingerprint c"
  shows "sha256_collide x (as_bytes (canonical_json g (sort_keys ks))) (as_bytes (canonical_json h (sort_keys ls)))
    \<or> g = h \<and> mset ks = mset ls \<and> b = c"
    (is "?collide \<or> _")
proof -
  have "sha256_hex x (as_bytes (canonical_json g (sort_keys ks))) =
      sha256_hex x (as_bytes (canonical_json h (sort_keys ls)))"
    using assms by (simp add: build_fingerprint compute_fingerprint_def)
  then have "?collide \<or> canonical_json g (sort_keys ks) = canonical_json h (sort_keys ls)"
    using sha256_hex_eqD by fastforce
  then have "?collide \<or> g = h \<and> sort_keys ks = sort_keys ls"
    using canonical_json_inject by blast
  then show ?thesis using assms(1,2) by (metis build_Inr_iff sort_keys_simps(2))
qed

section \<open>Acknowledgements\<close>

lemma update_by_id:
  assumes inv: "machines_inv x tbl"
    and keys: "\<And>r. mr_machine_id (f r) = mr_machine_id r" "\<And>r. mr_hostname (f r) = mr_hostname r"
      "\<And>r. mr_public_key (f r) = mr_public_key r"
    and step: "\<And>r m. machine_of_row x r = Inr m \<Longrightarrow> machine_of_row x (f r) = Inr (g m)"
    and g: "\<And>m. m_machine_id (g m) = m_machine_id m"
    and tbl': "tbl' = update_where (\<lambda>r. mr_machine_id r = i) f tbl"
  shows "machines_inv x tbl'"
    and "find_by_id x tbl' j = rbind (find_by_id x tbl j) (\<lambda>m. Inr (map_option (\<lambda>m. if j = i then g m else m) m))"
    and "rows_affected (\<lambda>r. mr_machine_id r = i) tbl = 1 \<longleftrightarrow> (\<exists>m. find_by_id x tbl i = Inr (Some m))"
proof -
  note up = update_where_refines [OF inv keys step, where i = i, folded tbl']
  show inv': "machines_inv x tbl'" by (rule up(1))
  have fnd: "find (\<lambda>m. m_machine_id m = j) (abs_machines x tbl') =
      map_option (\<lambda>m. if m_machine_id m = i then g m else m) (find (\<lambda>m. m_machine_id m = j) (abs_machines x tbl))"
    using up(2) g by (simp add: find_update_where)
  show "find_by_id x tbl' j = rbind (find_by_id x tbl j) (\<lambda>m. Inr (map_option (\<lambda>m. if j = i then g m else m) m))"
  proof (cases "find (\<lambda>m. m_machine_id m = j) (abs_machines x tbl)")
    case None
    then show ?thesis unfolding sqlite_machines.by_id [OF inv] sqlite_machines.by_id [OF inv'] fnd by simp
  next
    case (Some m)
    moreover have "m_machine_id m = j" using find_key_Some [OF Some] by simp
    ultimately show ?thesis
      unfolding sqlite_machines.by_id [OF inv] sqlite_machines.by_id [OF inv'] fnd by simp
  qed
  have "i \<in> mr_machine_id ` set tbl \<longleftrightarrow> (\<exists>m. find_by_id x tbl i = Inr (Some m))"
    unfolding set_map [symmetric] map_abs_machines(1) [OF inv, symmetric] sqlite_machines.by_id_Some_iff [OF inv]
    by auto
  then show "rows_affected (\<lambda>r. mr_machine_id r = i) tbl = 1 \<longleftrightarrow> (\<exists>m. find_by_id x tbl i = Inr (Some m))"
    using inv by (simp add: rows_affected_key machines_inv_def machines_unique_def)
qed

text \<open>What an acknowledgement stores about a machine.\<close>

definition synced :: "int \<Rightarrow> string \<Rightarrow> instant \<Rightarrow> machine \<Rightarrow> machine" where
  "synced generation fingerprint now m =
     m\<lparr> m_synced_generation := Some generation, m_bundle_fingerprint := Some fingerprint,
        m_last_sync := Some (trunc_ms now) \<rparr>"

lemma repo_record_ack_effect:
  assumes inv: "machines_inv x tbl" and t: "rfc3339_range now"
    and r: "repo_record_ack x tbl i g fp now = (updated, tbl')"
  shows "machines_inv x tbl'"
    and "find_by_id x tbl' j = rbind (find_by_id x tbl j) (\<lambda>m. Inr (map_option
          (\<lambda>m. if j = i then (synced g fp now m)\<lparr> m_updated_at := trunc_ms now \<rparr> else m) m))"
    and "updated \<longleftrightarrow> (\<exists>m. find_by_id x tbl i = Inr (Some m))"
proof -
  let ?f = "\<lambda>r. r\<lparr> mr_synced_generation := Some g, mr_bundle_fingerprint := Some fp,
          mr_last_sync := Some (to_text x now), mr_updated_at := to_text x now \<rparr>"
  let ?g = "\<lambda>m. (synced g fp now m)\<lparr> m_updated_at := trunc_ms now \<rparr>"
  have x: "rfc3339_contract x" using inv by (simp add: machines_inv_def)
  have step: "machine_of_row x (?f r) = Inr (?g m)" if "machine_of_row x r = Inr m" for r m
    using that by (auto simp: machine_of_row_def result_simps parse_dt_to_text [OF x t] synced_def)
  have tbl': "tbl' = update_where (\<lambda>r. mr_machine_id r = i) ?f tbl"
    and up: "updated \<longleftrightarrow> rows_affected (\<lambda>r. mr_machine_id r = i) tbl = 1"
    using r by (auto simp: repo_record_ack_def Let_def)
  note eff = update_by_id [OF inv _ _ _ step _ tbl', simplified]
  show "machines_inv x tbl'" by (rule eff(1)) (simp_all add: synced_def)
  show "find_by_id x tbl' j = rbind (find_by_id x tbl j) (\<lambda>m. Inr (map_option
          (\<lambda>m. if j = i then (synced g fp now m)\<lparr> m_updated_at := trunc_ms now \<rparr> else m) m))"
    by (rule eff(2)) (simp_all add: synced_def)
  show "updated \<longleftrightarrow> (\<exists>m. find_by_id x tbl i = Inr (Some m))"
    unfolding up using eff(3) by (simp add: synced_def)
qed

text \<open>An acknowledgement is recorded exactly for a known machine that names the bundle currently served.\<close>

lemma record_ack_exact:
  assumes x: "digest_contract x" and inv: "machines_inv x tbl" and t: "rfc3339_range now"
    and r: "record_ack x True True store tbl i ack now = (res, tbl')"
  shows "(\<exists>resp. res = Inr resp) \<longleftrightarrow>
      trim (ack_status ack) = ''success'' \<and> (\<exists>b m. current_bundle x True store = Inr b
        \<and> ack_generation ack = cb_generation b \<and> trim (ack_fingerprint ack) = cb_fingerprint b
        \<and> find_by_id x tbl i = Inr (Some m))"
    and "machines_inv x tbl'"
proof -
  have len: "cb_fingerprint b \<noteq> [] \<and> length (cb_fingerprint b) \<le> MAX_FINGERPRINT_LEN"
    if "current_bundle x True store = Inr b" for b
    using that x by (auto simp: current_bundle_def build_Inr_iff compute_fingerprint_def digest_contract_def
        MAX_FINGERPRINT_LEN_def)
  note eff = repo_record_ack_effect [OF inv t]
  show "(\<exists>resp. res = Inr resp) \<longleftrightarrow>
      trim (ack_status ack) = ''success'' \<and> (\<exists>b m. current_bundle x True store = Inr b
        \<and> ack_generation ack = cb_generation b \<and> trim (ack_fingerprint ack) = cb_fingerprint b
        \<and> find_by_id x tbl i = Inr (Some m))"
    using r len
    by (auto simp: record_ack_def Let_def split: sum.splits if_splits prod.splits dest: eff(3))
  show "machines_inv x tbl'"
    using r inv by (auto simp: record_ack_def Let_def split: sum.splits if_splits prod.splits dest: eff(1))
qed

section \<open>Witnesses\<close>

definition demo_keys :: "ca_bundle_key list" where
  "demo_keys = [\<lparr> cbk_key_id = ''ca-02'', cbk_public_key = ''ssh-ed25519 BBBB'' \<rparr>,
                \<lparr> cbk_key_id = ''ca-01'', cbk_public_key = ''ssh-ed25519 AAAA'' \<rparr>]"

lemma demo_keys_ok: "\<forall>k \<in> set demo_keys. key_ok ref_externals k"
proof -
  have "has_control ''ssh-ed25519 AAAA'' = False" "has_control ''ssh-ed25519 BBBB'' = False" by code_simp+
  then show ?thesis
    by (simp add: demo_keys_def key_ok_def validate_key_id_def validate_ca_public_key_def MAX_KEY_ID_LEN_def
        MAX_PUBLIC_KEY_LEN_def ref_externals_def ref_from_openssh_def is_ascii_alphanumeric_def is_ascii_digit_def
        is_ascii_lowercase_def is_ascii_uppercase_def char_code_def)
qed

lemma demo_built: "\<exists>b. build ref_externals 3 demo_keys = Inr b"
  using demo_keys_ok by (simp add: build_Inr_iff) (simp add: demo_keys_def)

theorem ca_bundle_build_exact_witness:
  "\<exists>b. build ref_externals 3 demo_keys = Inr b \<and> build ref_externals 3 (rev demo_keys) = Inr b"
  using demo_built ca_bundle_build_exact [of ref_externals 3 demo_keys _ "rev demo_keys"] by auto

text \<open>The keys in two orders: different inputs, the same hashed document, no collision, and so the same bundle.\<close>

theorem ca_bundle_fingerprint_binds_witness:
  "\<exists>b c. demo_keys \<noteq> rev demo_keys \<and> build ref_externals 3 demo_keys = Inr b \<and> build ref_externals 3 (rev demo_keys) = Inr c
     \<and> cb_fingerprint b = cb_fingerprint c \<and> b = c"
proof -
  have sorted: "sort_keys demo_keys = sort_keys (rev demo_keys)" by (rule sort_keys_cong) simp
  obtain b where b: "build ref_externals 3 demo_keys = Inr b" using demo_built by blast
  obtain c where c: "build ref_externals 3 (rev demo_keys) = Inr c"
    using b by (simp add: build_Inr_iff rev_map [symmetric])
  have fp: "cb_fingerprint b = cb_fingerprint c" using b c sorted by (simp add: build_fingerprint)
  have "b = c" using ca_bundle_fingerprint_binds [OF b c fp] sorted by simp
  moreover have "demo_keys \<noteq> rev demo_keys" by (simp add: demo_keys_def)
  ultimately show ?thesis using b c fp by blast
qed

end
