(* ===== verification/Float64.thy ===== *)
theory Float64
  imports Prelude Complex_Main "HOL-Library.Log_Nat"
begin

text \<open>
  The double-precision arithmetic that the reports use for percentages: rounding a rational number to 53 significant
  bits, to nearest and ties to even, and \<^verbatim>\<open>f64::round\<close>.  Only magnitudes far from
  overflow and underflow occur.
\<close>

definition round_half_even :: "rat \<Rightarrow> int" where
  "round_half_even q =
     (let f = \<lfloor>q\<rfloor>; d = q - of_int f in
      if d < 1 / 2 \<or> d = 1 / 2 \<and> even f then f else f + 1)"

definition pow2 :: "int \<Rightarrow> rat" where
  "pow2 e = (if 0 \<le> e then 2 ^ nat e else 1 / 2 ^ nat (- e))"

text \<open>The exponent that puts a positive number between \<open>2 ^ 52\<close> and \<open>2 ^ 53\<close>.\<close>

definition f64_exponent :: "rat \<Rightarrow> int" where
  "f64_exponent q =
     (let (n, d) = quotient_of q; e = bitlen n - bitlen d - 53 in
      if q < 2 ^ 53 * pow2 e then e else e + 1)"

definition f64 :: "rat \<Rightarrow> rat" where
  "f64 q = (if q = 0 then 0
     else let s = abs q; e = f64_exponent s in sgn q * of_int (round_half_even (s / pow2 e)) * pow2 e)"

text \<open>\<^verbatim>\<open>f64::round\<close>, half away from zero, on a number that is not negative.\<close>

definition f64_round :: "rat \<Rightarrow> rat" where
  "f64_round q = of_int \<lfloor>q + 1 / 2\<rfloor>"

text \<open>\<open>n\<close> of \<open>whole\<close> as a percentage with one decimal place.\<close>

definition percent_one_decimal :: "nat \<Rightarrow> nat \<Rightarrow> rat" where
  "percent_one_decimal n whole =
     (if whole = 0 then 0
      else
        let pct = f64 (f64 (of_nat n * 100) / of_nat whole)
        in f64 (f64_round (f64 (pct * 10)) / 10))"

lemma percent_examples:
  "percent_one_decimal 1 2 = 50" "percent_one_decimal 3 3 = 100" "percent_one_decimal 0 7 = 0"
  by code_simp+

lemma percent_none [simp]: "percent_one_decimal 0 whole = 0" "percent_one_decimal n 0 = 0"
proof -
  have "\<lfloor>1 / 2 :: rat\<rfloor> = 0" by (simp add: floor_eq_iff)
  then show "percent_one_decimal 0 whole = 0" "percent_one_decimal n 0 = 0"
    by (simp_all add: percent_one_decimal_def f64_def f64_round_def Let_def)
qed

end
