(* ===== verification/Distribution.thy ===== *)
theory Distribution
  imports Certificates CaBundle Float64
begin

text \<open>
  Distribution of the signed CA bundle to the agents (\<^verbatim>\<open>src/bundle\<close>, \<^verbatim>\<open>src/routes/ca_bundle.rs\<close>): the bytes that
  are signed, the bundle signing key and the verification an agent performs, the spreading of poll intervals,
  acknowledgements, the fleet report and the assessment whether a CA key can be retired.
\<close>

section \<open>Wire types\<close>

definition BUNDLE_VERSION :: u32 where "BUNDLE_VERSION = 1"
definition SIGNATURE_ALGORITHM :: string where "SIGNATURE_ALGORITHM = ''ssh-ed25519''"

record bundle_key =
  bk_key_id :: string
  bk_public_key :: string
  bk_fingerprint :: string

record signed_bundle =
  sb_bundle_version :: u32
  sb_generation :: u32
  sb_created_at :: string
  sb_expires_at :: string
  sb_fingerprint :: string
  sb_keys :: "bundle_key list"
  sb_signature_algorithm :: string
  sb_signature :: string
  sb_bundle_signing_public_key :: string

datatype bundle_error =
    UnsupportedVersion string | UnsupportedAlgorithm string | MalformedBundle string | SignatureInvalid
  | UntrustedSigner | BundleExpired | NoEnabledKeys | BundleCrypto string

fun bundle_error_display :: "bundle_error \<Rightarrow> string" where
  "bundle_error_display (UnsupportedVersion v) = ''unsupported bundle version '' @ quoted v"
| "bundle_error_display (UnsupportedAlgorithm a) = ''unsupported signature algorithm '' @ quoted a"
| "bundle_error_display (MalformedBundle m) = ''malformed bundle: '' @ m"
| "bundle_error_display SignatureInvalid = ''bundle signature verification failed''"
| "bundle_error_display UntrustedSigner = ''bundle was signed by an unexpected key''"
| "bundle_error_display BundleExpired = ''bundle has expired''"
| "bundle_error_display NoEnabledKeys = ''cannot build a bundle: no enabled CA keys''"
| "bundle_error_display (BundleCrypto m) = ''bundle crypto error: '' @ m"

datatype ack_outcome = Applied | RolledBack | SignatureFailed

definition outcome_parse :: "string \<Rightarrow> ack_outcome option" where
  "outcome_parse status =
     (let s = to_ascii_lowercase (trim status) in
      if s = ''applied'' \<or> s = ''success'' then Some Applied
      else if s = ''rollback'' \<or> s = ''rolled_back'' then Some RolledBack
      else if s = ''signature_failed'' then Some SignatureFailed
      else None)"

fun outcome_audit_event :: "ack_outcome \<Rightarrow> string" where
  "outcome_audit_event Applied = ''bundle.applied''"
| "outcome_audit_event RolledBack = ''bundle.rollback''"
| "outcome_audit_event SignatureFailed = ''bundle.signature_failed''"

definition outcome_is_success :: "ack_outcome \<Rightarrow> bool" where
  "outcome_is_success o' \<longleftrightarrow> o' = Applied"

record bundle_ack_request =
  bar_generation :: int
  bar_fingerprint :: string
  bar_status :: string
  bar_reason :: "string option"

record bundle_ack_response =
  bap_status :: string
  bap_generation :: int

record generation_count =
  gn_generation :: int
  gn_count :: int

record fleet_status =
  fs_latest_generation :: u32
  fs_total_machines :: int
  fs_online :: int
  fs_stale :: int
  fs_offline :: int
  fs_rollout_percentage :: rat
  fs_oldest_generation :: "int option"
  fs_newest_generation :: "int option"
  fs_generations :: "generation_count list"

record retirement_assessment =
  ra_id :: string
  ra_key_id :: string
  ra_safety :: string
  ra_safe :: bool
  ra_affected_machines :: int
  ra_oldest_generation :: "int option"
  ra_latest_generation :: "int option"
  ra_reason :: string

section \<open>The signed bytes\<close>

record canonical_input =
  ci_bundle_version :: u32
  ci_generation :: u32
  ci_created_at :: string
  ci_expires_at :: string
  ci_fingerprint :: string
  ci_keys :: "bundle_key list"

definition signing_short_escapes :: "(char \<times> char) list" where
  "signing_short_escapes = [(dquote, dquote), (backslash, backslash), (CHR 0x0A, CHR ''n''), (CHR 0x0D, CHR ''r''),
     (CHR 0x09, CHR ''t''), (CHR 0x08, CHR ''b''), (CHR 0x0C, CHR ''f'')]"

definition signing_escape :: "string \<Rightarrow> string" where
  "signing_escape s = concat (map (escape_with signing_short_escapes) s)"

definition signing_string :: "string \<Rightarrow> string" where
  "signing_string s = dquote # signing_escape s @ [dquote]"

definition signing_key_object :: "bundle_key \<Rightarrow> string" where
  "signing_key_object k = ''{'' @ member ''key_id'' @ signing_string (bk_key_id k)
     @ '','' @ member ''public_key'' @ signing_string (bk_public_key k) @ ''}''"

definition append_keys_array :: "bundle_key list \<Rightarrow> string" where
  "append_keys_array sorted_keys = ''['' @ intercalate '','' (map signing_key_object sorted_keys) @ '']''"

definition canonical_v1 :: "canonical_input \<Rightarrow> string" where
  "canonical_v1 i =
     (let sorted_keys = sort_key bk_key_id (ci_keys i) in
      ''{'' @ member ''bundle_version'' @ show_nat (unat (ci_bundle_version i))
      @ '','' @ member ''created_at'' @ signing_string (ci_created_at i)
      @ '','' @ member ''expires_at'' @ signing_string (ci_expires_at i)
      @ '','' @ member ''fingerprint'' @ signing_string (ci_fingerprint i)
      @ '','' @ member ''generation'' @ show_nat (unat (ci_generation i))
      @ '','' @ member ''keys'' @ append_keys_array sorted_keys @ ''}'')"

definition canonical_message :: "canonical_input \<Rightarrow> (bundle_error, byte list) result" where
  "canonical_message i =
     (if ci_bundle_version i \<noteq> BUNDLE_VERSION
      then Inl (UnsupportedVersion (show_nat (unat (ci_bundle_version i))))
      else Inr (as_bytes (canonical_v1 i)))"

section \<open>The bundle signing key\<close>

text \<open>A signer is its 32-byte seed.\<close>

definition KEY_LEN :: nat where "KEY_LEN = 32"

definition public_key_openssh :: "externals \<Rightarrow> byte list \<Rightarrow> string" where
  "public_key_openssh x seed =
     (case to_openssh x \<lparr> ssh_algorithm = Ed25519, ssh_key_bytes = ed25519_public x seed, ssh_comment = [] \<rparr> of
        Some line \<Rightarrow> line | None \<Rightarrow> [])"

definition sign_b64 :: "externals \<Rightarrow> byte list \<Rightarrow> byte list \<Rightarrow> string" where
  "sign_b64 x seed message = base64_encode x (ed25519_sign x seed message)"

definition from_seed_b64 :: "externals \<Rightarrow> string \<Rightarrow> (bundle_error, byte list) result" where
  "from_seed_b64 x v =
     rbind (ok_or (MalformedBundle ''bundle signing seed is not base64'') (base64_decode x v)) (\<lambda>raw.
     rbind (ensure (length raw = KEY_LEN) (MalformedBundle ''bundle signing seed must be 32 bytes'')) (\<lambda>_.
     Inr raw))"

text \<open>
  The environment variable's value when it is set, the seed file when it exists (its contents or the error of reading it), the
  fresh seed, and the errors of creating the directory and of writing the file.  The second component is the file afterwards.
\<close>

definition load_or_create ::
  "externals \<Rightarrow> string option \<Rightarrow> (string, string) result option \<Rightarrow> byte list \<Rightarrow> string option \<Rightarrow> string option
     \<Rightarrow> (bundle_error, byte list) result \<times> (string, string) result option" where
  "load_or_create x env_value file fresh dir_error write_error =
     (case Option.bind (map_option trim env_value) non_blank of
        Some trimmed \<Rightarrow> (from_seed_b64 x trimmed, file)
      | None \<Rightarrow>
          (case file of
             Some (Inl e) \<Rightarrow> (Inl (BundleCrypto (''read bundle signing key: '' @ e)), file)
           | Some (Inr contents) \<Rightarrow> (from_seed_b64 x (trim contents), file)
           | None \<Rightarrow>
               (case dir_error of
                  Some e \<Rightarrow> (Inl (BundleCrypto (''create storage dir: '' @ e)), file)
                | None \<Rightarrow>
                    (case write_error of
                       Some e \<Rightarrow> (Inl (BundleCrypto (''write bundle signing key: '' @ e)), file)
                     | None \<Rightarrow> (Inr fresh, Some (Inr (base64_encode x fresh)))))))"

definition verify_signed_bundle ::
  "externals \<Rightarrow> signed_bundle \<Rightarrow> byte list \<Rightarrow> instant \<Rightarrow> (bundle_error, unit) result" where
  "verify_signed_bundle x bundle pinned now =
     rbind (ensure (sb_bundle_version bundle = BUNDLE_VERSION)
        (UnsupportedVersion (show_nat (unat (sb_bundle_version bundle))))) (\<lambda>_.
     rbind (ensure (sb_signature_algorithm bundle = SIGNATURE_ALGORITHM)
        (UnsupportedAlgorithm (sb_signature_algorithm bundle))) (\<lambda>_.
     rbind (ok_or (MalformedBundle ''bundle_signing_public_key is not an OpenSSH key'')
        (from_openssh x (sb_bundle_signing_public_key bundle))) (\<lambda>embedded.
     rbind (ensure (ssh_algorithm embedded = Ed25519)
        (MalformedBundle ''bundle_signing_public_key is not ed25519'')) (\<lambda>_.
     rbind (ensure (ssh_key_bytes embedded = pinned) UntrustedSigner) (\<lambda>_.
     rbind (ensure (ed25519_key_ok x pinned) (MalformedBundle ''pinned signing key is invalid'')) (\<lambda>_.
     rbind (ok_or (MalformedBundle ''signature is not base64'') (base64_decode x (sb_signature bundle))) (\<lambda>sig.
     rbind (ensure (length sig = 64) (MalformedBundle ''signature must be 64 bytes'')) (\<lambda>_.
     rbind (canonical_message
        \<lparr> ci_bundle_version = sb_bundle_version bundle, ci_generation = sb_generation bundle,
          ci_created_at = sb_created_at bundle, ci_expires_at = sb_expires_at bundle,
          ci_fingerprint = sb_fingerprint bundle, ci_keys = sb_keys bundle \<rparr>) (\<lambda>message.
     rbind (ensure (ed25519_verify x pinned message sig) SignatureInvalid) (\<lambda>_.
     rbind (map_err (\<lambda>_. MalformedBundle ''expires_at is not RFC 3339'')
        (parse_from_rfc3339 x (sb_expires_at bundle))) (\<lambda>expires.
     ensure (\<not> now > expires) BundleExpired)))))))))))"

section \<open>Poll intervals\<close>

text \<open>\<^verbatim>\<open>rng\<close> returns an index below its bound; the last step is a cast to 32 bits.\<close>

definition with_jitter :: "u32 \<Rightarrow> byte \<Rightarrow> (nat \<Rightarrow> nat) \<Rightarrow> u32" where
  "with_jitter base_seconds percent rng =
     (let percent = min (unat percent) 100 in
      if base_seconds = 0 then 1
      else
        let delta = min (2 ^ 32 - 1) (unat base_seconds * percent) div 100 in
        if delta = 0 then max base_seconds 1
        else
          let span = delta * 2 + 1;
              offset = int (rng span) - int delta;
              jittered = uint base_seconds + offset
          in word_of_int (max jittered 1))"

section \<open>The service\<close>

text \<open>What the \<^verbatim>\<open>CaManager\<close> answers to the reads of the service.\<close>

record ca_reads =
  cm_generation :: u32
  cm_bundle_fingerprint :: string
  cm_public_bundle :: public_bundle
  cm_get :: "string \<Rightarrow> ca_record option"

record bundle_service =
  bs_ca :: ca_reads
  bs_signer :: "byte list"
  bs_ttl_seconds :: int

definition new_bundle_service :: "ca_reads \<Rightarrow> byte list \<Rightarrow> u32 \<Rightarrow> bundle_service" where
  "new_bundle_service ca signer ttl_seconds =
     \<lparr> bs_ca = ca, bs_signer = signer, bs_ttl_seconds = uint (max ttl_seconds 1) \<rparr>"

definition build_signed_bundle :: "externals \<Rightarrow> bundle_service \<Rightarrow> instant \<Rightarrow> (bundle_error, signed_bundle) result" where
  "build_signed_bundle x s now =
     (let public = cm_public_bundle (bs_ca s) in
      if pb_keys public = [] then Inl NoEnabledKeys
      else
        let keys = map (\<lambda>k. \<lparr> bk_key_id = cpe_key_id k, bk_public_key = cpe_public_key k,
                bk_fingerprint = cpe_fingerprint k \<rparr>) (pb_keys public);
            created_at = to_rfc3339_secs x now;
            expires_at = to_rfc3339_secs x (now + seconds (bs_ttl_seconds s)) in
        rbind (canonical_message
           \<lparr> ci_bundle_version = BUNDLE_VERSION, ci_generation = pb_generation public, ci_created_at = created_at,
             ci_expires_at = expires_at, ci_fingerprint = pb_fingerprint public, ci_keys = keys \<rparr>) (\<lambda>message.
        Inr \<lparr> sb_bundle_version = BUNDLE_VERSION, sb_generation = pb_generation public, sb_created_at = created_at,
              sb_expires_at = expires_at, sb_fingerprint = pb_fingerprint public, sb_keys = keys,
              sb_signature_algorithm = SIGNATURE_ALGORITHM, sb_signature = sign_b64 x (bs_signer s) message,
              sb_bundle_signing_public_key = public_key_openssh x (bs_signer s) \<rparr>))"

definition record_applied ::
  "externals \<Rightarrow> bool \<Rightarrow> machine_table \<Rightarrow> string \<Rightarrow> int \<Rightarrow> string \<Rightarrow> instant \<Rightarrow> (sqlx_error, bool) result \<times> machine_table" where
  "record_applied x up tbl machine_id generation fingerprint now =
     (if \<not> up then (Inl SqlIo, tbl)
      else
        let now_text = to_rfc3339_millis x now; sel = (\<lambda>r. mr_machine_id r = machine_id) in
        (Inr (rows_affected sel tbl = 1),
         update_where sel (\<lambda>r. r\<lparr> mr_synced_generation := Some generation, mr_bundle_fingerprint := Some fingerprint,
            mr_last_sync := Some now_text \<rparr>) tbl))"

definition machine_exists :: "bool \<Rightarrow> machine_table \<Rightarrow> string \<Rightarrow> (sqlx_error, bool) result" where
  "machine_exists up tbl machine_id =
     rbind (ensure up SqlIo) (\<lambda>_. Inr (list_ex (\<lambda>r. mr_machine_id r = machine_id) tbl))"

section \<open>The fleet report\<close>

record fleet_tally =
  ft_online :: int
  ft_stale :: int
  ft_offline :: int
  ft_on_latest :: nat
  ft_counts :: "(int \<times> int) list"

text \<open>\<^verbatim>\<open>*counts.entry(k).or_insert(0) += 1\<close>.\<close>

definition count_entry :: "'k :: linorder \<Rightarrow> ('k \<times> int) list \<Rightarrow> ('k \<times> int) list" where
  "count_entry k m = btree_insert k ((case map_of m k of Some n \<Rightarrow> n | None \<Rightarrow> 0) + 1) m"

definition parsed_last_seen :: "externals \<Rightarrow> string option \<Rightarrow> instant option" where
  "parsed_last_seen x v =
     Option.bind v (\<lambda>s. case parse_from_rfc3339 x s of Inr t \<Rightarrow> Some t | Inl _ \<Rightarrow> None)"

definition tally_row :: "externals \<Rightarrow> instant \<Rightarrow> int \<Rightarrow> fleet_tally \<Rightarrow> machine_row \<Rightarrow> fleet_tally" where
  "tally_row x now latest t r =
     (let t = (case derive (parsed_last_seen x (mr_last_seen r)) now of
          Online \<Rightarrow> t\<lparr> ft_online := ft_online t + 1 \<rparr>
        | Stale \<Rightarrow> t\<lparr> ft_stale := ft_stale t + 1 \<rparr>
        | Offline \<Rightarrow> t\<lparr> ft_offline := ft_offline t + 1 \<rparr>)
      in case mr_synced_generation r of
           None \<Rightarrow> t
         | Some g \<Rightarrow> t\<lparr> ft_counts := count_entry g (ft_counts t),
               ft_on_latest := (if g = latest then ft_on_latest t + 1 else ft_on_latest t) \<rparr>)"

definition fleet_tally_of :: "externals \<Rightarrow> instant \<Rightarrow> int \<Rightarrow> machine_table \<Rightarrow> fleet_tally" where
  "fleet_tally_of x now latest rows =
     foldl (tally_row x now latest)
       \<lparr> ft_online = 0, ft_stale = 0, ft_offline = 0, ft_on_latest = 0, ft_counts = [] \<rparr> rows"

definition head_opt :: "'a list \<Rightarrow> 'a option" where
  "head_opt xs = (case xs of [] \<Rightarrow> None | a # _ \<Rightarrow> Some a)"

definition fleet_status_of ::
  "externals \<Rightarrow> bool \<Rightarrow> bundle_service \<Rightarrow> machine_table \<Rightarrow> instant \<Rightarrow> (sqlx_error, fleet_status) result" where
  "fleet_status_of x up s rows now =
     rbind (ensure up SqlIo) (\<lambda>_.
     let latest = cm_generation (bs_ca s); t = fleet_tally_of x now (uint latest) rows in
     Inr \<lparr> fs_latest_generation = latest, fs_total_machines = int (length rows), fs_online = ft_online t,
           fs_stale = ft_stale t, fs_offline = ft_offline t,
           fs_rollout_percentage = percent_one_decimal (ft_on_latest t) (length rows),
           fs_oldest_generation = head_opt (map fst (ft_counts t)),
           fs_newest_generation = head_opt (rev (map fst (ft_counts t))),
           fs_generations = map (\<lambda>(g, c). \<lparr> gn_generation = g, gn_count = c \<rparr>) (ft_counts t) \<rparr>)"

section \<open>Retiring a key\<close>

record dependents =
  dp_affected :: int
  dp_oldest :: "int option"
  dp_newest :: "int option"

definition count_dependent :: "int \<Rightarrow> dependents \<Rightarrow> int option \<Rightarrow> dependents" where
  "count_dependent cutoff d gen =
     (if (case gen of None \<Rightarrow> True | Some g \<Rightarrow> g < cutoff) then
        let d = d\<lparr> dp_affected := dp_affected d + 1 \<rparr>
        in case gen of
             None \<Rightarrow> d
           | Some g \<Rightarrow> d\<lparr> dp_oldest := Some (case dp_oldest d of None \<Rightarrow> g | Some b \<Rightarrow> min b g),
                 dp_newest := Some (case dp_newest d of None \<Rightarrow> g | Some b \<Rightarrow> max b g) \<rparr>
      else d)"

definition dependents_of :: "int \<Rightarrow> int option list \<Rightarrow> dependents" where
  "dependents_of cutoff gens =
     foldl (count_dependent cutoff) \<lparr> dp_affected = 0, dp_oldest = None, dp_newest = None \<rparr> gens"

definition assess_retirement ::
  "bool \<Rightarrow> bundle_service \<Rightarrow> machine_table \<Rightarrow> string \<Rightarrow> (ca_error, retirement_assessment) result" where
  "assess_retirement up s rows i =
     rbind (ok_or (CaNotFound i) (cm_get (bs_ca s) i)) (\<lambda>r.
     if ca_enabled r then
       Inr \<lparr> ra_id = ca_id r, ra_key_id = ca_record.ca_key_id r, ra_safety = ''unsafe'', ra_safe = False,
             ra_affected_machines = 0, ra_oldest_generation = None, ra_latest_generation = None,
             ra_reason = ''CA is still enabled; disable it before retiring'' \<rparr>
     else
       let cutoff = uint (case ca_disabled_generation r of Some g \<Rightarrow> g | None \<Rightarrow> cm_generation (bs_ca s)) in
       rbind (map_err ca_from_sqlx (ensure up SqlIo)) (\<lambda>_.
       let d = dependents_of cutoff (map mr_synced_generation rows);
           safe = (dp_affected d = 0)
       in Inr \<lparr> ra_id = ca_id r, ra_key_id = ca_record.ca_key_id r,
               ra_safety = (if safe then ''safe'' else ''unsafe''), ra_safe = safe,
               ra_affected_machines = dp_affected d, ra_oldest_generation = dp_oldest d,
               ra_latest_generation = dp_newest d,
               ra_reason = (if safe then ''no enrolled machine depends on this key''
                 else show_int (dp_affected d) @ '' machine(s) synced a generation older than '' @ show_int cutoff
                   @ '' and may still trust this key'') \<rparr>))"

section \<open>Endpoints of the agent\<close>

definition ROUTE_MAX_FINGERPRINT_LEN :: nat where "ROUTE_MAX_FINGERPRINT_LEN = 128"

definition require_bundle :: "bundle_service option \<Rightarrow> (api_error, bundle_service) result" where
  "require_bundle s =
     ok_or (Internal ''bundle distribution is not configured (missing CA manager or signing key)'') s"

definition etag_value :: "string \<Rightarrow> string" where
  "etag_value fingerprint = [dquote] @ fingerprint @ [dquote]"

text \<open>The entity tag is left out when \<^verbatim>\<open>HeaderValue::from_str\<close> (the first argument) refuses it.\<close>

definition insert_etag :: "(string \<Rightarrow> bool) \<Rightarrow> string \<Rightarrow> string option" where
  "insert_etag value_ok fingerprint =
     (if value_ok (etag_value fingerprint) then Some (etag_value fingerprint) else None)"

definition etag_entry_matches :: "string \<Rightarrow> string \<Rightarrow> bool" where
  "etag_entry_matches fingerprint e \<longleftrightarrow>
     (let tag = trim e in
      tag = ''*'' \<or>
      (let tag = (case strip_prefix ''W/'' tag of Some t \<Rightarrow> t | None \<Rightarrow> tag)
       in trim_matches dquote (trim tag) = fingerprint))"

definition if_none_match_matches :: "headers \<Rightarrow> string \<Rightarrow> bool" where
  "if_none_match_matches h fingerprint \<longleftrightarrow>
     (case header_str h ''if-none-match'' of
        None \<Rightarrow> False
      | Some raw \<Rightarrow> list_ex (etag_entry_matches fingerprint) (split_on (CHR '','') raw))"

definition sanitize_reason :: "string \<Rightarrow> string" where
  "sanitize_reason reason = concat (take 256 (filter (\<lambda>ch. \<not> is_control ch) (utf8_chars reason)))"

text \<open>The reply to a download: not modified, or the bundle; each with its entity tag.\<close>

datatype bundle_reply = NotModified "string option" | Fresh signed_bundle "string option"

definition get_ca_bundle ::
  "externals \<Rightarrow> (string \<Rightarrow> bool) \<Rightarrow> bool \<Rightarrow> instant \<Rightarrow> instant \<Rightarrow> bundle_service option \<Rightarrow> machine \<Rightarrow> headers
     \<Rightarrow> (database, bundle_reply) handler" where
  "get_ca_bundle x value_ok up now audited_at service authenticated h =
     hbind (hlift (require_bundle service)) (\<lambda>s.
     let fingerprint = cm_bundle_fingerprint (bs_ca s) in
     if if_none_match_matches h fingerprint then hreturn (NotModified (insert_etag value_ok fingerprint))
     else
       hbind (hlift (map_err (\<lambda>e. Internal (bundle_error_display e)) (build_signed_bundle x s now))) (\<lambda>bundle.
       hbind (append_event x up audited_at
          (with_metadata (json_object
             [(''machine_id'', JStr (m_machine_id authenticated)),
              (''generation'', JNum (uint (sb_generation bundle))),
              (''fingerprint'', JStr (sb_fingerprint bundle)),
              (''bundle_version'', JNum (uint (sb_bundle_version bundle)))])
            (with_subject (m_machine_id authenticated) (new_entry ''bundle.downloaded'' ''agent'')))) (\<lambda>_.
       hreturn (Fresh bundle (insert_etag value_ok fingerprint)))))"

datatype ack_io = AckRecord | AckAudit

definition on_table ::
  "(machine_table \<Rightarrow> (sqlx_error, 'a) result \<times> machine_table) \<Rightarrow> (database, 'a) handler" where
  "on_table f = (\<lambda>db. let (r, tbl) = f (db_machines db)
     in (map_err (\<lambda>e. Internal (sqlx_display e)) r, db\<lparr> db_machines := tbl \<rparr>))"

definition ack_metadata :: "string \<Rightarrow> bundle_ack_request \<Rightarrow> json" where
  "ack_metadata machine_id ack =
     json_object [(''machine_id'', JStr machine_id), (''generation'', JNum (bar_generation ack)),
       (''fingerprint'', JStr (trim (bar_fingerprint ack))),
       (''reason'', json_opt_str (map_option sanitize_reason (bar_reason ack)))]"

definition ack_ca_bundle ::
  "externals \<Rightarrow> (ack_io \<Rightarrow> bool) \<Rightarrow> instant \<Rightarrow> instant \<Rightarrow> bundle_service option \<Rightarrow> machine \<Rightarrow> bundle_ack_request
     \<Rightarrow> (database, bundle_ack_response) handler" where
  "ack_ca_bundle x io now audited_at service authenticated ack =
     hbind (hlift (require_bundle service)) (\<lambda>_.
     let machine_id = m_machine_id authenticated in
     hbind (hlift (ok_or (BadRequest (''unknown ack status '' @ quoted (bar_status ack)))
        (outcome_parse (bar_status ack)))) (\<lambda>outcome.
     hbind (hlift (ensure (0 \<le> bar_generation ack) (BadRequest ''generation must not be negative''))) (\<lambda>_.
     let fingerprint = trim (bar_fingerprint ack) in
     hbind (hlift (ensure (fingerprint \<noteq> [] \<and> length fingerprint \<le> ROUTE_MAX_FINGERPRINT_LEN)
        (BadRequest ''invalid fingerprint''))) (\<lambda>_.
     hbind (on_table (\<lambda>tbl.
        if outcome_is_success outcome
        then record_applied x (io AckRecord) tbl machine_id (bar_generation ack) fingerprint now
        else (machine_exists (io AckRecord) tbl machine_id, tbl))) (\<lambda>known.
     hbind (hlift (ensure known (Unauthorized ''request authentication failed''))) (\<lambda>_.
     hbind (append_event x (io AckAudit) audited_at
        (with_metadata (ack_metadata machine_id ack)
          (with_subject machine_id (new_entry (outcome_audit_event outcome) ''agent'')))) (\<lambda>_.
     hreturn \<lparr> bap_status = ''recorded'', bap_generation = bar_generation ack \<rparr>)))))))"

section \<open>What the signature covers\<close>

lemma signing_short_escapes_ok: "shorts_ok signing_short_escapes"
  by (simp add: shorts_ok_def signing_short_escapes_def dquote_def backslash_def)

interpretation signing_text: json_escaper "escape_with signing_short_escapes"
  by (rule escape_with_escaper [OF signing_short_escapes_ok])

lemma signing_string_delimits: "self_delimiting signing_string"
  unfolding signing_string_def signing_escape_def by (rule signing_text.quoted_delimits)

lemmas signing_stringD = self_delimitingD [OF signing_string_delimits]

text \<open>The part of a key that is signed.\<close>

definition signed_part :: "bundle_key \<Rightarrow> string \<times> string" where
  "signed_part k = (bk_key_id k, bk_public_key k)"

definition part_object :: "string \<times> string \<Rightarrow> string" where
  "part_object p = ''{'' @ member ''key_id'' @ signing_string (fst p)
     @ '','' @ member ''public_key'' @ signing_string (snd p) @ ''}''"

lemma signing_key_object_part: "signing_key_object k = part_object (signed_part k)"
  by (simp add: signing_key_object_def part_object_def signed_part_def)

lemma part_object_delimits: "self_delimiting part_object"
  unfolding self_delimiting_def
proof (intro allI impI)
  fix p q :: "string \<times> string" and r s
  assume "part_object p @ r = part_object q @ s"
  then have "signing_string (fst p) @ '','' @ member ''public_key'' @ signing_string (snd p) @ ''}'' @ r =
      signing_string (fst q) @ '','' @ member ''public_key'' @ signing_string (snd q) @ ''}'' @ s"
    by (simp add: part_object_def)
  then have "fst p = fst q" and "signing_string (snd p) @ ''}'' @ r = signing_string (snd q) @ ''}'' @ s"
    by (auto dest: signing_stringD)
  then show "p = q \<and> r = s" by (auto simp: prod_eq_iff dest: signing_stringD)
qed

lemma append_keys_array_inject:
  assumes "append_keys_array ks @ r = append_keys_array ls @ s"
  shows "map signed_part ks = map signed_part ls \<and> r = s"
proof -
  have "map signing_key_object ks = map part_object (map signed_part ks)" for ks
    by (simp add: signing_key_object_part)
  then have "intercalate '','' (map part_object (map signed_part ks)) @ CHR '']'' # r =
      intercalate '','' (map part_object (map signed_part ls)) @ CHR '']'' # s"
    using assms unfolding append_keys_array_def by (metis append.assoc append_Cons append_Nil list.inject)
  from separated_eqD [OF part_object_delimits _ _ this] show ?thesis by (simp add: part_object_def)
qed

lemma show_u32_delimited:
  "show_nat (unat (m :: u32)) @ CHR '','' # r = show_nat (unat n) @ CHR '','' # s \<Longrightarrow> m = n \<and> r = s"
  using show_int_delimited [of "int (unat m)" r "int (unat n)" s] by (simp add: show_int_def word_unat_eq_iff)

text \<open>What the signed bytes determine: every field but the fingerprints shown beside the keys and the order of the keys.\<close>

definition same_content :: "canonical_input \<Rightarrow> canonical_input \<Rightarrow> bool" where
  "same_content i j \<longleftrightarrow>
     ci_bundle_version i = ci_bundle_version j \<and> ci_generation i = ci_generation j
     \<and> ci_created_at i = ci_created_at j \<and> ci_expires_at i = ci_expires_at j \<and> ci_fingerprint i = ci_fingerprint j
     \<and> mset (map signed_part (ci_keys i)) = mset (map signed_part (ci_keys j))"

lemma canonical_v1_binds:
  assumes "canonical_v1 i = canonical_v1 j"
  shows "same_content i j"
proof -
  let ?keys = "\<lambda>i. append_keys_array (sort_key bk_key_id (ci_keys i)) @ ''}''"
  let ?gen = "\<lambda>i. show_nat (unat (ci_generation i)) @ CHR '','' # member ''keys'' @ ?keys i"
  let ?fp = "\<lambda>i. signing_string (ci_fingerprint i) @ '','' @ member ''generation'' @ ?gen i"
  let ?exp = "\<lambda>i. signing_string (ci_expires_at i) @ '','' @ member ''fingerprint'' @ ?fp i"
  let ?cre = "\<lambda>i. signing_string (ci_created_at i) @ '','' @ member ''expires_at'' @ ?exp i"
  have "show_nat (unat (ci_bundle_version i)) @ CHR '','' # member ''created_at'' @ ?cre i =
      show_nat (unat (ci_bundle_version j)) @ CHR '','' # member ''created_at'' @ ?cre j"
    using assms by (simp add: canonical_v1_def Let_def)
  from show_u32_delimited [OF this]
  have v: "ci_bundle_version i = ci_bundle_version j" and "?cre i = ?cre j" by simp_all
  from signing_stringD [OF this(2)] have c: "ci_created_at i = ci_created_at j" and "?exp i = ?exp j" by simp_all
  from signing_stringD [OF this(2)] have e: "ci_expires_at i = ci_expires_at j" and "?fp i = ?fp j" by simp_all
  from signing_stringD [OF this(2)] have f: "ci_fingerprint i = ci_fingerprint j" and "?gen i = ?gen j" by simp_all
  from show_u32_delimited [OF this(2)] have g: "ci_generation i = ci_generation j" and "?keys i = ?keys j" by simp_all
  from append_keys_array_inject [OF this(2)]
  have "mset (map signed_part (ci_keys i)) = mset (map signed_part (ci_keys j))"
    by (metis mset_map mset_sort)
  with v c e f g show ?thesis by (simp add: same_content_def)
qed

definition bundle_content :: "signed_bundle \<Rightarrow> canonical_input" where
  "bundle_content b = \<lparr> ci_bundle_version = sb_bundle_version b, ci_generation = sb_generation b,
     ci_created_at = sb_created_at b, ci_expires_at = sb_expires_at b, ci_fingerprint = sb_fingerprint b,
     ci_keys = sb_keys b \<rparr>"

lemma verify_signed_bundle_Inr_iff:
  "verify_signed_bundle x b pinned now = Inr () \<longleftrightarrow>
     sb_bundle_version b = BUNDLE_VERSION \<and> sb_signature_algorithm b = SIGNATURE_ALGORITHM
     \<and> (\<exists>k. from_openssh x (sb_bundle_signing_public_key b) = Some k \<and> ssh_algorithm k = Ed25519
          \<and> ssh_key_bytes k = pinned)
     \<and> ed25519_key_ok x pinned
     \<and> (\<exists>sig. base64_decode x (sb_signature b) = Some sig \<and> length sig = 64
          \<and> ed25519_verify x pinned (as_bytes (canonical_v1 (bundle_content b))) sig)
     \<and> (\<exists>t. parse_from_rfc3339 x (sb_expires_at b) = Inr t \<and> now \<le> t)"
  by (auto simp: verify_signed_bundle_def canonical_message_def bundle_content_def result_simps not_less)

section \<open>The agent accepts what the server signs\<close>

text \<open>The OpenSSH line of a key without comment reads back as that key.\<close>

definition openssh_encodes :: "externals \<Rightarrow> byte list \<Rightarrow> bool" where
  "openssh_encodes x bs \<longleftrightarrow>
     (let k = \<lparr> ssh_algorithm = Ed25519, ssh_key_bytes = bs, ssh_comment = [] \<rparr> in
      \<exists>line. to_openssh x k = Some line \<and> from_openssh x line = Some k)"

lemma build_signed_bundle_Inr_iff:
  "build_signed_bundle x s now = Inr b \<longleftrightarrow>
     pb_keys (cm_public_bundle (bs_ca s)) \<noteq> []
     \<and> sb_bundle_version b = BUNDLE_VERSION \<and> sb_generation b = pb_generation (cm_public_bundle (bs_ca s))
     \<and> sb_created_at b = to_rfc3339_secs x now
     \<and> sb_expires_at b = to_rfc3339_secs x (now + seconds (bs_ttl_seconds s))
     \<and> sb_fingerprint b = pb_fingerprint (cm_public_bundle (bs_ca s))
     \<and> sb_keys b = map (\<lambda>k. \<lparr> bk_key_id = cpe_key_id k, bk_public_key = cpe_public_key k,
           bk_fingerprint = cpe_fingerprint k \<rparr>) (pb_keys (cm_public_bundle (bs_ca s)))
     \<and> sb_signature_algorithm b = SIGNATURE_ALGORITHM
     \<and> sb_signature b = sign_b64 x (bs_signer s) (as_bytes (canonical_v1 (bundle_content b)))
     \<and> sb_bundle_signing_public_key b = public_key_openssh x (bs_signer s)"
  by (cases b) (auto simp: build_signed_bundle_def Let_def canonical_message_def bundle_content_def)

lemma signature_verifies:
  assumes "ed25519_contract x" "base64_contract x" "length seed = 32"
  shows "\<exists>sig. base64_decode x (sign_b64 x seed m) = Some sig \<and> length sig = 64
    \<and> ed25519_verify x (ed25519_public x seed) m sig"
  using assms by (simp add: sign_b64_def base64_contract_def ed25519_contract_def)

lemma built_bundle_verifies:
  assumes x: "ed25519_contract x" "base64_contract x" "rfc3339_contract x"
    and seed: "length (bs_signer s) = 32" "openssh_encodes x (ed25519_public x (bs_signer s))"
    and t: "rfc3339_range (now + seconds (bs_ttl_seconds s))"
    and b: "build_signed_bundle x s now = Inr b"
  shows "verify_signed_bundle x b (ed25519_public x (bs_signer s)) t =
      (if t \<le> trunc_secs (now + seconds (bs_ttl_seconds s)) then Inr () else Inl BundleExpired)"
    and "other \<noteq> ed25519_public x (bs_signer s) \<Longrightarrow> verify_signed_bundle x b other t = Inl UntrustedSigner"
proof -
  note shape = b [unfolded build_signed_bundle_Inr_iff]
  let ?pk = "ed25519_public x (bs_signer s)"
  have line: "from_openssh x (sb_bundle_signing_public_key b) =
      Some \<lparr> ssh_algorithm = Ed25519, ssh_key_bytes = ?pk, ssh_comment = [] \<rparr>"
    using seed(2) shape by (auto simp: openssh_encodes_def public_key_openssh_def Let_def)
  have sig: "\<exists>sig. base64_decode x (sb_signature b) = Some sig \<and> length sig = 64
      \<and> ed25519_verify x ?pk (as_bytes (canonical_v1 (bundle_content b))) sig"
    using signature_verifies [OF x(1,2) seed(1)] shape by simp
  have ok: "ed25519_key_ok x ?pk" using x(1) seed(1) by (simp add: ed25519_contract_def)
  have exp: "parse_from_rfc3339 x (sb_expires_at b) = Inr (trunc_secs (now + seconds (bs_ttl_seconds s)))"
    using rfc3339_contractD(3) [OF x(3) assms(6)] shape by simp
  show "verify_signed_bundle x b ?pk t =
      (if t \<le> trunc_secs (now + seconds (bs_ttl_seconds s)) then Inr () else Inl BundleExpired)"
    using shape line sig ok exp
    by (auto simp: verify_signed_bundle_def canonical_message_def bundle_content_def not_le)
  show "other \<noteq> ?pk \<Longrightarrow> verify_signed_bundle x b other t = Inl UntrustedSigner"
    using shape line by (auto simp: verify_signed_bundle_def)
qed

text \<open>
  C29. With at least one enabled key the server signs a bundle of exactly the enabled keys and the current generation; an agent that
  pinned the server's key accepts it up to the second of its expiry and afterwards reports it as expired, and an agent that pinned another key
  reports an untrusted signer.
\<close>

theorem signed_bundle_verifies:
  assumes x: "ed25519_contract x" "base64_contract x" "rfc3339_contract x"
    and seed: "length (bs_signer s) = 32" "openssh_encodes x (ed25519_public x (bs_signer s))"
    and t: "rfc3339_range (now + seconds (bs_ttl_seconds s))"
    and keys: "pb_keys (cm_public_bundle (bs_ca s)) \<noteq> []"
  shows "\<exists>b. build_signed_bundle x s now = Inr b
    \<and> sb_generation b = pb_generation (cm_public_bundle (bs_ca s))
    \<and> map signed_part (sb_keys b) = map (\<lambda>k. (cpe_key_id k, cpe_public_key k)) (pb_keys (cm_public_bundle (bs_ca s)))
    \<and> (\<forall>t. verify_signed_bundle x b (ed25519_public x (bs_signer s)) t =
          (if t \<le> trunc_secs (now + seconds (bs_ttl_seconds s)) then Inr () else Inl BundleExpired))
    \<and> (\<forall>other t. other \<noteq> ed25519_public x (bs_signer s) \<longrightarrow> verify_signed_bundle x b other t = Inl UntrustedSigner)"
proof -
  obtain b where b: "build_signed_bundle x s now = Inr b"
    using keys by (simp add: build_signed_bundle_def Let_def canonical_message_def)
  with built_bundle_verifies [OF x seed t b] show ?thesis
    by (auto simp: build_signed_bundle_Inr_iff signed_part_def)
qed

text \<open>
  A given signature text is valid for two given messages, which differ.  Signatures are shorter than messages, so some
  pair always shares one; the theorem names the two messages and the signature.
\<close>

definition signs_both :: "externals \<Rightarrow> byte list \<Rightarrow> string \<Rightarrow> byte list \<Rightarrow> byte list \<Rightarrow> bool" where
  "signs_both x key signature m m' \<longleftrightarrow> m \<noteq> m' \<and>
     (\<exists>sig. base64_decode x signature = Some sig \<and> ed25519_verify x key m sig \<and> ed25519_verify x key m' sig)"

text \<open>
  C30. A bundle that carries the signature of a bundle of this server and is accepted by an agent says what that bundle said: version, generation,
  both times, the fingerprint, and the identifiers and public keys of the CA keys (the order of the keys and the
  fingerprint displayed beside each key are not covered); unless the signature the server made for its own document is also valid for the
  different document of the accepted bundle.
\<close>

theorem signed_bundle_binds:
  assumes x: "ed25519_contract x" "base64_contract x" "length (bs_signer s) = 32"
    and b: "build_signed_bundle x s now = Inr b"
    and b': "verify_signed_bundle x b' (ed25519_public x (bs_signer s)) t = Inr ()" "sb_signature b' = sb_signature b"
  shows "same_content (bundle_content b') (bundle_content b)
    \<or> signs_both x (ed25519_public x (bs_signer s)) (sb_signature b)
        (as_bytes (canonical_v1 (bundle_content b))) (as_bytes (canonical_v1 (bundle_content b')))"
proof -
  obtain sig where sig: "base64_decode x (sb_signature b) = Some sig"
      "ed25519_verify x (ed25519_public x (bs_signer s)) (as_bytes (canonical_v1 (bundle_content b))) sig"
    using signature_verifies [OF x] b by (metis build_signed_bundle_Inr_iff)
  have "ed25519_verify x (ed25519_public x (bs_signer s)) (as_bytes (canonical_v1 (bundle_content b'))) sig"
    using b' sig(1) by (auto simp: verify_signed_bundle_Inr_iff)
  with sig show ?thesis
    using canonical_v1_binds [of "bundle_content b'" "bundle_content b"]
    unfolding signs_both_def by (metis as_bytes_eq_iff)
qed

section \<open>Retirement\<close>

definition depends_on :: "int \<Rightarrow> int option \<Rightarrow> bool" where
  "depends_on cutoff gen \<longleftrightarrow> (case gen of None \<Rightarrow> True | Some g \<Rightarrow> g < cutoff)"

lemma dependents_of_fold:
  "dp_affected (foldl (count_dependent cutoff) d gens) = dp_affected d + int (length (filter (depends_on cutoff) gens))"
proof (induction gens arbitrary: d)
  case (Cons g gens)
  then show ?case by (cases g) (auto simp: count_dependent_def depends_on_def Let_def)
qed simp

lemma dependents_of_affected: "dp_affected (dependents_of cutoff gens) = int (length (filter (depends_on cutoff) gens))"
  by (simp add: dependents_of_def dependents_of_fold)

definition retirement_cutoff :: "bundle_service \<Rightarrow> ca_record \<Rightarrow> int" where
  "retirement_cutoff s r = uint (case ca_disabled_generation r of Some d \<Rightarrow> d | None \<Rightarrow> cm_generation (bs_ca s))"

text \<open>A key that no machine can still trust: it is disabled and every machine acknowledged a bundle without it.\<close>

definition retirable :: "bundle_service \<Rightarrow> machine_table \<Rightarrow> string \<Rightarrow> bool" where
  "retirable s rows i \<longleftrightarrow>
     (\<exists>r. cm_get (bs_ca s) i = Some r \<and> \<not> ca_enabled r
        \<and> (\<forall>m \<in> set rows. \<exists>g. mr_synced_generation m = Some g \<and> retirement_cutoff s r \<le> g))"

lemma assessment_exact:
  assumes "assess_retirement up s rows i = Inr a"
  obtains r where "cm_get (bs_ca s) i = Some r" "ra_id a = ca_id r" "ra_key_id a = ca_record.ca_key_id r"
    "ra_safe a \<longleftrightarrow> retirable s rows i" "ra_safety a = (if ra_safe a then ''safe'' else ''unsafe'')"
    "\<not> ca_enabled r \<longrightarrow> ra_affected_machines a =
       int (length (filter (\<lambda>m. depends_on (retirement_cutoff s r) (mr_synced_generation m)) rows))"
proof -
  obtain r where r: "cm_get (bs_ca s) i = Some r"
    using assms by (cases "cm_get (bs_ca s) i") (simp_all add: assess_retirement_def)
  let ?c = "retirement_cutoff s r"
  have none: "filter (\<lambda>m. depends_on ?c (mr_synced_generation m)) rows = [] \<longleftrightarrow>
      (\<forall>m \<in> set rows. \<exists>g. mr_synced_generation m = Some g \<and> ?c \<le> g)"
    by (auto simp: filter_empty_conv depends_on_def not_less split: option.splits)
  have len: "length (filter (depends_on ?c) (map mr_synced_generation rows)) =
      length (filter (\<lambda>m. depends_on ?c (mr_synced_generation m)) rows)"
    by (simp add: filter_map o_def)
  show thesis
  proof (cases "ca_enabled r")
    case True
    with r assms show thesis by (intro that [OF r]) (auto simp: assess_retirement_def retirable_def)
  next
    case False
    have up: "up" using r assms False by (cases up) (simp_all add: assess_retirement_def)
    from False up r assms
    have "ra_id a = ca_id r" "ra_key_id a = ca_record.ca_key_id r"
      "ra_safe a \<longleftrightarrow> dp_affected (dependents_of ?c (map mr_synced_generation rows)) = 0"
      "ra_affected_machines a = dp_affected (dependents_of ?c (map mr_synced_generation rows))"
      "ra_safety a = (if ra_safe a then ''safe'' else ''unsafe'')"
      by (auto simp: assess_retirement_def retirement_cutoff_def Let_def)
    with r False none len show thesis by (intro that [OF r]) (simp_all add: dependents_of_affected retirable_def)
  qed
qed

text \<open>
  C31. A key is reported as safe to retire exactly when it is disabled and every enrolled machine has acknowledged a bundle of the
  generation that dropped the key or a later one; a machine that never acknowledged counts against it.
\<close>

theorem retirement_safe_iff:
  assumes "assess_retirement up s rows i = Inr a"
  shows "(ra_safe a \<longleftrightarrow> retirable s rows i) \<and> (ra_safety a = ''safe'' \<longleftrightarrow> ra_safe a)
    \<and> (\<exists>r. cm_get (bs_ca s) i = Some r \<and> ra_id a = ca_id r
        \<and> (\<not> ca_enabled r \<longrightarrow> ra_affected_machines a =
              int (length (filter (\<lambda>m. depends_on (retirement_cutoff s r) (mr_synced_generation m)) rows))))"
  using assms by (rule assessment_exact) auto

section \<open>Acknowledgements\<close>

lemma record_applied_effect:
  assumes inv: "machines_inv x tbl" and t: "rfc3339_range now"
    and r: "record_applied x True tbl i g fp now = (res, tbl')"
  shows "machines_inv x tbl'"
    and "find_by_id x tbl' j = rbind (find_by_id x tbl j) (\<lambda>m. Inr (map_option
          (\<lambda>m. if j = i then synced g fp now m else m) m))"
    and "res = Inr (\<exists>m. find_by_id x tbl i = Inr (Some m))"
proof -
  let ?f = "\<lambda>r. r\<lparr> mr_synced_generation := Some g, mr_bundle_fingerprint := Some fp,
          mr_last_sync := Some (to_text x now) \<rparr>"
  have x: "rfc3339_contract x" using inv by (simp add: machines_inv_def)
  have step: "machine_of_row x (?f r) = Inr (synced g fp now m)" if "machine_of_row x r = Inr m" for r m
    using that by (auto simp: machine_of_row_def result_simps parse_dt_to_text [OF x t] synced_def)
  have tbl': "tbl' = update_where (\<lambda>r. mr_machine_id r = i) ?f tbl"
    and up: "res = Inr (rows_affected (\<lambda>r. mr_machine_id r = i) tbl = 1)"
    using r by (auto simp: record_applied_def Let_def to_text_def)
  note eff = update_by_id [OF inv _ _ _ step _ tbl', simplified]
  show "machines_inv x tbl'" by (rule eff(1)) (simp_all add: synced_def)
  show "find_by_id x tbl' j = rbind (find_by_id x tbl j) (\<lambda>m. Inr (map_option
          (\<lambda>m. if j = i then synced g fp now m else m) m))"
    by (rule eff(2)) (simp_all add: synced_def)
  show "res = Inr (\<exists>m. find_by_id x tbl i = Inr (Some m))"
    unfolding up using eff(3) by (simp add: synced_def)
qed

lemma machine_exists_iff:
  assumes "machines_inv x tbl"
  shows "machine_exists True tbl i = Inr (\<exists>m. find_by_id x tbl i = Inr (Some m))"
proof -
  have "list_ex (\<lambda>r. mr_machine_id r = i) tbl \<longleftrightarrow> i \<in> set (map mr_machine_id tbl)" by (auto simp: list_ex_iff)
  also have "\<dots> \<longleftrightarrow> i \<in> m_machine_id ` set (abs_machines x tbl)"
    by (simp only: map_abs_machines(1) [OF assms, symmetric] set_map)
  also have "\<dots> \<longleftrightarrow> (\<exists>m. find_by_id x tbl i = Inr (Some m))"
    unfolding sqlite_machines.by_id_Some_iff [OF assms] by auto
  finally show ?thesis by (simp add: machine_exists_def)
qed

text \<open>The statement an acknowledgement runs, by its outcome.\<close>

definition ack_write ::
  "externals \<Rightarrow> bool \<Rightarrow> ack_outcome \<Rightarrow> machine_table \<Rightarrow> string \<Rightarrow> int \<Rightarrow> string \<Rightarrow> instant
     \<Rightarrow> (sqlx_error, bool) result \<times> machine_table" where
  "ack_write x up outcome tbl i g fp now =
     (if outcome_is_success outcome then record_applied x up tbl i g fp now else (machine_exists up tbl i, tbl))"

lemma ack_write_effect:
  assumes inv: "machines_inv x tbl" and t: "rfc3339_range now"
    and w: "ack_write x up outcome tbl i g fp now = (res, tbl')"
  shows "machines_inv x tbl'"
    and "find_by_id x tbl' j = rbind (find_by_id x tbl j) (\<lambda>m. Inr (map_option
          (\<lambda>m. if up \<and> outcome = Applied \<and> j = i then synced g fp now m else m) m))"
    and "up \<Longrightarrow> res = Inr (\<exists>m. find_by_id x tbl i = Inr (Some m))"
    and "\<not> up \<Longrightarrow> res = Inl SqlIo \<and> tbl' = tbl"
    and "\<not> (\<exists>m. find_by_id x tbl i = Inr (Some m)) \<or> outcome \<noteq> Applied \<Longrightarrow> tbl' = tbl"
proof -
  have same: "rbind q (\<lambda>m. Inr (map_option (\<lambda>m. m) m)) = q" for q :: "('e, 'b option) result"
    by (cases q) (simp_all add: option.map_ident)
  have "\<not> up \<Longrightarrow> res = Inl SqlIo \<and> tbl' = tbl" for outcome
    using w by (auto simp: ack_write_def record_applied_def machine_exists_def split: if_splits)
  then show down: "\<not> up \<Longrightarrow> res = Inl SqlIo \<and> tbl' = tbl" .
  have rec: "record_applied x True tbl i g fp now = (res, tbl')" if "up" "outcome = Applied"
    using w that by (simp add: ack_write_def outcome_is_success_def)
  have oth: "tbl' = tbl \<and> res = machine_exists up tbl i" if "outcome \<noteq> Applied"
    using w that by (auto simp: ack_write_def outcome_is_success_def)
  note eff = record_applied_effect [OF inv t rec]
  show "tbl' = tbl" if "\<not> (\<exists>m. find_by_id x tbl i = Inr (Some m)) \<or> outcome \<noteq> Applied"
  proof (cases "up \<and> outcome = Applied")
    case True
    then have "\<not> list_ex (\<lambda>r. mr_machine_id r = i) tbl"
      using machine_exists_iff [OF inv, of i] that by (simp add: machine_exists_def)
    then have "update_where (\<lambda>r. mr_machine_id r = i) f tbl = tbl" for f
      unfolding update_where_def list_ex_iff by (intro map_idI) auto
    with rec True show ?thesis by (simp add: record_applied_def Let_def)
  qed (use down oth in blast)
  show "machines_inv x tbl'" using eff(1) oth down inv by metis
  show "res = Inr (\<exists>m. find_by_id x tbl i = Inr (Some m))" if "up"
  proof (cases "outcome = Applied")
    case True
    then show ?thesis by (rule eff(3) [OF that])
  next
    case False
    with oth that show ?thesis by (simp add: machine_exists_iff [OF inv])
  qed
  show "find_by_id x tbl' j = rbind (find_by_id x tbl j) (\<lambda>m. Inr (map_option
          (\<lambda>m. if up \<and> outcome = Applied \<and> j = i then synced g fp now m else m) m))"
  proof (cases "up \<and> outcome = Applied")
    case True
    then show ?thesis using eff(2) by simp
  next
    case False
    then have "tbl' = tbl" and "\<And>j. (up \<and> outcome = Applied \<and> j = i) = False" using down oth by blast+
    then show ?thesis by (simp only: if_False same)
  qed
qed

lemma on_table_iff [result_simps]:
  "on_table f db = (r, db') \<longleftrightarrow>
     (\<exists>q tbl. f (db_machines db) = (q, tbl) \<and> map_err (\<lambda>e. Internal (sqlx_display e)) q = r
        \<and> db' = db\<lparr> db_machines := tbl \<rparr>)"
  by (auto simp: on_table_def split: prod.splits)

definition ack_accepted :: "bundle_ack_request \<Rightarrow> ack_outcome \<Rightarrow> bool" where
  "ack_accepted ack outcome \<longleftrightarrow>
     outcome_parse (bar_status ack) = Some outcome \<and> 0 \<le> bar_generation ack
     \<and> trim (bar_fingerprint ack) \<noteq> [] \<and> length (trim (bar_fingerprint ack)) \<le> 128"

definition ack_event :: "string \<Rightarrow> bundle_ack_request \<Rightarrow> ack_outcome \<Rightarrow> new_audit_entry" where
  "ack_event i ack outcome =
     with_metadata (ack_metadata i ack) (with_subject i (new_entry (outcome_audit_event outcome) ''agent''))"

lemma ack_ca_bundle_unfold:
  assumes "ack_accepted ack outcome"
  shows "ack_ca_bundle x io now audited_at (Some s) m ack =
    hbind (on_table (\<lambda>tbl. ack_write x (io AckRecord) outcome tbl (m_machine_id m) (bar_generation ack)
        (trim (bar_fingerprint ack)) now)) (\<lambda>known.
    hbind (hlift (ensure known (Unauthorized ''request authentication failed''))) (\<lambda>_.
    hbind (append_event x (io AckAudit) audited_at (ack_event (m_machine_id m) ack outcome)) (\<lambda>_.
    hreturn \<lparr> bap_status = ''recorded'', bap_generation = bar_generation ack \<rparr>)))"
  using assms
  by (auto simp: ack_ca_bundle_def require_bundle_def ack_accepted_def ack_event_def ack_write_def
      ROUTE_MAX_FINGERPRINT_LEN_def hbind_def hlift_def Let_def fun_eq_iff)

lemma ack_ca_bundle_refused:
  assumes "service = None \<or> (\<forall>outcome. \<not> ack_accepted ack outcome)"
  shows "\<exists>e. ack_ca_bundle x io now audited_at service m ack db = (Inl e, db)"
  using assms
  by (cases "outcome_parse (bar_status ack)"; cases service)
    (auto simp: ack_ca_bundle_def require_bundle_def ack_accepted_def ROUTE_MAX_FINGERPRINT_LEN_def hbind_def hlift_def
      ensure_def not_le Let_def)

lemma json_wf_ack_event: "json_wf (nae_metadata (ack_event i ack outcome))"
proof -
  have "json_wf (ack_metadata i ack)"
    unfolding ack_metadata_def by (rule json_wf_json_object) (cases "bar_reason ack"; simp)
  then show ?thesis by (simp add: ack_event_def with_metadata_def)
qed

lemma acknowledgement_outcome:
  assumes x: "json_contract x" and inv: "database_inv x db" and t: "rfc3339_range now" "rfc3339_range audited_at"
    and a: "ack_ca_bundle x io now audited_at (Some s) m ack db = (res, db')"
  shows "database_inv x db' \<and> db_tokens db' = db_tokens db
    \<and> ((\<exists>resp. res = Inr resp) \<longleftrightarrow> (\<exists>outcome. ack_accepted ack outcome)
         \<and> (\<exists>k. find_by_id x (db_machines db) (m_machine_id m) = Inr (Some k)) \<and> io AckRecord \<and> io AckAudit)
    \<and> (case res of
         Inr resp \<Rightarrow> bap_generation resp = bar_generation ack \<and> (\<exists>outcome. ack_accepted ack outcome
           \<and> logged db db' (outcome_audit_event outcome) ''agent'' (m_machine_id m)
           \<and> (\<forall>j. find_by_id x (db_machines db') j =
                rbind (find_by_id x (db_machines db) j) (\<lambda>k. Inr (map_option (\<lambda>k.
                  if outcome = Applied \<and> j = m_machine_id m
                  then synced (bar_generation ack) (trim (bar_fingerprint ack)) now k else k) k))))
       | Inl _ \<Rightarrow> db_audit db' = db_audit db \<and> (db' = db
           \<or> ack_accepted ack Applied \<and> (\<exists>k. find_by_id x (db_machines db) (m_machine_id m) = Inr (Some k))
             \<and> io AckRecord \<and> \<not> io AckAudit
             \<and> (\<forall>j. find_by_id x (db_machines db') j =
                  rbind (find_by_id x (db_machines db) j) (\<lambda>k. Inr (map_option (\<lambda>k.
                    if j = m_machine_id m then synced (bar_generation ack) (trim (bar_fingerprint ack)) now k else k) k)))))"
proof (cases "\<exists>outcome. ack_accepted ack outcome")
  case False
  with ack_ca_bundle_refused [of "Some s" ack x io now audited_at m db] a inv show ?thesis by auto
next
  case True
  then obtain outcome where acc: "ack_accepted ack outcome" by blast
  have mi: "machines_inv x (db_machines db)" using inv by (simp add: database_inv_def)
  obtain q tbl where w: "ack_write x (io AckRecord) outcome (db_machines db) (m_machine_id m) (bar_generation ack)
      (trim (bar_fingerprint ack)) now = (q, tbl)" by force
  let ?db = "db\<lparr> db_machines := tbl \<rparr>"
  let ?known = "\<exists>k. find_by_id x (db_machines db) (m_machine_id m) = Inr (Some k)"
  note eff = ack_write_effect [OF mi t(1) w]
  have inv1: "database_inv x ?db" using inv eff(1) by (simp add: database_inv_def)
  note run = a [unfolded ack_ca_bundle_unfold [OF acc], unfolded hbind_def on_table_def Let_def, simplified, unfolded w]
  show ?thesis
  proof (cases "io AckRecord \<and> ?known")
    case False
    then have "(\<exists>e. res = Inl e) \<and> db' = ?db"
      using run eff(3,4) by (cases "io AckRecord") (auto simp: hlift_def)
    moreover have "tbl = db_machines db" using False eff(4,5) by blast
    ultimately show ?thesis using False inv by auto
  next
    case True
    then have q: "q = Inr True" using eff(3) by simp
    obtain r1 db1 where ev: "append_event x (io AckAudit) audited_at (ack_event (m_machine_id m) ack outcome) ?db = (r1, db1)"
      by force
    have res: "db' = db1" "\<And>u. r1 = Inr u \<Longrightarrow> \<exists>resp. res = Inr resp \<and> bap_generation resp = bar_generation ack" "\<And>e. r1 = Inl e \<Longrightarrow> res = Inl e"
      using run q ev by (auto simp: hlift_def hreturn_def split: sum.splits)
    have inv': "database_inv x db1"
      using append_event_inv [OF x t(2) json_wf_ack_event] inv1 ev unfolding steps_within_def inv_step_def by (metis snd_conv)
    have ok: "\<exists>u. r1 = Inr u" if "io AckAudit"
    proof -
      obtain db2 where "append_event x True audited_at (ack_event (m_machine_id m) ack outcome) ?db = (Inr (), db2)"
        by (rule append_event_ok [OF x inv1 json_wf_ack_event t(2)])
      with ev that show ?thesis by simp
    qed
    from ev show ?thesis
    proof (cases rule: append_event_cases)
      case (failed e)
      then have down: "\<not> io AckAudit" "res = Inl e" "db' = ?db" using res ok by auto
      show ?thesis
      proof (cases "outcome = Applied")
        case applied: True
        then have "find_by_id x tbl j = rbind (find_by_id x (db_machines db) j) (\<lambda>k. Inr (map_option (\<lambda>k.
            if j = m_machine_id m then synced (bar_generation ack) (trim (bar_fingerprint ack)) now k else k) k))" for j
          using eff(2) [of j] True by simp
        with applied acc True down inv1 show ?thesis by simp
      next
        case False
        then have "tbl = db_machines db" using eff(5) by blast
        with down inv show ?thesis by simp
      qed
    next
      case (recorded row)
      then have "logged db db1 (outcome_audit_event outcome) ''agent'' (m_machine_id m)"
        by (simp add: logged_def ack_event_def with_metadata_def with_subject_def new_entry_def)
      moreover have "db_machines db1 = tbl" "db_tokens db1 = db_tokens db" using recorded by simp_all
      moreover have "io AckRecord" using True by simp
      moreover obtain resp where "res = Inr resp" "bap_generation resp = bar_generation ack" using res(2) recorded(1) by blast
      moreover have "io AckAudit" using recorded by simp
      ultimately show ?thesis
        using res(1) inv' eff(2) True acc by (simp only: sum.case simp_thms) blast
    qed
  qed
qed

text \<open>
  C32. An acknowledgement succeeds exactly for a known machine with a known status, a non-negative generation and a fingerprint of 1 to
  128 bytes, when storage takes both of its statements.  A successful one appends one event of the agent about that machine; only the
  outcome "applied" sets that machine's synced state, and no acknowledgement changes another machine.  A failed one appends nothing
  and leaves the database as it was, with one exception: when "applied" was recorded and only the audit entry could not be written, the
  machine's synced state stays set without a record of it.
\<close>

theorem acknowledgement_effect:
  assumes x: "json_contract x" and inv: "database_inv x db" and t: "rfc3339_range now" "rfc3339_range audited_at"
    and a: "ack_ca_bundle x io now audited_at (Some s) m ack db = (res, db')"
  shows "database_inv x db' \<and> db_tokens db' = db_tokens db
    \<and> ((\<exists>resp. res = Inr resp) \<longleftrightarrow> (\<exists>outcome. ack_accepted ack outcome)
         \<and> (\<exists>k. find_by_id x (db_machines db) (m_machine_id m) = Inr (Some k)) \<and> io AckRecord \<and> io AckAudit)
    \<and> (case res of
         Inr resp \<Rightarrow> bap_generation resp = bar_generation ack \<and> (\<exists>outcome. ack_accepted ack outcome
           \<and> logged db db' (outcome_audit_event outcome) ''agent'' (m_machine_id m)
           \<and> (\<forall>j. find_by_id x (db_machines db') j =
                rbind (find_by_id x (db_machines db) j) (\<lambda>k. Inr (map_option (\<lambda>k.
                  if outcome = Applied \<and> j = m_machine_id m
                  then synced (bar_generation ack) (trim (bar_fingerprint ack)) now k else k) k))))
       | Inl _ \<Rightarrow> db_audit db' = db_audit db \<and> (db' = db
           \<or> ack_accepted ack Applied \<and> (\<exists>k. find_by_id x (db_machines db) (m_machine_id m) = Inr (Some k))
             \<and> io AckRecord \<and> \<not> io AckAudit
             \<and> (\<forall>j. find_by_id x (db_machines db') j =
                  rbind (find_by_id x (db_machines db) j) (\<lambda>k. Inr (map_option (\<lambda>k.
                    if j = m_machine_id m then synced (bar_generation ack) (trim (bar_fingerprint ack)) now k else k) k)))))"
  using assms by (rule acknowledgement_outcome)

section \<open>The invariant and the poll interval\<close>

lemma ack_ca_bundle_inv:
  assumes "json_contract x" "rfc3339_range now" "rfc3339_range audited_at"
  shows "steps_within (inv_step x) (ack_ca_bundle x io now audited_at service m ack)"
  unfolding steps_within_def inv_step_def
proof (intro allI impI)
  fix db assume inv: "database_inv x db"
  obtain res db' where run: "ack_ca_bundle x io now audited_at service m ack db = (res, db')" by force
  show "database_inv x (snd (ack_ca_bundle x io now audited_at service m ack db))"
  proof (cases service)
    case None
    with ack_ca_bundle_refused [of service ack x io now audited_at m db] run inv show ?thesis by auto
  next
    case (Some s)
    with acknowledgement_outcome [OF assms(1) inv assms(2,3) run [unfolded Some]] run show ?thesis by simp
  qed
qed

text \<open>What an acknowledgement, recorded or not, can do to the machines and to the other tables.\<close>

lemma ack_ca_bundle_frame:
  assumes inv: "database_inv x db" and t: "rfc3339_range now"
    and a: "ack_ca_bundle x io now audited_at service m ack db = (res, db')"
  shows "(\<forall>j. \<exists>up. find_by_id x (db_machines db') j = rbind (find_by_id x (db_machines db) j) (\<lambda>k. Inr (map_option (\<lambda>k.
            if up \<and> j = m_machine_id m then synced (bar_generation ack) (trim (bar_fingerprint ack)) now k else k) k)))
    \<and> db_tokens db' = db_tokens db \<and> (\<exists>rows. db_audit db' = db_audit db @ rows)"
proof (cases "service = None \<or> (\<forall>outcome. \<not> ack_accepted ack outcome)")
  case True
  have same: "rbind q (\<lambda>m. Inr (map_option (\<lambda>m. m) m)) = q" for q :: "('e, 'b option) result"
    by (cases q) (simp_all add: option.map_ident)
  have "db' = db" using ack_ca_bundle_refused [OF True, of x io now audited_at m db] a by auto
  then show ?thesis
    by (intro conjI allI exI [where x = False] exI [where x = "[]"]) (simp_all add: same)
next
  case False
  then obtain s outcome where s: "service = Some s" "ack_accepted ack outcome" by (cases service) auto
  have mi: "machines_inv x (db_machines db)" using inv by (simp add: database_inv_def)
  obtain q tbl where w: "ack_write x (io AckRecord) outcome (db_machines db) (m_machine_id m) (bar_generation ack)
      (trim (bar_fingerprint ack)) now = (q, tbl)" by force
  let ?db = "db\<lparr> db_machines := tbl \<rparr>"
  note run = a [unfolded s(1) ack_ca_bundle_unfold [OF s(2)], unfolded hbind_def on_table_def Let_def, simplified, unfolded w]
  obtain r1 db1 where ev: "append_event x (io AckAudit) audited_at (ack_event (m_machine_id m) ack outcome) ?db = (r1, db1)"
    by force
  have "db' = ?db \<or> db' = db1" using run ev by (auto simp: hlift_def hreturn_def split: sum.splits)
  moreover from ev have "db_machines db1 = tbl \<and> db_tokens db1 = db_tokens db \<and> (\<exists>rows. db_audit db1 = db_audit db @ rows)"
    by (cases rule: append_event_cases) auto
  ultimately have "db_machines db' = tbl \<and> db_tokens db' = db_tokens db \<and> (\<exists>rows. db_audit db' = db_audit db @ rows)" by auto
  then show ?thesis
    by (intro conjI allI exI [where x = "io AckRecord \<and> outcome = Applied"])
      (simp_all add: ack_write_effect(2) [OF mi t w] conj_assoc)
qed

lemma steps_within_if:
  "(b \<Longrightarrow> steps_within R m) \<Longrightarrow> (\<not> b \<Longrightarrow> steps_within R n) \<Longrightarrow> steps_within R (if b then m else n)"
  by simp

lemma get_ca_bundle_inv:
  assumes "json_contract x" "rfc3339_range audited_at"
  shows "steps_within (inv_step x) (get_ca_bundle x value_ok up now audited_at service m h)"
proof -
  have wf: "json_wf (json_object [(''machine_id'', JStr a), (''generation'', JNum b), (''fingerprint'', JStr c),
      (''bundle_version'', JNum d)])" for a b c d
    by (rule json_wf_json_object) simp
  show ?thesis
    unfolding get_ca_bundle_def Let_def
    by (intro handler_inv steps_within_if assms; simp add: with_metadata_def with_subject_def new_entry_def wf)
qed

text \<open>The spread of the poll interval, and the casts that can leave it.\<close>

lemma with_jitter_bounds:
  assumes "\<And>n. 0 < n \<Longrightarrow> rng n < n"
    and "unat base + min (2 ^ 32 - 1) (unat base * min (unat pct) 100) div 100 < 2 ^ 32"
  shows "1 \<le> unat (with_jitter base pct rng)"
    and "base \<noteq> 0 \<Longrightarrow>
      unat base - min (2 ^ 32 - 1) (unat base * min (unat pct) 100) div 100 \<le> unat (with_jitter base pct rng)
      \<and> unat (with_jitter base pct rng) \<le> unat base + min (2 ^ 32 - 1) (unat base * min (unat pct) 100) div 100"
proof -
  define delta where "delta = min (2 ^ 32 - 1) (unat base * min (unat pct) 100) div 100"
  have run: "with_jitter base pct rng = (if base = 0 then 1 else if delta = 0 then max base 1
      else word_of_int (max (uint base + (int (rng (delta * 2 + 1)) - int delta)) 1))"
    by (simp only: with_jitter_def Let_def delta_def)
  have b: "unat base \<noteq> 0" if "base \<noteq> 0" using that by (simp add: unat_eq_zero)
  have one: "unat (max base 1) = unat base" if "base \<noteq> 0"
  proof -
    have "1 \<le> base" using b [OF that] by (simp add: word_le_nat_alt Suc_le_eq)
    then show ?thesis by (simp add: max_absorb1)
  qed
  have *: "1 \<le> unat (with_jitter base pct rng) \<and> (base \<noteq> 0 \<longrightarrow>
      unat base - delta \<le> unat (with_jitter base pct rng) \<and> unat (with_jitter base pct rng) \<le> unat base + delta)"
  proof (cases "base = 0 \<or> delta = 0")
    case True
    then show ?thesis using b one by (auto simp: run Suc_le_eq)
  next
    case False
    define j where "j = max (int (unat base) + (int (rng (delta * 2 + 1)) - int delta)) 1"
    have "rng (delta * 2 + 1) < delta * 2 + 1" using assms(1) by simp
    with False have j: "1 \<le> j" "int (unat base) - int delta \<le> j" "j \<le> int (unat base) + int delta"
      unfolding j_def by linarith+
    have "with_jitter base pct rng = word_of_int j"
      using False by (simp add: run j_def)
    moreover have "unat base + delta < 4294967296" using assms(2) [folded delta_def] by simp
    with j(3) have "j < 4294967296" by linarith
    ultimately have "int (unat (with_jitter base pct rng)) = j" using j(1) by (simp add: uint_word_of_int)
    with j show ?thesis by linarith
  qed
  then show "1 \<le> unat (with_jitter base pct rng)" by blast
  from * show "base \<noteq> 0 \<Longrightarrow>
      unat base - min (2 ^ 32 - 1) (unat base * min (unat pct) 100) div 100 \<le> unat (with_jitter base pct rng)
      \<and> unat (with_jitter base pct rng) \<le> unat base + min (2 ^ 32 - 1) (unat base * min (unat pct) 100) div 100"
    by (simp add: delta_def)
qed

lemma with_jitter_wraps: "with_jitter (2 ^ 32 - 1) 10 (\<lambda>n. n div 2 + 1) = 0"
  by (simp add: with_jitter_def Let_def)

section \<open>Witnesses\<close>

definition demo_bundle :: bundle_service where
  "demo_bundle = new_bundle_service
     \<lparr> cm_generation = 3, cm_bundle_fingerprint = ''sha256:ab'',
       cm_public_bundle = \<lparr> pb_generation = 3, pb_fingerprint = ''sha256:ab'',
         pb_keys = [\<lparr> cpe_key_id = ''ca-01'', cpe_public_key = ''ssh-ed25519 AAAA'', cpe_fingerprint = ''SHA256:aa'' \<rparr>] \<rparr>,
       cm_get = (\<lambda>i. if i = ''old'' then Some \<lparr> ca_id = ''old'', ca_key_id = ''ca-00'', ca_public_key = ''ssh-ed25519 OLD'',
           ca_fingerprint = ''SHA256:00'', ca_enabled = False, ca_created_at = 0, ca_enabled_at = None,
           ca_disabled_at = Some 0, ca_last_used_at = None, ca_issued_certificates = 0,
           ca_disabled_generation = Some 3 \<rparr> else None) \<rparr> demo_seed 3600"

lemma demo_bundle_simps:
  "bs_signer demo_bundle = demo_seed" "bs_ttl_seconds demo_bundle = 3600"
  "pb_keys (cm_public_bundle (bs_ca demo_bundle)) \<noteq> []"
  by (simp_all add: demo_bundle_def new_bundle_service_def)

lemma demo_bundle_key: "length (bs_signer demo_bundle) = 32"
  "openssh_encodes ref_externals (ed25519_public ref_externals (bs_signer demo_bundle))"
proof -
  have "char_of (65 :: nat) = CHR ''A''" by code_simp
  then show "openssh_encodes ref_externals (ed25519_public ref_externals (bs_signer demo_bundle))"
    by (simp add: demo_bundle_simps demo_seed_def openssh_encodes_def ref_externals_def ref_to_openssh_def
        ref_from_openssh_def byte_chars_def as_bytes_def takeWhile_replicate dropWhile_replicate Let_def)
qed (simp add: demo_bundle_simps demo_seed_def)

lemma demo_bundle_time: "rfc3339_range (0 + seconds (bs_ttl_seconds demo_bundle))"
  using demo_times(2) by (simp add: demo_bundle_simps)

theorem signed_bundle_verifies_witness:
  "\<exists>b. build_signed_bundle ref_externals demo_bundle 0 = Inr b
     \<and> verify_signed_bundle ref_externals b demo_seed (seconds 3600) = Inr ()
     \<and> verify_signed_bundle ref_externals b demo_seed (seconds 3601) = Inl BundleExpired
     \<and> verify_signed_bundle ref_externals b [] 0 = Inl UntrustedSigner"
proof -
  have "ed25519_public ref_externals demo_seed = demo_seed" "demo_seed \<noteq> []"
    by (simp_all add: ref_externals_def demo_seed_def)
  moreover have "trunc_secs (seconds 3600) = seconds 3600" "seconds 3600 < seconds 3601"
    by (simp_all add: trunc_secs_def seconds_def nanos_per_sec_def)
  ultimately show ?thesis
    using signed_bundle_verifies [OF ref_ed25519_contract ref_base64_contract ref_rfc3339_contract demo_bundle_key
        demo_bundle_time demo_bundle_simps(3)]
    by (auto simp: demo_bundle_simps)
qed

text \<open>
  A bundle with another displayed key fingerprint, which the signature does not cover: it differs from the one the server built, is
  accepted with its signature, and says the same.
\<close>

definition relabelled :: "signed_bundle \<Rightarrow> signed_bundle" where
  "relabelled b = b\<lparr> sb_keys := map (bk_fingerprint_update (Cons CHR ''x'')) (sb_keys b) \<rparr>"

lemma canonical_v1_relabelled: "canonical_v1 (bundle_content (relabelled b)) = canonical_v1 (bundle_content b)"
proof -
  let ?f = "bk_fingerprint_update (Cons CHR ''x'') :: bundle_key \<Rightarrow> bundle_key"
  have insort: "insort_key bk_key_id (?f k) (map ?f ks) = map ?f (insort_key bk_key_id k ks)" for k ks
    by (induction ks) auto
  have "sort_key bk_key_id (map ?f ks) = map ?f (sort_key bk_key_id ks)" for ks
    by (induction ks) (simp_all add: insort)
  moreover have "signing_key_object \<circ> ?f = signing_key_object" by (auto simp: signing_key_object_def)
  ultimately show ?thesis by (simp add: canonical_v1_def bundle_content_def relabelled_def append_keys_array_def Let_def)
qed

theorem signed_bundle_binds_witness:
  "\<exists>b b'. build_signed_bundle ref_externals demo_bundle 0 = Inr b \<and> b' \<noteq> b
     \<and> verify_signed_bundle ref_externals b' demo_seed 0 = Inr () \<and> sb_signature b' = sb_signature b
     \<and> same_content (bundle_content b') (bundle_content b)"
proof -
  obtain b where b: "build_signed_bundle ref_externals demo_bundle 0 = Inr b"
    using demo_bundle_simps(3) by (simp add: build_signed_bundle_def Let_def canonical_message_def)
  have pk: "ed25519_public ref_externals demo_seed = demo_seed" by (simp add: ref_externals_def)
  have "0 \<le> trunc_secs (seconds 3600)" by (simp add: trunc_secs_def seconds_def nanos_per_sec_def)
  then have "verify_signed_bundle ref_externals b demo_seed 0 = Inr ()"
    using built_bundle_verifies(1) [OF ref_ed25519_contract ref_base64_contract ref_rfc3339_contract demo_bundle_key
        demo_bundle_time b, of 0] by (simp add: demo_bundle_simps pk)
  then have acc: "verify_signed_bundle ref_externals (relabelled b) demo_seed 0 = Inr ()"
    unfolding verify_signed_bundle_Inr_iff canonical_v1_relabelled by (simp add: relabelled_def)
  have sig: "sb_signature (relabelled b) = sb_signature b" by (simp add: relabelled_def)
  have "sb_keys b \<noteq> []" using b by (auto simp: build_signed_bundle_Inr_iff)
  then have "bk_fingerprint (hd (sb_keys (relabelled b))) \<noteq> bk_fingerprint (hd (sb_keys b))"
    by (cases "sb_keys b") (simp_all add: relabelled_def)
  then have ne: "relabelled b \<noteq> b" by metis
  have "same_content (bundle_content (relabelled b)) (bundle_content b)"
    using signed_bundle_binds [OF ref_ed25519_contract ref_base64_contract demo_bundle_key(1) b, of "relabelled b" 0] acc sig
    by (simp add: demo_bundle_simps pk signs_both_def canonical_v1_relabelled)
  with b ne acc sig show ?thesis by blast
qed

theorem retirement_safe_iff_witness:
  "\<exists>a. assess_retirement True demo_bundle demo_tbl ''old'' = Inr a \<and> \<not> ra_safe a \<and> ra_affected_machines a = 1"
proof -
  obtain a where a: "assess_retirement True demo_bundle demo_tbl ''old'' = Inr a"
    by (simp add: assess_retirement_def demo_bundle_def new_bundle_service_def Let_def)
  have "\<exists>m \<in> set demo_tbl. mr_synced_generation m = None"
    by (simp add: demo_tbl_def inserted_row_def Let_def)
  with retirement_safe_iff [OF a] a show ?thesis
    by (auto simp: retirable_def demo_bundle_def new_bundle_service_def demo_tbl_def inserted_row_def depends_on_def Let_def)
qed

text \<open>Both cases: an acknowledgement that succeeds, and one of which only the audit entry fails.\<close>

definition demo_ack :: bundle_ack_request where
  "demo_ack = \<lparr> bar_generation = 3, bar_fingerprint = ''sha256:ab'', bar_status = ''applied'', bar_reason = None \<rparr>"

lemma demo_ack_accepted: "ack_accepted demo_ack outcome \<longleftrightarrow> outcome = Applied"
proof -
  have "outcome_parse ''applied'' = Some Applied" "trim ''sha256:ab'' = ''sha256:ab''" by code_simp+
  then show ?thesis by (auto simp: ack_accepted_def demo_ack_def)
qed

theorem acknowledgement_effect_witness:
  "\<exists>resp db1 e db2 k. ack_ca_bundle ref_externals (\<lambda>_. True) 0 0 (Some demo_bundle) demo_machine demo_ack demo_database = (Inr resp, db1)
     \<and> find_by_id ref_externals (db_machines db1) ''srv_1'' = Inr (Some k) \<and> m_synced_generation k = Some 3
     \<and> length (db_audit db1) = 1
     \<and> ack_ca_bundle ref_externals (\<lambda>s. s = AckRecord) 0 0 (Some demo_bundle) demo_machine demo_ack demo_database = (Inl e, db2)
     \<and> db_audit db2 = []"
proof -
  let ?run = "\<lambda>io. ack_ca_bundle ref_externals io 0 0 (Some demo_bundle) demo_machine demo_ack demo_database"
  obtain res1 db1 res2 db2 where r: "?run (\<lambda>_. True) = (res1, db1)" "?run (\<lambda>s. s = AckRecord) = (res2, db2)" by force
  note eff = r [THEN acknowledgement_effect [OF ref_json_contract demo_database_inv demo_times(1) demo_times(1)]]
  have i: "m_machine_id demo_machine = ''srv_1''"
    by (simp add: demo_machine_def stored_machine_def inserted_machine_def)
  have empty: "db_audit demo_database = []" by (simp add: demo_database_def empty_database_def)
  obtain resp where resp: "res1 = Inr resp" using eff(1) demo_ack_accepted demo_database_found i by auto
  obtain e where e: "res2 = Inl e" using eff(2) by (cases res2) auto
  have "find_by_id ref_externals (db_machines db1) ''srv_1'' = Inr (Some (synced 3 (trim (bar_fingerprint demo_ack)) 0 demo_machine))"
    using eff(1) demo_database_found i unfolding resp demo_ack_accepted by (simp add: demo_ack_def)
  moreover have "length (db_audit db1) = 1" using eff(1) empty unfolding resp by (auto simp: logged_def)
  moreover have "db_audit db2 = []" using eff(2) empty unfolding e by simp
  ultimately show ?thesis using r resp e by (auto simp: synced_def)
qed

end
