(* ===== verification/Rollout.thy ===== *)
theory Rollout
  imports AuditQuery Distribution
begin

text \<open>
  The rollout console (\<^verbatim>\<open>src/rollout\<close>, \<^verbatim>\<open>src/routes/rollout.rs\<close>): one snapshot of the machine registry, the CA generation
  and the bundle events of the audit log, and the reports computed from it.  The lemmas show that the
  reports account for every machine exactly once.
\<close>

section \<open>Report types\<close>

definition HEALTH_HEALTHY :: string where "HEALTH_HEALTHY = ''Healthy''"
definition HEALTH_DEGRADED :: string where "HEALTH_DEGRADED = ''Degraded''"
definition HEALTH_BLOCKED :: string where "HEALTH_BLOCKED = ''Blocked''"
definition HEALTH_FAILED :: string where "HEALTH_FAILED = ''Failed''"

record machine_failure =
  mfl_event_type :: string
  mfl_generation :: "int option"
  mfl_reason :: "string option"
  mfl_at :: string

record machine_rollout =
  mro_machine_id :: string
  mro_hostname :: string
  mro_status :: string
  mro_liveness :: string
  mro_synced_generation :: "int option"
  mro_latest_generation :: "int option"
  mro_current_generation :: int
  mro_up_to_date :: bool
  mro_generations_behind :: int
  mro_state :: string
  mro_category :: string
  mro_last_sync :: "string option"
  mro_last_seen :: "string option"
  mro_last_failure :: "machine_failure option"

record rollout_breakdown =
  rb_healthy :: int
  rb_stale :: int
  rb_offline :: int
  rb_failed :: int
  rb_pending :: int

record generation_detail =
  gd_generation :: int
  gd_machines :: int
  gd_percentage :: rat
  gd_is_latest :: bool

record rollout_eta =
  re_complete :: bool
  re_remaining :: int
  re_applies_last_hour :: int
  re_per_hour :: rat
  re_eta_seconds :: "int option"
  re_estimated_completion :: "string option"

record rollout_health =
  rh_status :: string
  rh_score :: byte
  rh_reasons :: "string list"

record rollout_status =
  rst_configured :: bool
  rst_latest_generation :: "int option"
  rst_bundle_fingerprint :: "string option"
  rst_total_machines :: int
  rst_active_machines :: int
  rst_completed :: int
  rst_remaining :: int
  rst_never_synced :: int
  rst_percentage :: rat
  rst_online :: int
  rst_stale :: int
  rst_offline :: int
  rst_breakdown :: rollout_breakdown
  rst_generations :: "generation_detail list"
  rst_eta :: rollout_eta
  rst_health :: rollout_health

record generations_response =
  gr_latest_generation :: "int option"
  gr_generations :: "generation_detail list"

record machines_response =
  msr_count :: nat
  msr_machines :: "machine_rollout list"

record explain_category =
  xc_category :: string
  xc_count :: int
  xc_description :: string
  xc_recommendation :: string
  xc_machines :: "string list"

record rollout_explanation =
  rx_latest_generation :: "int option"
  rx_complete :: bool
  rx_remaining :: int
  rx_categories :: "explain_category list"

record stuck_machine =
  sm_machine_id :: string
  sm_hostname :: string
  sm_category :: string
  sm_generations_behind :: int
  sm_liveness :: string
  sm_last_sync :: "string option"
  sm_last_seen :: "string option"
  sm_last_failure :: "machine_failure option"
  sm_recommendation :: string

record stuck_report =
  sr_count :: nat
  sr_stuck :: "stuck_machine list"

record timeline_event =
  te_position :: int
  te_at :: string
  te_event_type :: string
  te_outcome :: string
  te_machine_id :: "string option"
  te_generation :: "int option"
  te_reason :: "string option"

record rollout_timeline =
  rt_count :: nat
  rt_events :: "timeline_event list"

record generation_history =
  gh_generation :: int
  gh_is_latest :: bool
  gh_machines_on_generation :: int
  gh_first_applied_at :: "string option"
  gh_last_applied_at :: "string option"
  gh_total_applies :: int

record rollout_history =
  rhi_latest_generation :: "int option"
  rhi_generations :: "generation_history list"

section \<open>Helpers\<close>

definition FAILURE_WINDOW_HOURS :: int where "FAILURE_WINDOW_HOURS = 24"
definition ETA_WINDOW_SECONDS :: int where "ETA_WINDOW_SECONDS = 3600"
definition BUNDLE_EVENT_SCAN :: int where "BUNDLE_EVENT_SCAN = 1000"
definition HISTORY_EVENT_SCAN :: int where "HISTORY_EVENT_SCAN = 1000"
definition TIMELINE_DEFAULT_LIMIT :: int where "TIMELINE_DEFAULT_LIMIT = 50"
definition TIMELINE_MAX_LIMIT :: int where "TIMELINE_MAX_LIMIT = 500"
definition EXPLAIN_SAMPLE :: nat where "EXPLAIN_SAMPLE = 10"

definition CAT_UP_TO_DATE :: string where "CAT_UP_TO_DATE = ''up_to_date''"
definition CAT_REVOKED :: string where "CAT_REVOKED = ''revoked_machine''"
definition CAT_DISABLED :: string where "CAT_DISABLED = ''disabled_machine''"
definition CAT_VERIFICATION :: string where "CAT_VERIFICATION = ''bundle_verification_failure''"
definition CAT_HELPER :: string where "CAT_HELPER = ''helper_failure''"
definition CAT_OFFLINE :: string where "CAT_OFFLINE = ''offline''"
definition CAT_STALE :: string where "CAT_STALE = ''heartbeat_stale''"
definition CAT_MISMATCH :: string where "CAT_MISMATCH = ''generation_mismatch''"

lemmas category_names = CAT_UP_TO_DATE_def CAT_REVOKED_def CAT_DISABLED_def CAT_VERIFICATION_def CAT_HELPER_def
  CAT_OFFLINE_def CAT_STALE_def CAT_MISMATCH_def

definition is_stuck_category :: "string \<Rightarrow> bool" where
  "is_stuck_category category \<longleftrightarrow>
     category \<in> {CAT_OFFLINE, CAT_VERIFICATION, CAT_HELPER, CAT_DISABLED, CAT_REVOKED}"

definition category_description :: "string \<Rightarrow> string" where
  "category_description category =
     (if category = CAT_VERIFICATION then ''agent rejected the bundle signature (untrusted signing key)''
      else if category = CAT_HELPER then ''agent rolled back after a failed sshd reload''
      else if category = CAT_OFFLINE then ''no recent heartbeat; the host appears down''
      else if category = CAT_STALE then ''heartbeats are arriving late''
      else if category = CAT_DISABLED then ''machine is administratively disabled''
      else if category = CAT_REVOKED then ''machine is revoked and will not receive bundles''
      else if category = CAT_MISMATCH then ''online but has not pulled the latest generation yet''
      else ''unknown'')"

definition category_recommendation :: "string \<Rightarrow> string" where
  "category_recommendation category =
     (if category = CAT_VERIFICATION then
        ''Verify the pinned bundle signing key matches the server; re-enroll the machine if the key was rotated.''
      else if category = CAT_HELPER then
        ''Inspect agent logs (journalctl -u mayfly-agent) and the host'' @ [CHR 0x27]
          @ ''s sshd config; the previous bundle was restored.''
      else if category = CAT_OFFLINE then
        ''Ensure the host is powered on and mayfly-agent is running (systemctl status mayfly-agent).''
      else if category = CAT_STALE then
        ''Check network/agent health; the machine should converge on its next sync.''
      else if category = CAT_DISABLED then
        ''Enable the machine (mayfly machine enable <id>) if it should receive rollouts.''
      else if category = CAT_REVOKED then
        ''Remove the machine (mayfly machine delete <id>) or re-enroll a replacement.''
      else if category = CAT_MISMATCH then
        ''No action needed; it should converge on its next sync interval.''
      else ''Investigate the machine state.'')"

definition outcome_of :: "string \<Rightarrow> string" where
  "outcome_of event_type =
     (if event_type = ''bundle.downloaded'' then ''downloaded''
      else if event_type = ''bundle.applied'' then ''applied''
      else if event_type = ''bundle.rollback'' then ''rolled_back''
      else if event_type = ''bundle.signature_failed'' then ''verification_failed''
      else ''other'')"

fun liveness_str :: "liveness_status \<Rightarrow> string" where
  "liveness_str Online = ''ONLINE''"
| "liveness_str Stale = ''STALE''"
| "liveness_str Offline = ''OFFLINE''"

definition generations_behind :: "machine_view \<Rightarrow> int" where
  "generations_behind m =
     (case (mv_synced_generation m, mv_latest_generation m) of
        (Some s, Some l) \<Rightarrow> max (l - s) 0
      | (None, Some l) \<Rightarrow> max l 0
      | _ \<Rightarrow> 0)"

definition percentage :: "int \<Rightarrow> int \<Rightarrow> rat" where
  "percentage part whole = (if whole \<le> 0 then 0 else percent_one_decimal (nat part) (nat whole))"

fun as_i64 :: "json \<Rightarrow> int option" where
  "as_i64 (JNum n) = (if in_i64 n then Some n else None)"
| "as_i64 _ = None"

definition meta_string :: "json \<Rightarrow> string \<Rightarrow> string option" where
  "meta_string metadata key = Option.bind (json_get metadata key) as_str"

definition meta_i64 :: "json \<Rightarrow> string \<Rightarrow> int option" where
  "meta_i64 metadata key = Option.bind (json_get metadata key) as_i64"

definition event_machine_id :: "audit_entry \<Rightarrow> string option" where
  "event_machine_id e =
     (case ae_subject e of Some s \<Rightarrow> Some s | None \<Rightarrow> meta_string (ae_metadata e) ''machine_id'')"

definition parse_rfc3339 :: "externals \<Rightarrow> string \<Rightarrow> instant option" where
  "parse_rfc3339 x s = (case parse_from_rfc3339 x s of Inr t \<Rightarrow> Some t | Inl _ \<Rightarrow> None)"

text \<open>A float cast to an 8-bit integer: truncation, saturating.\<close>

definition f64_as_u8 :: "rat \<Rightarrow> byte" where
  "f64_as_u8 q = word_of_int (max 0 (min 255 \<lfloor>q\<rfloor>))"

section \<open>The snapshot\<close>

datatype rollout_error = RolloutDatabase sqlx_error | RolloutAudit audit_error

fun api_from_rollout :: "rollout_error \<Rightarrow> api_error" where
  "api_from_rollout (RolloutDatabase e) = Internal (sqlx_display e)"
| "api_from_rollout (RolloutAudit e) = Internal (audit_error_display e)"

record recent_failure =
  rf_failure :: machine_failure
  rf_at :: instant

record rollout_service =
  rs_machines :: "machine_view list"
  rs_latest_generation :: "int option"
  rs_bundle_fingerprint :: "string option"
  rs_configured :: bool
  rs_failures :: "(string \<times> recent_failure) list"
  rs_bundle_events :: "audit_entry list"
  rs_now :: instant

definition failure_event :: "string \<Rightarrow> bool" where
  "failure_event event_type \<longleftrightarrow> event_type = ''bundle.rollback'' \<or> event_type = ''bundle.signature_failed''"

definition note_failure ::
  "externals \<Rightarrow> (string \<times> recent_failure) list \<Rightarrow> audit_entry \<Rightarrow> (string \<times> recent_failure) list" where
  "note_failure x fs e =
     (if \<not> failure_event (ae_event_type e) then fs
      else
        case event_machine_id e of
          None \<Rightarrow> fs
        | Some mid \<Rightarrow>
            (case map_of fs mid of
               Some _ \<Rightarrow> fs
             | None \<Rightarrow> fs @ [(mid, \<lparr> rf_failure = \<lparr> mfl_event_type = ae_event_type e,
                   mfl_generation = meta_i64 (ae_metadata e) ''generation'',
                   mfl_reason = meta_string (ae_metadata e) ''reason'',
                   mfl_at = to_rfc3339_secs x (ae_recorded_at e) \<rparr>, rf_at = ae_recorded_at e \<rparr>)]))"

definition load_rollout ::
  "externals \<Rightarrow> bool \<Rightarrow> bool \<Rightarrow> database \<Rightarrow> ca_reads option \<Rightarrow> bool \<Rightarrow> instant \<Rightarrow> (rollout_error, rollout_service) result" where
  "load_rollout x machines_up audit_up db ca configured now =
     (let latest_generation = map_option (\<lambda>c. uint (cm_generation c)) ca;
          bundle_fingerprint = map_option cm_bundle_fingerprint ca in
      rbind (map_err RolloutDatabase (admin_list x machines_up (db_machines db) now latest_generation default_filter))
        (\<lambda>machines.
      let since = now - seconds (FAILURE_WINDOW_HOURS * 3600) in
      rbind (map_err RolloutAudit (search x audit_up (db_audit db)
         (default_query\<lparr> aq_event_prefix := Some ''bundle.'', aq_since := Some since, aq_limit := BUNDLE_EVENT_SCAN,
            aq_order := Descending \<rparr>))) (\<lambda>page.
      Inr \<lparr> rs_machines = machines, rs_latest_generation = latest_generation,
            rs_bundle_fingerprint = bundle_fingerprint, rs_configured = configured,
            rs_failures = foldl (note_failure x) [] (pg_entries page), rs_bundle_events = pg_entries page,
            rs_now = now \<rparr>)))"

section \<open>Classification\<close>

definition effective_failure :: "externals \<Rightarrow> rollout_service \<Rightarrow> machine_view \<Rightarrow> machine_failure option" where
  "effective_failure x s m =
     (case map_of (rs_failures s) (mv_machine_id m) of
        None \<Rightarrow> None
      | Some rf \<Rightarrow>
          (case Option.bind (mv_last_sync m) (parse_rfc3339 x) of
             Some last_sync \<Rightarrow> if rf_at rf \<le> last_sync then None else Some (rf_failure rf)
           | None \<Rightarrow> Some (rf_failure rf)))"

definition lagging_category :: "externals \<Rightarrow> rollout_service \<Rightarrow> machine_view \<Rightarrow> string" where
  "lagging_category x s m =
     (case mv_status m of
        Revoked \<Rightarrow> CAT_REVOKED
      | Disabled \<Rightarrow> CAT_DISABLED
      | _ \<Rightarrow>
          (let failed = map_option mfl_event_type (effective_failure x s m) in
           if failed = Some ''bundle.signature_failed'' then CAT_VERIFICATION
           else if failed = Some ''bundle.rollback'' then CAT_HELPER
           else case mv_liveness m of Offline \<Rightarrow> CAT_OFFLINE | Stale \<Rightarrow> CAT_STALE | Online \<Rightarrow> CAT_MISMATCH))"

definition categorize :: "externals \<Rightarrow> rollout_service \<Rightarrow> machine_view \<Rightarrow> string \<times> string" where
  "categorize x s m =
     (if mv_up_to_date m then (''current'', CAT_UP_TO_DATE)
      else
        let category = lagging_category x s m
        in (if is_stuck_category category then ''stuck'' else ''lagging'', category))"

definition machine_rollout_of :: "externals \<Rightarrow> rollout_service \<Rightarrow> machine_view \<Rightarrow> machine_rollout" where
  "machine_rollout_of x s m =
     (let (state, category) = categorize x s m in
      \<lparr> mro_machine_id = mv_machine_id m, mro_hostname = mv_hostname m, mro_status = status_as_str (mv_status m),
        mro_liveness = liveness_str (mv_liveness m), mro_synced_generation = mv_synced_generation m,
        mro_latest_generation = mv_latest_generation m, mro_current_generation = mv_current_generation m,
        mro_up_to_date = mv_up_to_date m, mro_generations_behind = generations_behind m, mro_state = state,
        mro_category = category, mro_last_sync = mv_last_sync m, mro_last_seen = mv_last_seen m,
        mro_last_failure = effective_failure x s m \<rparr>)"

definition rollout_machines :: "externals \<Rightarrow> rollout_service \<Rightarrow> machine_rollout list" where
  "rollout_machines x s = map (machine_rollout_of x s) (rs_machines s)"

definition machines_filtered :: "externals \<Rightarrow> rollout_service \<Rightarrow> string \<Rightarrow> int option \<Rightarrow> machine_rollout list" where
  "machines_filtered x s state generation =
     filter (\<lambda>m. case generation of Some g \<Rightarrow> mro_synced_generation m = Some g | None \<Rightarrow> True)
       (filter (\<lambda>m.
          if state = ''current'' then mro_state m = ''current''
          else if state = ''lagging'' then mro_state m \<noteq> ''current''
          else if state = ''stuck'' then mro_state m = ''stuck''
          else True) (rollout_machines x s))"

section \<open>Counts\<close>

definition active_machines :: "rollout_service \<Rightarrow> machine_view list" where
  "active_machines s = filter (\<lambda>m. mv_status m = Active) (rs_machines s)"

definition completed_count :: "rollout_service \<Rightarrow> int" where
  "completed_count s = int (length (filter mv_up_to_date (active_machines s)))"

definition remaining_count :: "rollout_service \<Rightarrow> int" where
  "remaining_count s = int (length (active_machines s)) - completed_count s"

definition breakdown_step :: "externals \<Rightarrow> rollout_service \<Rightarrow> rollout_breakdown \<Rightarrow> machine_view \<Rightarrow> rollout_breakdown" where
  "breakdown_step x s b m =
     (if mv_up_to_date m then b\<lparr> rb_healthy := rb_healthy b + 1 \<rparr>
      else if effective_failure x s m \<noteq> None then b\<lparr> rb_failed := rb_failed b + 1 \<rparr>
      else
        case mv_liveness m of
          Offline \<Rightarrow> b\<lparr> rb_offline := rb_offline b + 1 \<rparr>
        | Stale \<Rightarrow> b\<lparr> rb_stale := rb_stale b + 1 \<rparr>
        | Online \<Rightarrow> b\<lparr> rb_pending := rb_pending b + 1 \<rparr>)"

definition breakdown :: "externals \<Rightarrow> rollout_service \<Rightarrow> rollout_breakdown" where
  "breakdown x s =
     foldl (breakdown_step x s) \<lparr> rb_healthy = 0, rb_stale = 0, rb_offline = 0, rb_failed = 0, rb_pending = 0 \<rparr>
       (active_machines s)"

definition population :: "rollout_service \<Rightarrow> (int \<times> int) list" where
  "population s =
     foldl (\<lambda>counts m. case mv_synced_generation m of Some g \<Rightarrow> count_entry g counts | None \<Rightarrow> counts) [] (rs_machines s)"

definition rollout_generations :: "rollout_service \<Rightarrow> generation_detail list" where
  "rollout_generations s =
     map (\<lambda>(generation, machines).
        \<lparr> gd_generation = generation, gd_machines = machines,
          gd_percentage = percentage machines (int (length (rs_machines s))),
          gd_is_latest = (Some generation = rs_latest_generation s) \<rparr>) (population s)"

definition applies_last_hour :: "rollout_service \<Rightarrow> int" where
  "applies_last_hour s =
     (let cutoff = rs_now s - seconds ETA_WINDOW_SECONDS in
      int (length (filter (\<lambda>e. case (rs_latest_generation s, meta_i64 (ae_metadata e) ''generation'') of
             (Some latest, Some g) \<Rightarrow> g = latest | _ \<Rightarrow> True)
        (filter (\<lambda>e. ae_recorded_at e \<ge> cutoff)
          (filter (\<lambda>e. ae_event_type e = ''bundle.applied'') (rs_bundle_events s))))))"

definition eta :: "externals \<Rightarrow> rollout_service \<Rightarrow> rollout_eta" where
  "eta x s =
     (let remaining = remaining_count s;
          applies = applies_last_hour s;
          per_hour = f64 (of_int applies);
          complete = (remaining \<le> 0);
          secs = \<lceil>f64 (f64 (f64 (of_int remaining) / per_hour) * of_int ETA_WINDOW_SECONDS)\<rceil>;
          estimate = \<not> (complete \<or> per_hour \<le> 0)
      in \<lparr> re_complete = complete, re_remaining = max remaining 0, re_applies_last_hour = applies, re_per_hour = per_hour,
           re_eta_seconds = (if estimate then Some secs else None),
           re_estimated_completion = (if estimate then Some (to_rfc3339_secs x (rs_now s + seconds secs)) else None) \<rparr>)"

definition events_of_type :: "rollout_service \<Rightarrow> string \<Rightarrow> nat" where
  "events_of_type s t = length (filter (\<lambda>e. ae_event_type e = t) (rs_bundle_events s))"

text \<open>The em dash, in UTF-8.\<close>

definition em_dash :: string where "em_dash = [CHR 0xE2, CHR 0x80, CHR 0x94]"

definition health :: "rollout_service \<Rightarrow> rollout_health" where
  "health s =
     (let active = active_machines s;
          active_count = int (length active);
          completed = int (length (filter mv_up_to_date active));
          remaining = active_count - completed;
          pct = percentage completed active_count;
          signature_failures = events_of_type s ''bundle.signature_failed'';
          rollbacks = events_of_type s ''bundle.rollback'';
          lagging = filter (\<lambda>m. \<not> mv_up_to_date m) active;
          reachable_lagging = length (filter (\<lambda>m. mv_liveness m \<in> {Online, Stale}) lagging);
          hours = show_int FAILURE_WINDOW_HOURS @ ''h'' in
      if signature_failures > 0 then
        \<lparr> rh_status = HEALTH_FAILED, rh_score = f64_as_u8 (f64 (pct * (1 / 2))),
          rh_reasons = [show_nat signature_failures @ '' bundle signature verification failure(s) in the last '' @ hours
            @ '' '' @ em_dash @ '' agents rejected an untrusted bundle''] \<rparr>
      else if active_count = 0 then
        \<lparr> rh_status = HEALTH_HEALTHY, rh_score = 100, rh_reasons = [''no active machines enrolled''] \<rparr>
      else if remaining = 0 then
        \<lparr> rh_status = HEALTH_HEALTHY, rh_score = 100,
          rh_reasons = [''all '' @ show_int active_count @ '' active machine(s) are on the latest generation''] \<rparr>
      else if reachable_lagging = 0 then
        \<lparr> rh_status = HEALTH_BLOCKED, rh_score = f64_as_u8 pct,
          rh_reasons = [show_int remaining @ '' machine(s) behind and none are reachable (offline); ''
            @ ''rollout cannot progress without intervention''] \<rparr>
      else
        \<lparr> rh_status = HEALTH_DEGRADED, rh_score = f64_as_u8 pct,
          rh_reasons = (show_int completed @ ''/'' @ show_int active_count
              @ '' active machine(s) on the latest generation ('' @ show_int remaining @ '' behind)'')
            # (if rollbacks > 0 then [show_nat rollbacks @ '' bundle rollback(s) (apply/reload failures) in the last '' @ hours]
               else []) \<rparr>)"

definition liveness_count :: "rollout_service \<Rightarrow> liveness_status \<Rightarrow> int" where
  "liveness_count s l = int (length (filter (\<lambda>m. mv_liveness m = l) (rs_machines s)))"

definition rollout_status_of :: "externals \<Rightarrow> rollout_service \<Rightarrow> rollout_status" where
  "rollout_status_of x s =
     (let active_count = int (length (active_machines s)); completed = completed_count s in
      \<lparr> rst_configured = rs_configured s, rst_latest_generation = rs_latest_generation s,
        rst_bundle_fingerprint = rs_bundle_fingerprint s, rst_total_machines = int (length (rs_machines s)),
        rst_active_machines = active_count, rst_completed = completed, rst_remaining = active_count - completed,
        rst_never_synced = int (length (filter (\<lambda>m. mv_synced_generation m = None) (rs_machines s))),
        rst_percentage = percentage completed active_count, rst_online = liveness_count s Online,
        rst_stale = liveness_count s Stale, rst_offline = liveness_count s Offline, rst_breakdown = breakdown x s,
        rst_generations = rollout_generations s, rst_eta = eta x s, rst_health = health s \<rparr>)"

section \<open>Explanations\<close>

fun push_bucket :: "string \<Rightarrow> string \<Rightarrow> (string \<times> string list) list \<Rightarrow> (string \<times> string list) list" where
  "push_bucket k v [] = [(k, [v])]"
| "push_bucket k v ((k', vs) # bs) = (if k = k' then (k', vs @ [v]) # bs else (k', vs) # push_bucket k v bs)"

definition bucket_step ::
  "externals \<Rightarrow> rollout_service \<Rightarrow> (string \<times> string list) list \<Rightarrow> machine_view \<Rightarrow> (string \<times> string list) list" where
  "bucket_step x s buckets m =
     (if mv_up_to_date m then buckets else push_bucket (snd (categorize x s m)) (mv_hostname m) buckets)"

definition explain_order :: "string list" where
  "explain_order = [CAT_VERIFICATION, CAT_HELPER, CAT_OFFLINE, CAT_STALE, CAT_DISABLED, CAT_REVOKED, CAT_MISMATCH]"

definition explain_category_of :: "(string \<times> string list) list \<Rightarrow> string \<Rightarrow> explain_category list" where
  "explain_category_of buckets cat =
     (case map_of buckets cat of
        None \<Rightarrow> []
      | Some hosts \<Rightarrow>
          if hosts = [] then []
          else [\<lparr> xc_category = cat, xc_count = int (length hosts), xc_description = category_description cat,
              xc_recommendation = category_recommendation cat, xc_machines = take EXPLAIN_SAMPLE (sort hosts) \<rparr>])"

definition explain :: "externals \<Rightarrow> rollout_service \<Rightarrow> rollout_explanation" where
  "explain x s =
     (let remaining = remaining_count s; buckets = foldl (bucket_step x s) [] (rs_machines s) in
      \<lparr> rx_latest_generation = rs_latest_generation s, rx_complete = (remaining \<le> 0), rx_remaining = max remaining 0,
        rx_categories = concat (map (explain_category_of buckets) explain_order) \<rparr>)"

definition stuck_machine_of :: "externals \<Rightarrow> rollout_service \<Rightarrow> machine_view \<Rightarrow> stuck_machine option" where
  "stuck_machine_of x s m =
     (let (state, category) = categorize x s m in
      if state \<noteq> ''stuck'' then None
      else Some \<lparr> sm_machine_id = mv_machine_id m, sm_hostname = mv_hostname m, sm_category = category,
         sm_generations_behind = generations_behind m, sm_liveness = liveness_str (mv_liveness m),
         sm_last_sync = mv_last_sync m, sm_last_seen = mv_last_seen m, sm_last_failure = effective_failure x s m,
         sm_recommendation = category_recommendation category \<rparr>)"

definition stuck :: "externals \<Rightarrow> rollout_service \<Rightarrow> stuck_report" where
  "stuck x s =
     (let found = sort_key (\<lambda>m. (- sm_generations_behind m, sm_hostname m))
        (List.map_filter (stuck_machine_of x s) (rs_machines s))
      in \<lparr> sr_count = length found, sr_stuck = found \<rparr>)"

section \<open>History\<close>

definition timeline_event_of :: "externals \<Rightarrow> audit_entry \<Rightarrow> timeline_event" where
  "timeline_event_of x e =
     \<lparr> te_position = ae_chain_position e, te_at = to_rfc3339_secs x (ae_recorded_at e), te_event_type = ae_event_type e,
       te_outcome = outcome_of (ae_event_type e), te_machine_id = event_machine_id e,
       te_generation = meta_i64 (ae_metadata e) ''generation'', te_reason = meta_string (ae_metadata e) ''reason'' \<rparr>"

definition timeline ::
  "externals \<Rightarrow> bool \<Rightarrow> audit_log \<Rightarrow> int \<Rightarrow> (rollout_error, rollout_timeline) result" where
  "timeline x up rows limit =
     (let limit = max 1 (min TIMELINE_MAX_LIMIT limit) in
      rbind (map_err RolloutAudit (search x up rows
         (default_query\<lparr> aq_event_prefix := Some ''bundle.'', aq_limit := limit, aq_order := Descending \<rparr>))) (\<lambda>page.
      let events = map (timeline_event_of x) (pg_entries page)
      in Inr \<lparr> rt_count = length events, rt_events = events \<rparr>))"

record apply_agg =
  ag_first :: instant
  ag_last :: instant
  ag_total :: int

definition agg_step :: "(int \<times> apply_agg) list \<Rightarrow> audit_entry \<Rightarrow> (int \<times> apply_agg) list" where
  "agg_step applies e =
     (case meta_i64 (ae_metadata e) ''generation'' of
        None \<Rightarrow> applies
      | Some gen \<Rightarrow>
          btree_insert gen (case map_of applies gen of
             Some a \<Rightarrow> \<lparr> ag_first = min (ag_first a) (ae_recorded_at e), ag_last = max (ag_last a) (ae_recorded_at e),
                 ag_total = ag_total a + 1 \<rparr>
           | None \<Rightarrow> \<lparr> ag_first = ae_recorded_at e, ag_last = ae_recorded_at e, ag_total = 1 \<rparr>) applies)"

definition union_generations :: "(int \<times> int) list \<Rightarrow> (int \<times> apply_agg) list \<Rightarrow> int list" where
  "union_generations pop applies =
     sort (foldl (\<lambda>gens g. if g \<in> set gens then gens else gens @ [g]) (map fst pop) (map fst applies))"

definition history :: "externals \<Rightarrow> bool \<Rightarrow> audit_log \<Rightarrow> rollout_service \<Rightarrow> (rollout_error, rollout_history) result" where
  "history x up rows s =
     (let pop = population s in
      rbind (map_err RolloutAudit (search x up rows
         (default_query\<lparr> aq_event_type := Some ''bundle.applied'', aq_limit := HISTORY_EVENT_SCAN, aq_order := Ascending \<rparr>)))
        (\<lambda>page.
      let applies = foldl agg_step [] (pg_entries page) in
      Inr \<lparr> rhi_latest_generation = rs_latest_generation s,
        rhi_generations = map (\<lambda>g. let agg = map_of applies g in
          \<lparr> gh_generation = g, gh_is_latest = (Some g = rs_latest_generation s),
            gh_machines_on_generation = (case map_of pop g of Some n \<Rightarrow> n | None \<Rightarrow> 0),
            gh_first_applied_at = map_option (\<lambda>a. to_rfc3339_secs x (ag_first a)) agg,
            gh_last_applied_at = map_option (\<lambda>a. to_rfc3339_secs x (ag_last a)) agg,
            gh_total_applies = (case agg of Some a \<Rightarrow> ag_total a | None \<Rightarrow> 0) \<rparr>) (union_generations pop applies) \<rparr>))"

section \<open>Endpoints\<close>

datatype rollout_io = RoDenied | RoMachines | RoEvents | RoScan

definition rollout_load ::
  "externals \<Rightarrow> (rollout_io \<Rightarrow> bool) \<Rightarrow> server_env \<Rightarrow> ca_reads option \<Rightarrow> bundle_service option \<Rightarrow> http_call \<Rightarrow> string
     \<Rightarrow> (database, rollout_service) handler" where
  "rollout_load x io env ca bundle call action =
     hbind (authorize_ops_admin x (io RoDenied) env call action) (\<lambda>_.
     hbind (hread (\<lambda>db. db)) (\<lambda>db.
     hlift (map_err api_from_rollout
       (load_rollout x (io RoMachines) (io RoEvents) db ca (bundle \<noteq> None) (se_clock env 0)))))"

definition rollout_status_handler where
  "rollout_status_handler x io env ca bundle call =
     hbind (rollout_load x io env ca bundle call ''rollout.status'') (\<lambda>svc. hreturn (rollout_status_of x svc))"

definition rollout_generations_handler where
  "rollout_generations_handler x io env ca bundle call =
     hbind (rollout_load x io env ca bundle call ''rollout.generations'') (\<lambda>svc.
     let status = rollout_status_of x svc in
     hreturn \<lparr> gr_latest_generation = rst_latest_generation status, gr_generations = rst_generations status \<rparr>)"

definition rollout_selector :: "externals \<Rightarrow> string option \<Rightarrow> (api_error, string) result" where
  "rollout_selector x state =
     (let selector = unicode_lowercase x
        (case Option.bind (map_option trim state) non_blank of Some s \<Rightarrow> s | None \<Rightarrow> ''all'') in
      if selector \<in> {''all'', ''current'', ''lagging'', ''stuck''} then Inr selector
      else Inl (BadRequest (''unknown state '' @ quoted selector @ '' (want all|current|lagging|stuck)'')))"

definition rollout_machines_handler where
  "rollout_machines_handler x io env ca bundle call state generation =
     hbind (rollout_load x io env ca bundle call ''rollout.machines'') (\<lambda>svc.
     hbind (hlift (rollout_selector x state)) (\<lambda>selector.
     let machines = machines_filtered x svc selector generation in
     hreturn \<lparr> msr_count = length machines, msr_machines = machines \<rparr>))"

definition rollout_stuck_handler where
  "rollout_stuck_handler x io env ca bundle call =
     hbind (rollout_load x io env ca bundle call ''rollout.stuck'') (\<lambda>svc. hreturn (stuck x svc))"

definition rollout_health_handler where
  "rollout_health_handler x io env ca bundle call =
     hbind (rollout_load x io env ca bundle call ''rollout.health'') (\<lambda>svc. hreturn (health svc))"

definition rollout_explain_handler where
  "rollout_explain_handler x io env ca bundle call =
     hbind (rollout_load x io env ca bundle call ''rollout.explain'') (\<lambda>svc. hreturn (explain x svc))"

definition rollout_timeline_handler where
  "rollout_timeline_handler x io env ca bundle call limit =
     hbind (rollout_load x io env ca bundle call ''rollout.timeline'') (\<lambda>svc.
     let limit = (case limit of Some l \<Rightarrow> l | None \<Rightarrow> TIMELINE_DEFAULT_LIMIT) in
     hbind (hread db_audit) (\<lambda>log. hlift (map_err api_from_rollout (timeline x (io RoScan) log limit))))"

definition rollout_history_handler where
  "rollout_history_handler x io env ca bundle call =
     hbind (rollout_load x io env ca bundle call ''rollout.history'') (\<lambda>svc.
     hbind (hread db_audit) (\<lambda>log. hlift (map_err api_from_rollout (history x (io RoScan) log svc))))"

section \<open>Every machine is counted once\<close>

definition breakdown_total :: "rollout_breakdown \<Rightarrow> int" where
  "breakdown_total b = rb_healthy b + rb_stale b + rb_offline b + rb_failed b + rb_pending b"

lemma breakdown_fold:
  shows "breakdown_total (foldl (breakdown_step x s) b ms) = breakdown_total b + int (length ms)"
    and "rb_healthy (foldl (breakdown_step x s) b ms) = rb_healthy b + int (length (filter mv_up_to_date ms))"
proof -
  have "breakdown_total (breakdown_step x s b m) = breakdown_total b + 1" for b m
    by (simp add: breakdown_step_def breakdown_total_def split: liveness_status.split)
  then show "breakdown_total (foldl (breakdown_step x s) b ms) = breakdown_total b + int (length ms)"
    by (induction ms arbitrary: b) simp_all
  have "rb_healthy (breakdown_step x s b m) = rb_healthy b + (if mv_up_to_date m then 1 else 0)" for b m
    by (simp add: breakdown_step_def split: liveness_status.split)
  then show "rb_healthy (foldl (breakdown_step x s) b ms) = rb_healthy b + int (length (filter mv_up_to_date ms))"
    by (induction ms arbitrary: b) simp_all
qed

lemma sum_btree_insert:
  fixes f :: "'v \<Rightarrow> 'n :: ab_group_add"
  assumes "sorted_wrt (<) (map fst m)"
  shows "sum_list (map (\<lambda>p. f (snd p)) (btree_insert k v m)) =
    sum_list (map (\<lambda>p. f (snd p)) m) - (case map_of m k of Some n \<Rightarrow> f n | None \<Rightarrow> 0) + f v"
  using assms
proof (induction k v m rule: btree_insert.induct)
  case (2 k v k' v' ps)
  have "map_of ps k = None" if "k < k'"
    using 2(2) that by (force simp: map_of_eq_None_iff)
  with 2 show ?case by (auto split: option.splits)
qed simp

lemma count_entry_sum:
  assumes "sorted_wrt (<) (map fst m)"
  shows "sum_list (map snd (count_entry k m)) = sum_list (map snd m) + 1" "sorted_wrt (<) (map fst (count_entry k m))"
  using sum_btree_insert [OF assms, of "\<lambda>n. n"] assms
  by (auto simp: count_entry_def sorted_keys_btree_insert split: option.splits)

lemma population_sum:
  "sum_list (map snd (population s)) =
     int (length (filter (\<lambda>m. mv_synced_generation m \<noteq> None) (rs_machines s)))"
  "sorted_wrt (<) (map fst (population s))"
proof -
  let ?f = "\<lambda>counts m. case mv_synced_generation m of Some g \<Rightarrow> count_entry g counts | None \<Rightarrow> counts"
  have "sum_list (map snd (foldl ?f c ms)) = sum_list (map snd c) + int (length (filter (\<lambda>m. mv_synced_generation m \<noteq> None) ms))
      \<and> sorted_wrt (<) (map fst (foldl ?f c ms))" if "sorted_wrt (<) (map fst c)" for c ms
    using that
  proof (induction ms arbitrary: c)
    case (Cons m ms)
    then show ?case by (cases "mv_synced_generation m") (simp_all add: count_entry_sum)
  qed simp
  from this [of "[]" "rs_machines s"]
  show "sum_list (map snd (population s)) =
     int (length (filter (\<lambda>m. mv_synced_generation m \<noteq> None) (rs_machines s)))"
    "sorted_wrt (<) (map fst (population s))" by (simp_all add: population_def)
qed

lemma filter_split: "length (filter P xs) + length (filter (\<lambda>a. \<not> P a) xs) = length xs"
  by (induction xs) auto

text \<open>
  C33. The headline numbers of a rollout agree: the five groups of the breakdown add up to the active machines and its first one is the number of
  completed machines, the liveness counts add up to all machines, and so do the populations of the generations
  together with the machines that never synced; the estimate and the verdict use the same remainder.
\<close>

theorem rollout_status_consistent:
  fixes x :: externals and s :: rollout_service
  defines "r \<equiv> rollout_status_of x s"
  shows "rb_healthy (rst_breakdown r) = rst_completed r
    \<and> rb_stale (rst_breakdown r) + rb_offline (rst_breakdown r) + rb_failed (rst_breakdown r)
        + rb_pending (rst_breakdown r) = rst_remaining r
    \<and> rst_completed r + rst_remaining r = rst_active_machines r
    \<and> rst_online r + rst_stale r + rst_offline r = rst_total_machines r
    \<and> sum_list (map gd_machines (rst_generations r)) + rst_never_synced r = rst_total_machines r
    \<and> sorted_wrt (<) (map gd_generation (rst_generations r))
    \<and> re_remaining (rst_eta r) = rst_remaining r
    \<and> (rh_status (rst_health r) = HEALTH_HEALTHY \<longleftrightarrow>
         rst_remaining r = 0 \<and> events_of_type s ''bundle.signature_failed'' = 0)"
proof -
  note b = breakdown_fold [where x = x and s = s and ms = "active_machines s"
      and b = "\<lparr> rb_healthy = 0, rb_stale = 0, rb_offline = 0, rb_failed = 0, rb_pending = 0 \<rparr>", folded breakdown_def]
  have live: "liveness_count s Online + liveness_count s Stale + liveness_count s Offline = int (length (rs_machines s))"
  proof -
    have "length (filter (\<lambda>m. mv_liveness m = Online) ms) + length (filter (\<lambda>m. mv_liveness m = Stale) ms)
        + length (filter (\<lambda>m. mv_liveness m = Offline) ms) = length ms" for ms
    proof (induction ms)
      case (Cons m ms)
      then show ?case by (cases "mv_liveness m") simp_all
    qed simp
    then show ?thesis by (simp add: liveness_count_def flip: of_nat_add)
  qed
  have pop: "sum_list (map gd_machines (rollout_generations s))
      + int (length (filter (\<lambda>m. mv_synced_generation m = None) (rs_machines s))) = int (length (rs_machines s))"
    using filter_split [of "\<lambda>m. mv_synced_generation m \<noteq> None" "rs_machines s"] population_sum(1) [of s]
    by (simp add: rollout_generations_def case_prod_unfold comp_def)
  have srt: "map gd_generation (rollout_generations s) = map fst (population s)"
    by (simp add: rollout_generations_def case_prod_unfold)
  have le: "completed_count s \<le> int (length (active_machines s))" by (simp add: completed_count_def)
  have z: "active_machines s = [] \<longrightarrow> completed_count s = 0" by (simp add: completed_count_def)
  have h: "rh_status (health s) = HEALTH_HEALTHY \<longleftrightarrow>
      int (length (active_machines s)) - completed_count s = 0 \<and> events_of_type s ''bundle.signature_failed'' = 0"
    using z by (auto simp: health_def Let_def completed_count_def HEALTH_HEALTHY_def HEALTH_FAILED_def HEALTH_BLOCKED_def
        HEALTH_DEGRADED_def)
  show ?thesis
    using b [unfolded breakdown_total_def] live pop le h population_sum(2) [of s]
    by (simp add: r_def rollout_status_of_def Let_def completed_count_def eta_def remaining_count_def srt)
qed

section \<open>Explanations account for the lagging machines\<close>

definition bucket_of :: "(string \<times> string list) list \<Rightarrow> string \<Rightarrow> string list" where
  "bucket_of bs k = (case map_of bs k of Some vs \<Rightarrow> vs | None \<Rightarrow> [])"

lemma bucket_of_push: "bucket_of (push_bucket k v bs) j = bucket_of bs j @ (if j = k then [v] else [])"
  by (induction k v bs rule: push_bucket.induct) (auto simp: bucket_of_def)

definition behind_as :: "externals \<Rightarrow> rollout_service \<Rightarrow> string \<Rightarrow> machine_view list" where
  "behind_as x s cat = filter (\<lambda>m. \<not> mv_up_to_date m \<and> lagging_category x s m = cat) (rs_machines s)"

lemma buckets_exact: "bucket_of (foldl (bucket_step x s) [] (rs_machines s)) cat = map mv_hostname (behind_as x s cat)"
proof -
  have "bucket_of (foldl (bucket_step x s) bs ms) cat =
      bucket_of bs cat @ map mv_hostname (filter (\<lambda>m. \<not> mv_up_to_date m \<and> lagging_category x s m = cat) ms)" for bs ms
    by (induction ms arbitrary: bs) (auto simp: bucket_step_def categorize_def Let_def bucket_of_push)
  from this [of "[]"] show ?thesis by (simp add: bucket_of_def behind_as_def)
qed

lemma lagging_category_listed: "lagging_category x s m \<in> set explain_order"
  by (simp add: lagging_category_def explain_order_def Let_def split: machine_status.split liveness_status.split)

lemma distinct_explain_order: "distinct explain_order"
  by (simp add: explain_order_def category_names)

lemma explain_category_of_bucket:
  "explain_category_of bs cat =
     (if bucket_of bs cat = [] then []
      else [\<lparr> xc_category = cat, xc_count = int (length (bucket_of bs cat)), xc_description = category_description cat,
          xc_recommendation = category_recommendation cat, xc_machines = take EXPLAIN_SAMPLE (sort (bucket_of bs cat)) \<rparr>])"
  by (auto simp: explain_category_of_def bucket_of_def split: option.split)

lemma sum_classes:
  assumes "distinct ks" "\<And>m. m \<in> set ms \<Longrightarrow> P m \<Longrightarrow> f m \<in> set ks"
  shows "sum_list (map (\<lambda>k. length (filter (\<lambda>m. P m \<and> f m = k) ms)) ks) = length (filter P ms)"
  using assms(2)
proof (induction ms)
  case (Cons m ms)
  have "sum_list (map (\<lambda>k. if f m = k then Suc 0 else 0) ks) = (if f m \<in> set ks then 1 else 0)"
    using assms(1) by (induction ks) auto
  moreover have "sum_list (map (\<lambda>k. length (filter (\<lambda>m. P m \<and> f m = k) (m # ms))) ks) =
      (if P m then sum_list (map (\<lambda>k. if f m = k then Suc 0 else 0) ks) else 0)
      + sum_list (map (\<lambda>k. length (filter (\<lambda>m. P m \<and> f m = k) ms)) ks)"
    by (induction ks) auto
  ultimately show ?case using Cons by auto
qed simp

text \<open>
  C34. The explanation of an incomplete rollout accounts for every machine that is behind exactly once: each listed category is nonempty, counts the
  machines classified under it and names at most ten of their hostnames, and the counts add up to all machines that are behind, whatever their status;
  the rollout is called complete exactly when every active machine is up to date.
\<close>

theorem explain_accounts:
  "sum_list (map xc_count (rx_categories (explain x s))) =
     int (length (filter (\<lambda>m. \<not> mv_up_to_date m) (rs_machines s)))
   \<and> (\<forall>c \<in> set (rx_categories (explain x s)).
        behind_as x s (xc_category c) \<noteq> [] \<and> xc_count c = int (length (behind_as x s (xc_category c)))
        \<and> length (xc_machines c) \<le> 10 \<and> set (xc_machines c) \<subseteq> mv_hostname ` set (behind_as x s (xc_category c)))
   \<and> (rx_complete (explain x s) \<longleftrightarrow> (\<forall>m \<in> set (rs_machines s). mv_status m = Active \<longrightarrow> mv_up_to_date m))"
proof (intro conjI)
  let ?bs = "foldl (bucket_step x s) [] (rs_machines s)"
  have "sum_list (map xc_count (concat (map (explain_category_of ?bs) cats))) =
      int (sum_list (map (\<lambda>c. length (behind_as x s c)) cats))" for cats
    by (induction cats) (simp_all add: explain_category_of_bucket buckets_exact)
  moreover have "sum_list (map (\<lambda>c. length (behind_as x s c)) explain_order) =
      length (filter (\<lambda>m. \<not> mv_up_to_date m) (rs_machines s))"
    unfolding behind_as_def by (rule sum_classes [OF distinct_explain_order lagging_category_listed])
  ultimately show "sum_list (map xc_count (rx_categories (explain x s))) =
     int (length (filter (\<lambda>m. \<not> mv_up_to_date m) (rs_machines s)))"
    by (simp add: explain_def Let_def)
  show "\<forall>c \<in> set (rx_categories (explain x s)).
        behind_as x s (xc_category c) \<noteq> [] \<and> xc_count c = int (length (behind_as x s (xc_category c)))
        \<and> length (xc_machines c) \<le> 10 \<and> set (xc_machines c) \<subseteq> mv_hostname ` set (behind_as x s (xc_category c))"
    by (auto simp: explain_def Let_def explain_category_of_bucket buckets_exact EXPLAIN_SAMPLE_def
        dest!: in_set_takeD split: if_splits)
  have "rx_complete (explain x s) \<longleftrightarrow> length (filter mv_up_to_date (active_machines s)) = length (active_machines s)"
    by (auto simp: explain_def Let_def remaining_count_def completed_count_def intro: le_antisym length_filter_le)
  also have "\<dots> \<longleftrightarrow> (\<forall>m \<in> set (active_machines s). mv_up_to_date m)"
    by (metis filter_True filter_id_conv length_filter_less less_irrefl)
  also have "\<dots> \<longleftrightarrow> (\<forall>m \<in> set (rs_machines s). mv_status m = Active \<longrightarrow> mv_up_to_date m)"
    by (auto simp: active_machines_def)
  finally show "rx_complete (explain x s) \<longleftrightarrow> (\<forall>m \<in> set (rs_machines s). mv_status m = Active \<longrightarrow> mv_up_to_date m)" .
qed

section \<open>Two surprises\<close>

definition demo_view :: machine_view where
  "demo_view = \<lparr> mv_machine_id = ''srv_1'', mv_hostname = ''web-01'', mv_status = Disabled, mv_liveness = Offline,
     mv_os = ''linux'', mv_arch = ''x86_64'', mv_agent_version = ''0.1.0'', mv_fingerprint = ''unknown'', mv_ip = None,
     mv_current_generation = 1, mv_synced_generation = Some 1, mv_latest_generation = Some 2, mv_up_to_date = False,
     mv_bundle_fingerprint = None, mv_last_seen = None, mv_last_sync = None, mv_enrolled_at = [] \<rparr>"

definition demo_snapshot :: rollout_service where
  "demo_snapshot = \<lparr> rs_machines = [demo_view], rs_latest_generation = Some 2, rs_bundle_fingerprint = None,
     rs_configured = True, rs_failures = [], rs_bundle_events = [], rs_now = 0 \<rparr>"

text \<open>
  A complete rollout can still be explained: a disabled machine that is behind is listed although only active machines
  decide whether the rollout is complete.
\<close>

lemma complete_with_categories:
  "rx_complete (explain ref_externals demo_snapshot)
   \<and> map xc_category (rx_categories (explain ref_externals demo_snapshot)) = [CAT_DISABLED]"
  by (simp add: explain_def Let_def demo_snapshot_def demo_view_def remaining_count_def completed_count_def
      active_machines_def bucket_step_def categorize_def lagging_category_def explain_order_def explain_category_of_def
      category_names)

text \<open>
  The time of the last sync reaches the report without its fraction of a second, the time of a failure with
  it: a failure before a successful sync in the same second is still reported against the machine.
\<close>

lemma recovered_failure_reported:
  assumes x: "rfc3339_contract x" and t: "rfc3339_range synced_at" "trunc_secs synced_at < failed_at" "failed_at \<le> synced_at"
    and v: "mv_last_sync m = Some (to_rfc3339_secs x synced_at)"
    and f: "map_of (rs_failures s) (mv_machine_id m) = Some rf" "rf_at rf = failed_at"
  shows "effective_failure x s m = Some (rf_failure rf)"
  using rfc3339_contractD(3) [OF x t(1)] t(2) v f
  by (simp add: effective_failure_def parse_rfc3339_def)

section \<open>Reading changes nothing\<close>

lemma rollout_load_inv:
  assumes "json_contract x" "\<And>n. rfc3339_range (se_clock env n)"
  shows "steps_within (inv_step x) (rollout_load x io env ca bundle call action)"
  unfolding rollout_load_def by (intro handler_inv assms)

lemma rollout_handlers_inv:
  assumes "json_contract x" "\<And>n. rfc3339_range (se_clock env n)"
  shows "steps_within (inv_step x) (rollout_status_handler x io env ca bundle call)"
    and "steps_within (inv_step x) (rollout_generations_handler x io env ca bundle call)"
    and "steps_within (inv_step x) (rollout_machines_handler x io env ca bundle call state generation)"
    and "steps_within (inv_step x) (rollout_stuck_handler x io env ca bundle call)"
    and "steps_within (inv_step x) (rollout_health_handler x io env ca bundle call)"
    and "steps_within (inv_step x) (rollout_explain_handler x io env ca bundle call)"
    and "steps_within (inv_step x) (rollout_timeline_handler x io env ca bundle call limit)"
    and "steps_within (inv_step x) (rollout_history_handler x io env ca bundle call)"
  unfolding rollout_status_handler_def rollout_generations_handler_def rollout_machines_handler_def
    rollout_stuck_handler_def rollout_health_handler_def rollout_explain_handler_def rollout_timeline_handler_def
    rollout_history_handler_def Let_def
  by (intro handler_inv rollout_load_inv assms)+

section \<open>Witnesses\<close>

theorem explain_accounts_witness:
  "sum_list (map xc_count (rx_categories (explain ref_externals demo_snapshot))) = 1
   \<and> list_all (\<lambda>c. length (xc_machines c) \<le> 10) (rx_categories (explain ref_externals demo_snapshot))"
  using explain_accounts [of ref_externals demo_snapshot] by (simp add: demo_snapshot_def demo_view_def list_all_iff)

end
