(* ===== verification/AdminCa.thy ===== *)
theory AdminCa
  imports Rollout
begin

text \<open>
  The CA administration endpoints (\<^verbatim>\<open>src/routes/admin.rs\<close>).  The \<^verbatim>\<open>CaManager\<close> and the projections of its records
  (\<^verbatim>\<open>ca/manager.rs\<close>, \<^verbatim>\<open>ca/admin.rs\<close>) are not part of the sources: they are parameters, the manager as a record of
  operations on a state of its own.  The lemmas show when a key can be removed and what is recorded about it.
\<close>

section \<open>The manager\<close>

record 'm ca_manager =
  mg_generate :: "string \<Rightarrow> string \<Rightarrow> 'm \<Rightarrow> (ca_error, ca_record) result \<times> 'm"
  mg_import :: "string \<Rightarrow> string \<Rightarrow> string \<Rightarrow> 'm \<Rightarrow> (ca_error, ca_record) result \<times> 'm"
  mg_rename :: "string \<Rightarrow> string \<Rightarrow> 'm \<Rightarrow> (ca_error, ca_record) result \<times> 'm"
  mg_enable :: "string \<Rightarrow> 'm \<Rightarrow> (ca_error, ca_record) result \<times> 'm"
  mg_disable :: "string \<Rightarrow> 'm \<Rightarrow> (ca_error, ca_record) result \<times> 'm"
  mg_delete :: "string \<Rightarrow> 'm \<Rightarrow> (ca_error, ca_record) result \<times> 'm"
  mg_retire :: "string \<Rightarrow> 'm \<Rightarrow> (ca_error, ca_record) result \<times> 'm"
  mg_list :: "'m \<Rightarrow> ca_record list"
  mg_active_keys :: "'m \<Rightarrow> ca_record list"
  mg_reads :: "'m \<Rightarrow> ca_reads"

text \<open>
  What the handlers read of the application: the manager and the bundle signing key when they are configured, the lifetime of a
  bundle, the projections \<^verbatim>\<open>CaView::from_record\<close> and \<^verbatim>\<open>CaStats::from_records\<close>, and the compact form of a time.
\<close>

record ('m, 'v, 't) ca_app =
  app_manager :: "'m ca_manager option"
  app_signer :: "byte list option"
  app_ttl :: u32
  app_view :: "ca_record \<Rightarrow> u32 \<Rightarrow> instant \<Rightarrow> 'v"
  app_stats :: "ca_record list \<Rightarrow> u32 \<Rightarrow> string \<Rightarrow> 't"
  app_compact_time :: "instant \<Rightarrow> string"

definition bundle_service_of :: "('m, 'v, 't) ca_app \<Rightarrow> 'm \<Rightarrow> bundle_service option" where
  "bundle_service_of app m =
     Option.bind (app_manager app) (\<lambda>ca.
     Option.bind (app_signer app) (\<lambda>signer.
     Some (new_bundle_service (mg_reads ca m) signer (app_ttl app))))"

section \<open>Requests and replies\<close>

record generate_ca_request =
  gcr_key_id :: string
  gcr_passphrase :: string

record import_ca_request =
  imr_key_id :: string
  imr_private_key :: string
  imr_passphrase :: string

record patch_ca_request =
  pcr_enabled :: "bool option"
  pcr_key_id :: "string option"

record rotate_ca_request =
  rcr_key_id :: "string option"
  rcr_passphrase :: string

record 'v rotation_result =
  rr_new_ca :: 'v
  rr_previous_active :: "'v list"
  rr_rollout :: fleet_status
  rr_warnings :: "string list"

record delete_ca_response =
  dcr_deleted :: bool
  dcr_id :: string
  dcr_key_id :: string

section \<open>Helpers\<close>

definition require_ca :: "('m, 'v, 't) ca_app \<Rightarrow> (api_error, 'm ca_manager) result" where
  "require_ca app = ok_or not_configured (app_manager app)"

definition ca_view :: "('m, 'v, 't) ca_app \<Rightarrow> instant \<Rightarrow> 'm \<Rightarrow> ca_record \<Rightarrow> 'v" where
  "ca_view app now m record' =
     (let generation = (case app_manager app of Some ca \<Rightarrow> cm_generation (mg_reads ca m) | None \<Rightarrow> 0)
      in app_view app record' generation now)"

definition ca_not_found :: "string \<Rightarrow> api_error" where
  "ca_not_found i = NotFound (''ca '' @ quoted i @ '' was not found'')"

definition json_opt_num :: "int option \<Rightarrow> json" where
  "json_opt_num v = (case v of Some n \<Rightarrow> JNum n | None \<Rightarrow> JNull)"

definition audit_retirement ::
  "externals \<Rightarrow> bool \<Rightarrow> server_env \<Rightarrow> instant \<Rightarrow> identity \<Rightarrow> http_call \<Rightarrow> string \<Rightarrow> retirement_assessment \<Rightarrow> bool
     \<Rightarrow> (database, unit) handler" where
  "audit_retirement x up env stamp i call action assessment forced =
     append_event x up stamp
       (with_metadata (json_object
          [(''id'', JStr (ra_id assessment)), (''affected_machines'', JNum (ra_affected_machines assessment)),
           (''oldest_generation'', json_opt_num (ra_oldest_generation assessment)),
           (''latest_generation'', json_opt_num (ra_latest_generation assessment)), (''forced'', JBool forced),
           (''reason'', JStr (ra_reason assessment)), (''provider'', JStr (id_provider i)),
           (''subject'', JStr (id_subject i)), (''client'', client_context x env i call)])
        (with_subject (ra_key_id assessment) (new_entry action (id_username i))))"

definition audit_ca ::
  "externals \<Rightarrow> bool \<Rightarrow> server_env \<Rightarrow> instant \<Rightarrow> identity \<Rightarrow> http_call \<Rightarrow> string \<Rightarrow> ca_record \<Rightarrow> (string \<times> json) list
     \<Rightarrow> (database, unit) handler" where
  "audit_ca x up env stamp i call action r extra =
     append_event x up stamp
       (with_metadata (json_object
          ([(''id'', JStr (ca_id r)), (''fingerprint'', JStr (ca_fingerprint r)), (''enabled'', JBool (ca_enabled r)),
            (''provider'', JStr (id_provider i)), (''subject'', JStr (id_subject i)),
            (''client'', client_context x env i call)] @ extra))
        (with_subject (ca_record.ca_key_id r) (new_entry action (id_username i))))"

section \<open>Endpoints that create keys\<close>

datatype ca_io = CaDenied | CaAudited | CaAuditedToo | CaMachines

definition generate ::
  "externals \<Rightarrow> (ca_io \<Rightarrow> bool) \<Rightarrow> server_env \<Rightarrow> ('m, 'v, 't) ca_app \<Rightarrow> http_call \<Rightarrow> generate_ca_request
     \<Rightarrow> (database \<times> 'm, 'v) handler" where
  "generate x io env app call request =
     hbind (on_db (authorize_ca_admin x (io CaDenied) env call ''ca.generate'')) (\<lambda>i.
     hbind (hlift (require_ca app)) (\<lambda>ca.
     hbind (on_ca (mg_generate ca (trim (gcr_key_id request)) (gcr_passphrase request))) (\<lambda>r.
     hbind (on_db (audit_ca x (io CaAudited) env (se_clock env 2) i call ''ca.generated'' r [])) (\<lambda>_.
     hread (\<lambda>s. ca_view app (se_clock env 3) (snd s) r)))))"

definition import_ca ::
  "externals \<Rightarrow> (ca_io \<Rightarrow> bool) \<Rightarrow> server_env \<Rightarrow> ('m, 'v, 't) ca_app \<Rightarrow> http_call \<Rightarrow> import_ca_request
     \<Rightarrow> (database \<times> 'm, 'v) handler" where
  "import_ca x io env app call request =
     hbind (on_db (authorize_ca_admin x (io CaDenied) env call ''ca.import'')) (\<lambda>i.
     hbind (hlift (require_ca app)) (\<lambda>ca.
     hbind (on_ca (mg_import ca (trim (imr_key_id request)) (imr_private_key request) (imr_passphrase request))) (\<lambda>r.
     hbind (on_db (audit_ca x (io CaAudited) env (se_clock env 2) i call ''ca.imported'' r [])) (\<lambda>_.
     hread (\<lambda>s. ca_view app (se_clock env 3) (snd s) r)))))"

section \<open>Endpoints that read\<close>

definition list_cas ::
  "externals \<Rightarrow> (ca_io \<Rightarrow> bool) \<Rightarrow> server_env \<Rightarrow> ('m, 'v, 't) ca_app \<Rightarrow> http_call \<Rightarrow> (database \<times> 'm, 'v list) handler" where
  "list_cas x io env app call =
     hbind (on_db (authorize_ca_admin x (io CaDenied) env call ''ca.list'')) (\<lambda>_.
     hbind (hlift (require_ca app)) (\<lambda>ca.
     hread (\<lambda>s. map (\<lambda>r. app_view app r (cm_generation (mg_reads ca (snd s))) (se_clock env 0)) (mg_list ca (snd s)))))"

definition stats ::
  "externals \<Rightarrow> (ca_io \<Rightarrow> bool) \<Rightarrow> server_env \<Rightarrow> ('m, 'v, 't) ca_app \<Rightarrow> http_call \<Rightarrow> (database \<times> 'm, 't) handler" where
  "stats x io env app call =
     hbind (on_db (authorize_ca_admin x (io CaDenied) env call ''ca.stats'')) (\<lambda>_.
     hbind (hlift (require_ca app)) (\<lambda>ca.
     hread (\<lambda>s. app_stats app (mg_list ca (snd s)) (cm_generation (mg_reads ca (snd s)))
        (cm_bundle_fingerprint (mg_reads ca (snd s))))))"

definition public_bundle_handler ::
  "externals \<Rightarrow> (ca_io \<Rightarrow> bool) \<Rightarrow> server_env \<Rightarrow> ('m, 'v, 't) ca_app \<Rightarrow> http_call \<Rightarrow> (database \<times> 'm, public_bundle) handler" where
  "public_bundle_handler x io env app call =
     hbind (on_db (authorize_ca_admin x (io CaDenied) env call ''ca.bundle'')) (\<lambda>_.
     hbind (hlift (require_ca app)) (\<lambda>ca.
     hread (\<lambda>s. cm_public_bundle (mg_reads ca (snd s)))))"

definition lookup_ca :: "'m ca_manager \<Rightarrow> string \<Rightarrow> (database \<times> 'm, ca_record) handler" where
  "lookup_ca ca i = hbind (hread (\<lambda>s. cm_get (mg_reads ca (snd s)) i)) (\<lambda>r. hlift (ok_or (ca_not_found i) r))"

definition get_one ::
  "externals \<Rightarrow> (ca_io \<Rightarrow> bool) \<Rightarrow> server_env \<Rightarrow> ('m, 'v, 't) ca_app \<Rightarrow> http_call \<Rightarrow> string \<Rightarrow> (database \<times> 'm, 'v) handler" where
  "get_one x io env app call i =
     hbind (on_db (authorize_ca_admin x (io CaDenied) env call ''ca.get'')) (\<lambda>_.
     hbind (hlift (require_ca app)) (\<lambda>ca.
     hbind (lookup_ca ca i) (\<lambda>r.
     hread (\<lambda>s. ca_view app (se_clock env 0) (snd s) r))))"

definition export_public_key ::
  "externals \<Rightarrow> (ca_io \<Rightarrow> bool) \<Rightarrow> server_env \<Rightarrow> ('m, 'v, 't) ca_app \<Rightarrow> http_call \<Rightarrow> string
     \<Rightarrow> (database \<times> 'm, ca_public_key_entry) handler" where
  "export_public_key x io env app call i =
     hbind (on_db (authorize_ca_admin x (io CaDenied) env call ''ca.export'')) (\<lambda>_.
     hbind (hlift (require_ca app)) (\<lambda>ca.
     hbind (lookup_ca ca i) (\<lambda>r.
     hreturn \<lparr> cpe_key_id = ca_record.ca_key_id r, cpe_public_key = ca_record.ca_public_key r,
        cpe_fingerprint = ca_fingerprint r \<rparr>)))"

definition bundle_status ::
  "externals \<Rightarrow> (ca_io \<Rightarrow> bool) \<Rightarrow> server_env \<Rightarrow> ('m, 'v, 't) ca_app \<Rightarrow> http_call \<Rightarrow> (database \<times> 'm, fleet_status) handler" where
  "bundle_status x io env app call =
     hbind (on_db (authorize_ca_admin x (io CaDenied) env call ''bundle.status'')) (\<lambda>_.
     hbind (hread (\<lambda>s. s)) (\<lambda>(db, m).
     hbind (hlift (require_bundle (bundle_service_of app m))) (\<lambda>service.
     hlift (map_err (\<lambda>e. Internal (sqlx_display e))
       (fleet_status_of x (io CaMachines) service (db_machines db) (se_clock env 0))))))"

definition retirement ::
  "externals \<Rightarrow> (ca_io \<Rightarrow> bool) \<Rightarrow> server_env \<Rightarrow> ('m, 'v, 't) ca_app \<Rightarrow> http_call \<Rightarrow> string
     \<Rightarrow> (database \<times> 'm, retirement_assessment) handler" where
  "retirement x io env app call i =
     hbind (on_db (authorize_ca_admin x (io CaDenied) env call ''ca.retirement'')) (\<lambda>_.
     hbind (hread (\<lambda>s. s)) (\<lambda>(db, m).
     hbind (hlift (require_bundle (bundle_service_of app m))) (\<lambda>service.
     hlift (map_err api_from_ca (assess_retirement (io CaMachines) service (db_machines db) i)))))"

section \<open>Endpoints that change keys\<close>

definition rename_step ::
  "externals \<Rightarrow> (ca_io \<Rightarrow> bool) \<Rightarrow> server_env \<Rightarrow> identity \<Rightarrow> http_call \<Rightarrow> 'm ca_manager \<Rightarrow> string \<Rightarrow> string option \<Rightarrow> ca_record
     \<Rightarrow> (database \<times> 'm, ca_record) handler" where
  "rename_step x io env i call ca ident new_key_id r =
     (case map_option trim new_key_id of
        None \<Rightarrow> hreturn r
      | Some k \<Rightarrow>
          if k \<noteq> ca_record.ca_key_id r then
            hbind (on_ca (mg_rename ca ident k)) (\<lambda>r.
            hbind (on_db (audit_ca x (io CaAudited) env (se_clock env 2) i call ''ca.renamed'' r [])) (\<lambda>_.
            hreturn r))
          else hreturn r)"

definition switch_step ::
  "externals \<Rightarrow> (ca_io \<Rightarrow> bool) \<Rightarrow> server_env \<Rightarrow> instant \<Rightarrow> identity \<Rightarrow> http_call \<Rightarrow> 'm ca_manager \<Rightarrow> string \<Rightarrow> bool \<Rightarrow> ca_record
     \<Rightarrow> (database \<times> 'm, ca_record) handler" where
  "switch_step x io env stamp i call ca ident enabled before =
     hbind (on_ca (if enabled then mg_enable ca ident else mg_disable ca ident)) (\<lambda>r.
     if enabled \<noteq> ca_enabled before then
       hbind (on_db (audit_ca x (io CaAuditedToo) env stamp i call
          (if enabled then ''ca.enabled'' else ''ca.disabled'') r [])) (\<lambda>_.
       hreturn r)
     else hreturn r)"

definition patch ::
  "externals \<Rightarrow> (ca_io \<Rightarrow> bool) \<Rightarrow> server_env \<Rightarrow> ('m, 'v, 't) ca_app \<Rightarrow> http_call \<Rightarrow> string \<Rightarrow> patch_ca_request
     \<Rightarrow> (database \<times> 'm, 'v) handler" where
  "patch x io env app call ident request =
     hbind (on_db (authorize_ca_admin x (io CaDenied) env call ''ca.patch'')) (\<lambda>i.
     hbind (hlift (require_ca app)) (\<lambda>ca.
     hbind (hlift (ensure (\<not> (pcr_enabled request = None \<and> pcr_key_id request = None))
        (BadRequest (''patch must set at least one of '' @ quoted ''enabled'' @ '' or '' @ quoted ''key_id'')))) (\<lambda>_.
     hbind (lookup_ca ca ident) (\<lambda>r.
     hbind (rename_step x io env i call ca ident (pcr_key_id request) r) (\<lambda>r.
     hbind (case pcr_enabled request of
              None \<Rightarrow> hreturn r
            | Some enabled \<Rightarrow> switch_step x io env (se_clock env 4) i call ca ident enabled r) (\<lambda>r.
     hread (\<lambda>s. ca_view app (se_clock env 5) (snd s) r)))))))"

definition enable_ca ::
  "externals \<Rightarrow> (ca_io \<Rightarrow> bool) \<Rightarrow> server_env \<Rightarrow> ('m, 'v, 't) ca_app \<Rightarrow> http_call \<Rightarrow> string \<Rightarrow> (database \<times> 'm, 'v) handler" where
  "enable_ca x io env app call ident =
     hbind (on_db (authorize_ca_admin x (io CaDenied) env call ''ca.enable'')) (\<lambda>i.
     hbind (hlift (require_ca app)) (\<lambda>ca.
     hbind (lookup_ca ca ident) (\<lambda>before.
     hbind (switch_step x io env (se_clock env 2) i call ca ident True before) (\<lambda>r.
     hread (\<lambda>s. ca_view app (se_clock env 3) (snd s) r)))))"

definition disable_ca ::
  "externals \<Rightarrow> (ca_io \<Rightarrow> bool) \<Rightarrow> server_env \<Rightarrow> ('m, 'v, 't) ca_app \<Rightarrow> http_call \<Rightarrow> string \<Rightarrow> (database \<times> 'm, 'v) handler" where
  "disable_ca x io env app call ident =
     hbind (on_db (authorize_ca_admin x (io CaDenied) env call ''ca.disable'')) (\<lambda>i.
     hbind (hlift (require_ca app)) (\<lambda>ca.
     hbind (lookup_ca ca ident) (\<lambda>before.
     hbind (switch_step x io env (se_clock env 2) i call ca ident False before) (\<lambda>r.
     hread (\<lambda>s. ca_view app (se_clock env 3) (snd s) r)))))"

text \<open>A float with one decimal place, as \<^verbatim>\<open>{:.1}\<close> prints it.\<close>

definition show_one_decimal :: "rat \<Rightarrow> string" where
  "show_one_decimal q =
     (let n = round_half_even (q * 10) in show_int (n div 10) @ ''.'' @ show_int (n mod 10))"

definition rotation_warnings :: "string \<Rightarrow> u32 \<Rightarrow> bool \<Rightarrow> fleet_status \<Rightarrow> string list" where
  "rotation_warnings key_id generation had_previous rollout =
     (let on_latest = sum_list (map gn_count
            (filter (\<lambda>g. gn_generation g = uint (fs_latest_generation rollout)) (fs_generations rollout)));
          behind = max (fs_total_machines rollout - on_latest) 0
      in [''New CA '' @ quoted key_id @ '' is active at generation '' @ show_nat (unat generation)
            @ ''. The previous CA(s) remain active during rollout.'']
         @ (if had_previous then
              [''Do NOT disable or retire the previous CA(s) until the fleet reaches 100% on the new generation ''
                 @ em_dash @ '' hosts that have not yet synced would lose trust.'']
            else [])
         @ (if behind > 0 then
              [show_int behind @ '' machine(s) are not yet on generation '' @ show_nat (unat generation) @ '' (''
                 @ show_one_decimal (fs_rollout_percentage rollout) @ ''% converged).'']
            else []))"

definition rotate ::
  "externals \<Rightarrow> (ca_io \<Rightarrow> bool) \<Rightarrow> server_env \<Rightarrow> ('m, 'v, 't) ca_app \<Rightarrow> http_call \<Rightarrow> rotate_ca_request
     \<Rightarrow> (database \<times> 'm, 'v rotation_result) handler" where
  "rotate x io env app call request =
     hbind (on_db (authorize_ca_admin x (io CaDenied) env call ''ca.rotate'')) (\<lambda>i.
     hbind (hlift (require_ca app)) (\<lambda>ca.
     hbind (hread snd) (\<lambda>m.
     hbind (hlift (require_bundle (bundle_service_of app m))) (\<lambda>_.
     let now = se_clock env 0;
         previous_active = mg_active_keys ca m;
         key_id = (case Option.bind (map_option trim (rcr_key_id request)) non_blank of
            Some k \<Rightarrow> k | None \<Rightarrow> ''mayfly-ca-'' @ app_compact_time app now) in
     hbind (on_ca (mg_generate ca key_id (rcr_passphrase request))) (\<lambda>new_record.
     hbind (hread (\<lambda>s. cm_generation (mg_reads ca (snd s)))) (\<lambda>generation.
     hbind (on_db (audit_ca x (io CaAudited) env (se_clock env 2) i call ''ca.rotated'' new_record
        [(''generation'', JNum (uint generation)),
         (''previous_active'', JArr (map (\<lambda>r. JStr (ca_record.ca_key_id r)) previous_active))])) (\<lambda>_.
     hbind (hread (\<lambda>s. s)) (\<lambda>(db, m').
     hbind (hlift (require_bundle (bundle_service_of app m'))) (\<lambda>service.
     hbind (hlift (map_err (\<lambda>e. Internal (sqlx_display e))
        (fleet_status_of x (io CaMachines) service (db_machines db) now))) (\<lambda>rollout.
     hreturn \<lparr> rr_new_ca = ca_view app (se_clock env 3) m' new_record,
        rr_previous_active = map (\<lambda>r. app_view app r generation now) previous_active, rr_rollout = rollout,
        rr_warnings = rotation_warnings (ca_record.ca_key_id new_record) generation (previous_active \<noteq> []) rollout \<rparr>))))))))))"

section \<open>Endpoints that remove keys\<close>

text \<open>
  The guard that removal and retirement share: a refusal is recorded under one name and a forced removal under
  another, before anything is removed.
\<close>

definition removal_guard ::
  "externals \<Rightarrow> (ca_io \<Rightarrow> bool) \<Rightarrow> server_env \<Rightarrow> identity \<Rightarrow> http_call \<Rightarrow> string \<Rightarrow> string \<Rightarrow> string \<Rightarrow> bool \<Rightarrow> retirement_assessment
     \<Rightarrow> (database, unit) handler" where
  "removal_guard x io env i call denied forced refusal force assessment =
     (if \<not> ra_safe assessment \<and> \<not> force then
        hbind (audit_retirement x (io CaAudited) env (se_clock env 2) i call denied assessment False) (\<lambda>_.
        hlift (Inl (Conflict (refusal @ ra_reason assessment))))
      else if \<not> ra_safe assessment then
        audit_retirement x (io CaAudited) env (se_clock env 2) i call forced assessment True
      else hreturn ())"

definition delete_ca ::
  "externals \<Rightarrow> (ca_io \<Rightarrow> bool) \<Rightarrow> server_env \<Rightarrow> ('m, 'v, 't) ca_app \<Rightarrow> http_call \<Rightarrow> string \<Rightarrow> bool
     \<Rightarrow> (database \<times> 'm, delete_ca_response) handler" where
  "delete_ca x io env app call ident force =
     hbind (on_db (authorize_ca_admin x (io CaDenied) env call ''ca.delete'')) (\<lambda>i.
     hbind (hlift (require_ca app)) (\<lambda>ca.
     hbind (hread snd) (\<lambda>m.
     hbind (hlift (require_bundle (bundle_service_of app m))) (\<lambda>service.
     hbind (lookup_ca ca ident) (\<lambda>r.
     hbind (hlift (ensure (\<not> ca_enabled r) (Conflict (''cannot delete ca '' @ quoted (ca_record.ca_key_id r)
        @ '': it is still active (disable it first)'')))) (\<lambda>_.
     hbind (hread (\<lambda>s. db_machines (fst s))) (\<lambda>rows.
     hbind (hlift (map_err api_from_ca (assess_retirement (io CaMachines) service rows ident))) (\<lambda>assessment.
     hbind (on_db (removal_guard x io env i call ''ca.delete.denied'' ''ca.delete.forced'' ''delete unsafe: '' force assessment)) (\<lambda>_.
     hbind (on_ca (mg_delete ca ident)) (\<lambda>deleted.
     hbind (on_db (audit_ca x (io CaAuditedToo) env (se_clock env 4) i call ''ca.deleted'' deleted
        [(''forced'', JBool (\<not> ra_safe assessment))])) (\<lambda>_.
     hreturn \<lparr> dcr_deleted = True, dcr_id = ca_id deleted, dcr_key_id = ca_record.ca_key_id deleted \<rparr>)))))))))))"

definition retire ::
  "externals \<Rightarrow> (ca_io \<Rightarrow> bool) \<Rightarrow> server_env \<Rightarrow> ('m, 'v, 't) ca_app \<Rightarrow> http_call \<Rightarrow> string \<Rightarrow> bool option
     \<Rightarrow> (database \<times> 'm, 'v) handler" where
  "retire x io env app call ident request =
     hbind (on_db (authorize_ca_admin x (io CaDenied) env call ''ca.retire'')) (\<lambda>i.
     hbind (hlift (require_ca app)) (\<lambda>ca.
     hbind (hread snd) (\<lambda>m.
     hbind (hlift (require_bundle (bundle_service_of app m))) (\<lambda>service.
     let force = (case request of Some f \<Rightarrow> f | None \<Rightarrow> False) in
     hbind (hread (\<lambda>s. db_machines (fst s))) (\<lambda>rows.
     hbind (hlift (map_err api_from_ca (assess_retirement (io CaMachines) service rows ident))) (\<lambda>assessment.
     hbind (on_db (removal_guard x io env i call ''ca.retirement.denied'' ''ca.retirement.forced'' ''retirement unsafe: '' force assessment)) (\<lambda>_.
     hbind (on_ca (mg_retire ca ident)) (\<lambda>r.
     hbind (on_db (audit_ca x (io CaAuditedToo) env (se_clock env 4) i call ''ca.retired'' r
        [(''forced'', JBool (\<not> ra_safe assessment)), (''affected_machines'', JNum (ra_affected_machines assessment))])) (\<lambda>_.
     hread (\<lambda>s. ca_view app (se_clock env 5) (snd s) r))))))))))"

section \<open>When a key is removed\<close>

lemma hbindE:
  assumes "hbind m f s = (res, s')"
  obtains (stop) e where "m s = (Inl e, s')" "res = Inl e"
  | (go) a s1 where "m s = (Inr a, s1)" "f a s1 = (res, s')"
proof (cases "m s")
  case (Pair r s1)
  with assms that show thesis by (cases r) (auto simp: hbind_def)
qed

lemma audit_retirement_outcome:
  assumes "audit_retirement x up env stamp i call action a forced db = (res, db')"
  shows "db_machines db' = db_machines db \<and> db_tokens db' = db_tokens db
    \<and> (if res = Inr () then logged db db' action (id_username i) (ra_key_id a) else db' = db)"
  using assms unfolding audit_retirement_def by (rule logged_event)

lemma audit_ca_outcome:
  assumes "audit_ca x up env stamp i call action r extra db = (res, db')"
  shows "db_machines db' = db_machines db \<and> db_tokens db' = db_tokens db
    \<and> (if res = Inr () then logged db db' action (id_username i) (ca_record.ca_key_id r) else db' = db)"
  using assms unfolding audit_ca_def by (rule logged_event)

lemma removal_guard_outcome:
  assumes "removal_guard x io env i call denied forced refusal force a db = (res, db')"
  shows "db_machines db' = db_machines db \<and> db_tokens db' = db_tokens db
    \<and> (res = Inr () \<longrightarrow> (if ra_safe a then db' = db else force \<and> logged db db' forced (id_username i) (ra_key_id a)))
    \<and> (\<not> ra_safe a \<longrightarrow> \<not> force \<longrightarrow> (\<exists>e. res = Inl e)
        \<and> (db' = db \<or> res = Inl (Conflict (refusal @ ra_reason a)) \<and> logged db db' denied (id_username i) (ra_key_id a)))"
proof (cases "ra_safe a")
  case True
  with assms show ?thesis by (simp add: removal_guard_def handler_simps)
next
  case unsafe: False
  show ?thesis
  proof (cases force)
    case True
    with unsafe assms have r: "audit_retirement x (io CaAudited) env (se_clock env 2) i call forced a True db = (res, db')"
      by (simp add: removal_guard_def)
    from audit_retirement_outcome [OF r] True unsafe show ?thesis by (auto split: if_splits)
  next
    case False
    with unsafe assms have "hbind (audit_retirement x (io CaAudited) env (se_clock env 2) i call denied a False)
        (\<lambda>_. hlift (Inl (Conflict (refusal @ ra_reason a)))) db = (res, db')"
      by (simp add: removal_guard_def)
    then show ?thesis
    proof (cases rule: hbindE)
      case (stop e)
      with audit_retirement_outcome [OF stop(1)] unsafe False show ?thesis by simp
    next
      case (go u db1)
      with audit_retirement_outcome [OF go(1)] unsafe False show ?thesis by (simp add: handler_simps)
    qed
  qed
qed

text \<open>The caller of an endpoint is an authorized administrator.\<close>

definition caller :: "externals \<Rightarrow> server_env \<Rightarrow> http_call \<Rightarrow> identity \<Rightarrow> bool" where
  "caller x env call i \<longleftrightarrow>
     resolve_identity (se_registry env) (se_access env) None (hc_token call) = Inr i
     \<and> is_allowed (authorize x (se_access env) i)"

lemma ca_gate_step:
  assumes "on_db (authorize_ca_admin x up env call action) (db, m) = (Inr i, s)"
  shows "s = (db, m) \<and> caller x env call i"
  using assms ca_gate.gate_passed [of x up env call action db i "fst s"]
  by (cases s) (auto simp: on_db_iff caller_def)

lemma lookup_ca_iff [result_simps]:
  "lookup_ca ca i s = (r, s') \<longleftrightarrow> r = ok_or (ca_not_found i) (cm_get (mg_reads ca (snd s)) i) \<and> s' = s"
  by (auto simp: lookup_ca_def hbind_def hread_def hlift_def)

lemma bundle_service_ofD:
  "bundle_service_of app m = Some s \<Longrightarrow> app_manager app = Some ca \<Longrightarrow> bs_ca s = mg_reads ca m"
  by (auto simp: bundle_service_of_def new_bundle_service_def split: bind_splits)

text \<open>
  What a removal that reached the manager has established: the caller is an administrator, the key is one that no
  machine depends on or its removal was forced, and a forced removal is already in the audit log.
\<close>

definition removal_justified ::
  "externals \<Rightarrow> server_env \<Rightarrow> http_call \<Rightarrow> bundle_service \<Rightarrow> database \<Rightarrow> string \<Rightarrow> bool \<Rightarrow> string \<Rightarrow> database \<Rightarrow> bool" where
  "removal_justified x env call s db i force forced db1 \<longleftrightarrow>
     (\<exists>admin r. caller x env call admin \<and> cm_get (bs_ca s) i = Some r
        \<and> db_machines db1 = db_machines db \<and> db_tokens db1 = db_tokens db
        \<and> (if retirable s (db_machines db) i then db1 = db
           else force \<and> logged db db1 forced (id_username admin) (ca_record.ca_key_id r)))"

lemma removal_justifiedI:
  assumes "caller x env call admin" "assess_retirement up s (db_machines db) i = Inr a"
    "removal_guard x io env admin call denied forced refusal force a db = (Inr (), db1)"
  shows "removal_justified x env call s db i force forced db1"
  using assms(2)
proof (rule assessment_exact)
  fix r assume "cm_get (bs_ca s) i = Some r" "ra_key_id a = ca_record.ca_key_id r" "ra_safe a \<longleftrightarrow> retirable s (db_machines db) i"
  with removal_guard_outcome [OF assms(3)] assms(1) show ?thesis
    unfolding removal_justified_def by (intro exI [of _ admin] exI [of _ r]) (simp split: if_splits)
qed

lemma hbind_pure:
  "hbind (hlift q) f s = (case q of Inl e \<Rightarrow> (Inl e, s) | Inr a \<Rightarrow> f a s)" "hbind (hread g) f s = f (g s) s"
  "hbind (lookup_ca ca i) k t = (case cm_get (mg_reads ca (snd t)) i of None \<Rightarrow> (Inl (ca_not_found i), t) | Some r \<Rightarrow> k r t)"
  by (auto simp: hbind_def hlift_def hread_def lookup_ca_def split: option.split)

text \<open>The common end of removal and retirement: the guard, the manager, the record.\<close>

lemma removal_tail:
  assumes adm: "caller x env call admin" and a: "assess_retirement up s (db_machines db) i = Inr a"
    and run: "hbind (on_db (removal_guard x io env admin call denied forced refusal force a)) (\<lambda>_.
       hbind (on_ca remove) (\<lambda>gone.
       hbind (on_db (audit_ca x audited env stamp admin call event gone extra)) (\<lambda>_. reply gone)))
         (db, m) = (res, (db', m'))"
    and reply: "\<And>gone t r t'. reply gone t = (r, t') \<Longrightarrow> t' = t"
  shows "(m' = m \<and> (\<exists>e. res = Inl e)) \<or>
    (\<exists>db1 q. removal_justified x env call s db i force forced db1 \<and> remove m = (q, m')
       \<and> (\<forall>v. res = Inr v \<longrightarrow> (\<exists>gone. q = Inr gone \<and> reply gone (db', m') = (Inr v, (db', m'))
            \<and> logged db1 db' event (id_username admin) (ca_record.ca_key_id gone))))"
  using run
proof (cases rule: hbindE)
  case (stop e)
  then show ?thesis by (auto simp: on_db_iff)
next
  case guard: (go u s1)
  obtain db1 where s1: "s1 = (db1, m)" "removal_guard x io env admin call denied forced refusal force a db = (Inr (), db1)"
    using guard(1) by (cases s1) (auto simp: on_db_iff)
  note just = removal_justifiedI [OF adm a s1(2)]
  from guard(2) show ?thesis
  proof (cases rule: hbindE)
    case (stop e)
    then have "\<exists>q. remove m = (q, m')" using s1(1) by (auto simp: on_ca_iff)
    with just stop show ?thesis by auto
  next
    case removed: (go gone s2)
    obtain m2 where s2: "s2 = (db1, m2)" "remove m = (Inr gone, m2)"
      using removed(1) s1(1) by (cases s2) (auto simp: on_ca_iff result_simps)
    from removed(2) show ?thesis
    proof (cases rule: hbindE)
      case (stop e)
      then show ?thesis using just s2 by (auto simp: on_db_iff)
    next
      case (go v s3)
      then obtain db3 where s3: "s3 = (db3, m2)" "audit_ca x audited env stamp admin call event gone extra db1 = (Inr (), db3)"
        using s2(1) by (cases s3) (auto simp: on_db_iff)
      have fin: "(db', m') = s3" using reply [OF go(2)] .
      from audit_ca_outcome [OF s3(2)] have "logged db1 db' event (id_username admin) (ca_record.ca_key_id gone)"
        using fin s3(1) by simp
      with just s2(2) go(2) fin s3(1) show ?thesis by auto
    qed
  qed
qed

lemma delete_ca_manager:
  assumes d: "delete_ca x io env app call i force (db, m) = (res, (db', m'))"
  shows "(m' = m \<and> (\<exists>e. res = Inl e)) \<or>
    (\<exists>ca s r db1 q. app_manager app = Some ca \<and> bundle_service_of app m = Some s
      \<and> cm_get (mg_reads ca m) i = Some r \<and> \<not> ca_enabled r
      \<and> removal_justified x env call s db i force ''ca.delete.forced'' db1 \<and> mg_delete ca i m = (q, m')
      \<and> (\<forall>v. res = Inr v \<longrightarrow> (\<exists>gone admin. q = Inr gone \<and> dcr_id v = ca_id gone
           \<and> logged db1 db' ''ca.deleted'' admin (ca_record.ca_key_id gone))))"
  using d [unfolded delete_ca_def]
proof (cases rule: hbindE)
  case (stop e)
  then show ?thesis by (auto simp: on_db_iff)
next
  case (go admin s0)
  note adm = ca_gate_step [OF go(1)]
  note run = go(2) [unfolded conjunct1 [OF adm] hbind_pure require_ca_def require_bundle_def, simplified]
  show ?thesis
  proof (cases "app_manager app")
    case None
    with run show ?thesis by auto
  next
    case (Some ca)
    show ?thesis
    proof (cases "bundle_service_of app m")
      case None
      with run Some show ?thesis by auto
    next
      case svc: (Some s)
      show ?thesis
      proof (cases "cm_get (mg_reads ca m) i")
        case None
        with run Some svc show ?thesis by auto
      next
        case rec: (Some r)
        show ?thesis
        proof (cases "ca_enabled r"; cases "assess_retirement (io CaMachines) s (db_machines db) i")
          fix a assume False: "\<not> ca_enabled r" and a: "assess_retirement (io CaMachines) s (db_machines db) i = Inr a"
          from run Some svc rec False a
          have "hbind (on_db (removal_guard x io env admin call ''ca.delete.denied'' ''ca.delete.forced'' ''delete unsafe: '' force a)) (\<lambda>_.
              hbind (on_ca (mg_delete ca i)) (\<lambda>gone.
              hbind (on_db (audit_ca x (io CaAuditedToo) env (se_clock env 4) admin call ''ca.deleted'' gone
                [(''forced'', JBool (\<not> ra_safe a))])) (\<lambda>_.
              hreturn \<lparr> dcr_deleted = True, dcr_id = ca_id gone, dcr_key_id = ca_record.ca_key_id gone \<rparr>)))
                (db, m) = (res, (db', m'))" by simp
          from removal_tail [OF conjunct2 [OF adm] a this] Some svc rec False show ?thesis
            by (simp add: handler_simps) (metis delete_ca_response.select_convs(2))
        qed (use run Some svc rec in \<open>auto simp: ensure_def\<close>)
      qed
    qed
  qed
qed

lemma retire_manager:
  assumes d: "retire x io env app call i request (db, m) = (res, (db', m'))"
  shows "(m' = m \<and> (\<exists>e. res = Inl e)) \<or>
    (\<exists>ca s db1 q. app_manager app = Some ca \<and> bundle_service_of app m = Some s
      \<and> removal_justified x env call s db i (request = Some True) ''ca.retirement.forced'' db1 \<and> mg_retire ca i m = (q, m')
      \<and> (\<forall>v. res = Inr v \<longrightarrow> (\<exists>r admin. q = Inr r \<and> logged db1 db' ''ca.retired'' admin (ca_record.ca_key_id r))))"
  using d [unfolded retire_def]
proof (cases rule: hbindE)
  case (stop e)
  then show ?thesis by (auto simp: on_db_iff)
next
  case (go admin s0)
  note adm = ca_gate_step [OF go(1)]
  note run = go(2) [unfolded conjunct1 [OF adm] hbind_pure require_ca_def require_bundle_def Let_def, simplified]
  have f: "(case request of None \<Rightarrow> False | Some f \<Rightarrow> f) = (request = Some True)" by (auto split: option.split)
  show ?thesis
  proof (cases "app_manager app")
    case None
    with run show ?thesis by auto
  next
    case (Some ca)
    show ?thesis
    proof (cases "bundle_service_of app m")
      case None
      with run Some show ?thesis by auto
    next
      case svc: (Some s)
      show ?thesis
      proof (cases "assess_retirement (io CaMachines) s (db_machines db) i")
        case (Inl e)
        with run Some svc show ?thesis by auto
      next
        case (Inr a)
        from run [unfolded f] Some svc Inr
        have "hbind (on_db (removal_guard x io env admin call ''ca.retirement.denied'' ''ca.retirement.forced''
              ''retirement unsafe: '' (request = Some True) a)) (\<lambda>_.
            hbind (on_ca (mg_retire ca i)) (\<lambda>r.
            hbind (on_db (audit_ca x (io CaAuditedToo) env (se_clock env 4) admin call ''ca.retired'' r
              [(''forced'', JBool (\<not> ra_safe a)), (''affected_machines'', JNum (ra_affected_machines a))])) (\<lambda>_.
            hread (\<lambda>s. ca_view app (se_clock env 5) (snd s) r)))) (db, m) = (res, (db', m'))" by simp
        from removal_tail [OF conjunct2 [OF adm] Inr this] Some svc show ?thesis
          by (simp add: handler_simps) metis
      qed
    qed
  qed
qed

text \<open>
  C35. A CA key is deleted or retired only at the request of an authorized administrator, and only when it is disabled and every machine has acknowledged
  a bundle without it, or the request forces the removal and that decision is in the audit log first; deletion requires a disabled key even when forced.  Otherwise the
  manager is not touched.  A successful removal is recorded under its own event.
\<close>

theorem key_removal_guarded:
  shows "(delete_ca x io env app call i force (db, m) = (res, (db', m')) \<longrightarrow>
      (m' = m \<and> (\<exists>e. res = Inl e)) \<or>
      (\<exists>ca s r db1 q. app_manager app = Some ca \<and> bundle_service_of app m = Some s
        \<and> cm_get (mg_reads ca m) i = Some r \<and> \<not> ca_enabled r
        \<and> removal_justified x env call s db i force ''ca.delete.forced'' db1 \<and> mg_delete ca i m = (q, m')
        \<and> (\<forall>v. res = Inr v \<longrightarrow> (\<exists>gone admin. q = Inr gone \<and> dcr_id v = ca_id gone
             \<and> logged db1 db' ''ca.deleted'' admin (ca_record.ca_key_id gone)))))
    \<and> (retire x io env app call i request (db, m) = (ret, (db', m')) \<longrightarrow>
      (m' = m \<and> (\<exists>e. ret = Inl e)) \<or>
      (\<exists>ca s db1 q. app_manager app = Some ca \<and> bundle_service_of app m = Some s
        \<and> removal_justified x env call s db i (request = Some True) ''ca.retirement.forced'' db1 \<and> mg_retire ca i m = (q, m')
        \<and> (\<forall>v. ret = Inr v \<longrightarrow> (\<exists>r admin. q = Inr r \<and> logged db1 db' ''ca.retired'' admin (ca_record.ca_key_id r)))))"
  by (intro conjI impI delete_ca_manager retire_manager)

section \<open>The invariant of the database\<close>

definition inv_step_db :: "externals \<Rightarrow> database \<times> 'm \<Rightarrow> database \<times> 'm \<Rightarrow> bool" where
  "inv_step_db x s s' \<longleftrightarrow> inv_step x (fst s) (fst s')"

lemma inv_step_db_order: "reflp (inv_step_db x)" "transp (inv_step_db x)"
  by (auto simp: inv_step_db_def inv_step_def intro!: reflpI transpI)

lemma on_db_inv: "steps_within (inv_step x) h \<Longrightarrow> steps_within (inv_step_db x) (on_db h)"
  by (auto simp: steps_within_def on_db_def inv_step_db_def split: prod.splits) (metis snd_conv)

lemma on_ca_inv: "steps_within (inv_step_db x) (on_ca f)"
  by (auto simp: steps_within_def on_ca_def inv_step_db_def inv_step_def split: prod.splits)

lemma lookup_ca_inv: "steps_within (inv_step_db x) (lookup_ca ca i)"
  unfolding lookup_ca_def
  by (intro steps_within_hbind [OF inv_step_db_order(2)] steps_within_pure [OF inv_step_db_order(1)])

lemma audit_ca_inv:
  assumes "json_contract x" "rfc3339_range stamp" "\<forall>kv \<in> set extra. json_wf (snd kv)"
  shows "steps_within (inv_step x) (audit_ca x up env stamp i call action r extra)"
proof -
  have "json_wf (json_object
          ([(''id'', JStr (ca_id r)), (''fingerprint'', JStr (ca_fingerprint r)), (''enabled'', JBool (ca_enabled r)),
            (''provider'', JStr (id_provider i)), (''subject'', JStr (id_subject i)),
            (''client'', client_context x env i call)] @ extra))"
    by (rule json_wf_json_object) (use assms(3) in auto)
  then show ?thesis
    unfolding audit_ca_def
    by (intro append_event_inv assms) (simp add: with_metadata_def with_subject_def new_entry_def)
qed

lemma audit_retirement_inv:
  assumes "json_contract x" "rfc3339_range stamp"
  shows "steps_within (inv_step x) (audit_retirement x up env stamp i call action a forced)"
proof -
  have "json_wf (json_opt_num v)" for v by (simp add: json_opt_num_def split: option.split)
  then have "json_wf (json_object
          [(''id'', JStr (ra_id a)), (''affected_machines'', JNum (ra_affected_machines a)),
           (''oldest_generation'', json_opt_num (ra_oldest_generation a)),
           (''latest_generation'', json_opt_num (ra_latest_generation a)), (''forced'', JBool forced),
           (''reason'', JStr (ra_reason a)), (''provider'', JStr (id_provider i)),
           (''subject'', JStr (id_subject i)), (''client'', client_context x env i call)])"
    by (intro json_wf_json_object) simp
  then show ?thesis
    unfolding audit_retirement_def
    by (intro append_event_inv assms) (simp add: with_metadata_def with_subject_def new_entry_def)
qed

lemma removal_guard_inv:
  assumes "json_contract x" "\<And>n. rfc3339_range (se_clock env n)"
  shows "steps_within (inv_step x) (removal_guard x io env i call denied forced refusal force a)"
  unfolding removal_guard_def by (intro steps_within_if audit_retirement_inv handler_inv assms)

lemmas ca_handler_inv = steps_within_hbind [OF inv_step_db_order(2)] steps_within_pure [OF inv_step_db_order(1)]
  on_db_inv on_ca_inv lookup_ca_inv audit_ca_inv removal_guard_inv gate_inv steps_within_if

lemma ca_admin_inv:
  assumes "json_contract x" "\<And>n. rfc3339_range (se_clock env n)"
  shows "steps_within (inv_step_db x) (generate x io env app call gen)"
    and "steps_within (inv_step_db x) (import_ca x io env app call imp)"
    and "steps_within (inv_step_db x) (list_cas x io env app call)"
    and "steps_within (inv_step_db x) (stats x io env app call)"
    and "steps_within (inv_step_db x) (public_bundle_handler x io env app call)"
    and "steps_within (inv_step_db x) (get_one x io env app call i)"
    and "steps_within (inv_step_db x) (export_public_key x io env app call i)"
    and "steps_within (inv_step_db x) (delete_ca x io env app call i force)"
    and "steps_within (inv_step_db x) (retire x io env app call i request)"
  unfolding generate_def import_ca_def list_cas_def stats_def public_bundle_handler_def get_one_def export_public_key_def
    delete_ca_def retire_def Let_def
  by (intro ca_handler_inv assms; simp)+

lemma switch_step_inv:
  assumes "json_contract x" "rfc3339_range stamp"
  shows "steps_within (inv_step_db x) (switch_step x io env stamp i call ca ident enabled before)"
  unfolding switch_step_def by (intro ca_handler_inv assms; simp)

lemma rename_step_inv:
  assumes "json_contract x" "\<And>n. rfc3339_range (se_clock env n)"
  shows "steps_within (inv_step_db x) (rename_step x io env i call ca ident k r)"
  unfolding rename_step_def
  by (cases k; simp only: option.map option.case; intro ca_handler_inv assms; simp)

lemma steps_within_case_prod: "(\<And>a b. p = (a, b) \<Longrightarrow> steps_within R (f a b)) \<Longrightarrow> steps_within R (case p of (a, b) \<Rightarrow> f a b)"
  by (cases p) simp

lemma steps_within_case_option:
  "steps_within R n \<Longrightarrow> (\<And>a. steps_within R (f a)) \<Longrightarrow> steps_within R (case q of None \<Rightarrow> n | Some a \<Rightarrow> f a)"
  by (cases q) simp_all

lemma ca_switch_inv:
  assumes "json_contract x" "\<And>n. rfc3339_range (se_clock env n)"
  shows "steps_within (inv_step_db x) (patch x io env app call ident p)"
    and "steps_within (inv_step_db x) (enable_ca x io env app call ident)"
    and "steps_within (inv_step_db x) (disable_ca x io env app call ident)"
    and "steps_within (inv_step_db x) (bundle_status x io env app call)"
    and "steps_within (inv_step_db x) (retirement x io env app call ident)"
    and "steps_within (inv_step_db x) (rotate x io env app call rot)"
  unfolding patch_def enable_ca_def disable_ca_def bundle_status_def retirement_def rotate_def Let_def
  by (intro ca_handler_inv switch_step_inv rename_step_inv steps_within_case_prod steps_within_case_option assms; simp)+

section \<open>Witnesses\<close>

definition demo_manager :: "nat ca_manager" where
  "demo_manager =
     (let r = the (cm_get (bs_ca demo_bundle) ''old''); step = (\<lambda>m. (Inr r, m + 1)) in
      \<lparr> mg_generate = (\<lambda>_ _. step), mg_import = (\<lambda>_ _ _. step), mg_rename = (\<lambda>_ _. step), mg_enable = (\<lambda>_. step),
        mg_disable = (\<lambda>_. step), mg_delete = (\<lambda>_. step), mg_retire = (\<lambda>_. step), mg_list = (\<lambda>_. [r]),
        mg_active_keys = (\<lambda>_. []), mg_reads = (\<lambda>_. bs_ca demo_bundle) \<rparr>)"

definition demo_app :: "(nat, unit, unit) ca_app" where
  "demo_app = \<lparr> app_manager = Some demo_manager, app_signer = Some demo_seed, app_ttl = 3600, app_view = (\<lambda>_ _ _. ()),
     app_stats = (\<lambda>_ _ _. ()), app_compact_time = (\<lambda>_. []) \<rparr>"

lemma demo_app_service: "bundle_service_of demo_app m = Some demo_bundle"
  by (simp add: bundle_service_of_def demo_app_def demo_manager_def Let_def demo_bundle_def new_bundle_service_def)

lemma demo_app_manager: "app_manager demo_app = Some demo_manager"
  by (simp add: demo_app_def)

lemma demo_manager_reads: "mg_reads demo_manager m = bs_ca demo_bundle"
  by (simp add: demo_manager_def Let_def)

lemma demo_old:
  obtains r where "cm_get (bs_ca demo_bundle) ''old'' = Some r" "\<not> ca_enabled r"
  by (simp add: demo_bundle_def new_bundle_service_def)

lemma audit_succeeds:
  assumes "database_inv ref_externals db" "rfc3339_range stamp"
  shows "\<exists>db'. audit_retirement ref_externals True env stamp i call action a forced db = (Inr (), db') \<and> database_inv ref_externals db'"
    and "\<exists>db'. audit_ca ref_externals True env stamp i call action r [(''forced'', JBool b)] db = (Inr (), db')
      \<and> database_inv ref_externals db'"
proof -
  have keeps: "database_inv ref_externals (snd (h db))" if "steps_within (inv_step ref_externals) h" for h :: "(database, unit) handler"
    using that assms(1) by (simp add: steps_within_def inv_step_def)
  have ok: "\<exists>db'. append_event ref_externals True stamp e db = (Inr (), db')" if "json_wf (nae_metadata e)" for e
    using append_event_ok [OF ref_json_contract assms(1) that assms(2)] by blast
  have num: "json_wf (json_opt_num v)" for v by (simp add: json_opt_num_def split: option.split)
  have "\<exists>db'. audit_retirement ref_externals True env stamp i call action a forced db = (Inr (), db')"
    unfolding audit_retirement_def
    by (rule ok) (simp add: with_metadata_def del: json_wf.simps, rule json_wf_json_object, simp add: num)
  then show "\<exists>db'. audit_retirement ref_externals True env stamp i call action a forced db = (Inr (), db') \<and> database_inv ref_externals db'"
    using keeps [OF audit_retirement_inv [OF ref_json_contract assms(2)]] by (metis snd_conv)
  have "\<exists>db'. audit_ca ref_externals True env stamp i call action r [(''forced'', JBool b)] db = (Inr (), db')"
    unfolding audit_ca_def
    by (rule ok) (simp add: with_metadata_def del: json_wf.simps, rule json_wf_json_object, simp)
  then show "\<exists>db'. audit_ca ref_externals True env stamp i call action r [(''forced'', JBool b)] db = (Inr (), db')
      \<and> database_inv ref_externals db'"
    using keeps [OF audit_ca_inv [OF ref_json_contract assms(2), of "[(''forced'', JBool b)]"]] by simp (metis snd_conv)
qed

theorem key_removal_guarded_witness:
  "\<exists>res db'. delete_ca ref_externals (\<lambda>_. True) demo_env demo_app demo_call ''old'' True (demo_database, 0) = (res, (db', 1))
     \<and> (\<exists>db1 s. removal_justified ref_externals demo_env demo_call s demo_database ''old'' True ''ca.delete.forced'' db1)"
proof -
  obtain res db' m' where d: "delete_ca ref_externals (\<lambda>_. True) demo_env demo_app demo_call ''old'' True (demo_database, 0)
      = (res, (db', m'))" by (metis surj_pair)
  obtain ident where i: "resolve_identity (se_registry demo_env) (se_access demo_env) None (hc_token demo_call) = Inr ident"
    "is_allowed (authorize ref_externals (se_access demo_env) ident)" "id_username ident = ''ann''"
    by (rule demo_admin)
  then have a: "authorize ref_externals (se_access demo_env) ident = Allow"
    by (cases "authorize ref_externals (se_access demo_env) ident") auto
  obtain r where r: "cm_get (bs_ca demo_bundle) ''old'' = Some r" "\<not> ca_enabled r" by (rule demo_old)
  obtain asm where asm: "assess_retirement True demo_bundle (db_machines demo_database) ''old'' = Inr asm"
    using r by (simp add: assess_retirement_def Let_def)
  obtain db1 where db1: "removal_guard ref_externals (\<lambda>_. True) demo_env ident demo_call ''ca.delete.denied'' ''ca.delete.forced''
      ''delete unsafe: '' True asm demo_database = (Inr (), db1)"
    using audit_succeeds(1) [OF demo_database_inv demo_clocked [of 2], where env = demo_env and i = ident and call = demo_call
        and action = "''ca.delete.forced''" and a = asm and forced = True]
    by (cases "ra_safe asm") (auto simp: removal_guard_def hreturn_def)
  have gate: "on_db (authorize_ca_admin ref_externals True demo_env demo_call ''ca.delete'') (demo_database, 0 :: nat)
      = (Inr ident, (demo_database, 0))"
    using i(1) a by (simp add: authorize_ca_admin_def hbind_pure on_db_def hreturn_def)
  have guard: "on_db (removal_guard ref_externals (\<lambda>_. True) demo_env ident demo_call ''ca.delete.denied'' ''ca.delete.forced''
      ''delete unsafe: '' True asm) (demo_database, 0 :: nat) = (Inr (), (db1, 0))"
    using db1 by (simp add: on_db_def)
  have del: "on_ca (mg_delete demo_manager ''old'') (db1, 0) = (Inr r, (db1, 1))"
    using r(1) by (simp add: on_ca_def demo_manager_def Let_def)
  have "delete_ca ref_externals (\<lambda>_. True) demo_env demo_app demo_call ''old'' True (demo_database, 0) =
      hbind (on_db (audit_ca ref_externals True demo_env (se_clock demo_env 4) ident demo_call ''ca.deleted'' r
        [(''forced'', JBool (\<not> ra_safe asm))])) (\<lambda>_.
      hreturn \<lparr> dcr_deleted = True, dcr_id = ca_id r, dcr_key_id = ca_record.ca_key_id r \<rparr>) (db1, 1)"
    using r asm
    by (simp add: delete_ca_def hbind_def hlift_def hread_def lookup_ca_def gate guard del require_ca_def
        require_bundle_def demo_app_service demo_app_manager demo_manager_reads)
  with d have "m' = 1" by (auto elim!: hbindE simp: on_db_iff handler_simps)
  with d key_removal_guarded [where x = ref_externals and io = "\<lambda>_. True" and env = demo_env and app = demo_app and call = demo_call
      and i = "''old''" and force = True and db = demo_database and m = 0 and res = res and db' = db' and m' = m'
      and request = None and ret = "Inr ()"]
  show ?thesis by auto
qed

end
