(* ===== verification/Ops.thy ===== *)
theory Ops
  imports AdminCa
begin

text \<open>
  Operations: the request statistics kept in memory (\<^verbatim>\<open>src/ops/metrics.rs\<close>) and the operations console
  (\<^verbatim>\<open>src/routes/ops.rs\<close>, \<^verbatim>\<open>src/routes/health.rs\<close>).  The lemmas show that the statistics stay bounded and add up,
  and what the health report says about the audit log.
\<close>

section \<open>Request statistics\<close>

definition MAX_ROUTES :: nat where "MAX_ROUTES = 256"
definition OVERFLOW_KEY :: string where "OVERFLOW_KEY = ''<other>''"

text \<open>The counters are 64-bit words; the latencies are 128-bit numbers, of which only the sum can reach the bound.\<close>

record route_stat =
  rsc_count :: "64 word"
  rsc_2xx :: "64 word"
  rsc_4xx :: "64 word"
  rsc_5xx :: "64 word"
  rsc_total_nanos :: nat
  rsc_min_nanos :: nat
  rsc_max_nanos :: nat

definition default_stat :: route_stat where
  "default_stat = \<lparr> rsc_count = 0, rsc_2xx = 0, rsc_4xx = 0, rsc_5xx = 0, rsc_total_nanos = 0, rsc_min_nanos = 0,
     rsc_max_nanos = 0 \<rparr>"

definition u128_max :: nat where "u128_max = 2 ^ 128 - 1"

definition observe :: "nat \<Rightarrow> nat \<Rightarrow> route_stat \<Rightarrow> route_stat" where
  "observe status nanos s =
     (let s = s\<lparr> rsc_count := rsc_count s + 1 \<rparr>;
          s = (if 200 \<le> status \<and> status \<le> 299 then s\<lparr> rsc_2xx := rsc_2xx s + 1 \<rparr>
               else if 400 \<le> status \<and> status \<le> 499 then s\<lparr> rsc_4xx := rsc_4xx s + 1 \<rparr>
               else if 500 \<le> status \<and> status \<le> 599 then s\<lparr> rsc_5xx := rsc_5xx s + 1 \<rparr>
               else s);
          s = s\<lparr> rsc_total_nanos := min u128_max (rsc_total_nanos s + nanos) \<rparr>;
          s = (if rsc_count s = 1 \<or> nanos < rsc_min_nanos s then s\<lparr> rsc_min_nanos := nanos \<rparr> else s)
      in if nanos > rsc_max_nanos s then s\<lparr> rsc_max_nanos := nanos \<rparr> else s)"

record api_metrics =
  am_routes :: "(string \<times> route_stat) list"
  am_total_requests :: "64 word"

definition new_metrics :: api_metrics where
  "new_metrics = \<lparr> am_routes = [], am_total_requests = 0 \<rparr>"

definition record_request :: "string \<Rightarrow> nat \<Rightarrow> nat \<Rightarrow> api_metrics \<Rightarrow> api_metrics" where
  "record_request key status nanos m =
     (let key = (if map_of (am_routes m) key \<noteq> None \<or> length (am_routes m) < MAX_ROUTES then key else OVERFLOW_KEY);
          before = (case map_of (am_routes m) key of Some s \<Rightarrow> s | None \<Rightarrow> default_stat)
      in \<lparr> am_routes = btree_insert key (observe status nanos before) (am_routes m),
           am_total_requests = am_total_requests m + 1 \<rparr>)"

record route_metric =
  rmt_route :: string
  rmt_count :: "64 word"
  rmt_2xx :: "64 word"
  rmt_4xx :: "64 word"
  rmt_5xx :: "64 word"
  rmt_avg_ms :: rat
  rmt_min_ms :: rat
  rmt_max_ms :: rat

record api_metrics_snapshot =
  ams_total_requests :: "64 word"
  ams_routes :: "route_metric list"

definition nanos_as_ms :: "nat \<Rightarrow> rat" where
  "nanos_as_ms n = f64 (f64 (of_nat n) / 1000000)"

definition snapshot :: "api_metrics \<Rightarrow> api_metrics_snapshot" where
  "snapshot m =
     \<lparr> ams_total_requests = am_total_requests m,
       ams_routes = map (\<lambda>(route, s).
         \<lparr> rmt_route = route, rmt_count = rsc_count s, rmt_2xx = rsc_2xx s, rmt_4xx = rsc_4xx s, rmt_5xx = rsc_5xx s,
           rmt_avg_ms = (if rsc_count s = 0 then 0
             else f64 (f64 (f64 (of_nat (rsc_total_nanos s)) / f64 (of_nat (unat (rsc_count s)))) / 1000000)),
           rmt_min_ms = nanos_as_ms (rsc_min_nanos s), rmt_max_ms = nanos_as_ms (rsc_max_nanos s) \<rparr>) (am_routes m) \<rparr>"

text \<open>The middleware: the request is keyed by its method and the matched route, or by its path when no route matched.\<close>

definition record_metrics :: "string \<Rightarrow> string option \<Rightarrow> string \<Rightarrow> nat \<Rightarrow> nat \<Rightarrow> api_metrics \<Rightarrow> api_metrics" where
  "record_metrics method matched path status nanos m =
     record_request (method @ '' '' @ (case matched of Some r \<Rightarrow> r | None \<Rightarrow> path)) status nanos m"

section \<open>Reports\<close>

definition DEFAULT_WINDOW_HOURS :: int where "DEFAULT_WINDOW_HOURS = 24"
definition PROVIDER_TALLY_LIMIT :: int where "PROVIDER_TALLY_LIMIT = 1000"

record machine_health =
  mh_total :: int
  mh_online :: int
  mh_stale :: int
  mh_offline :: int
  mh_latest_generation :: "int option"
  mh_rollout_percentage :: rat
  mh_behind :: int

record certificate_activity =
  cy_issued :: int
  cy_denied :: int

record provider_stat =
  ps_provider :: string
  ps_authentications :: int

record auth_activity =
  ay_total :: int
  ay_by_provider :: "provider_stat list"

record bundle_health =
  bh_configured :: bool
  bh_generation :: "int option"
  bh_fingerprint :: "string option"

record audit_health =
  ah_entries :: int
  ah_verified :: bool
  ah_chain_position :: "int option"

record health_report =
  hr_status :: string
  hr_version :: string
  hr_uptime_seconds :: nat
  hr_machines :: machine_health
  hr_certificates :: certificate_activity
  hr_authentication :: auth_activity
  hr_bundle :: bundle_health
  hr_audit :: audit_health
  hr_window_hours :: int

record ca_status =
  cst_configured :: bool
  cst_total :: int
  cst_enabled :: int
  cst_generation :: "int option"

record api_summary =
  asu_total_requests :: "64 word"
  asu_routes_tracked :: nat

record status_report =
  srp_version :: string
  srp_uptime_seconds :: nat
  srp_started_at :: string
  srp_database :: string
  srp_certificate_authority :: ca_status
  srp_bundle :: bundle_health
  srp_audit :: audit_health
  srp_providers :: "string list"
  srp_api :: api_summary

section \<open>Uptime\<close>

definition uptime :: "instant \<Rightarrow> instant \<Rightarrow> int" where
  "uptime started_at now = max (now - started_at) 0"

definition uptime_seconds :: "instant \<Rightarrow> instant \<Rightarrow> nat" where
  "uptime_seconds started_at now = nat (max (num_seconds (uptime started_at now)) 0)"

section \<open>The parts of the health report\<close>

definition internal_sqlx :: "(sqlx_error, 'a) result \<Rightarrow> (api_error, 'a) result" where
  "internal_sqlx = map_err (\<lambda>e. Internal (sqlx_display e))"

definition internal_audit :: "(audit_error, 'a) result \<Rightarrow> (api_error, 'a) result" where
  "internal_audit = map_err (\<lambda>e. Internal (audit_error_display e))"

definition view_count :: "liveness_status \<Rightarrow> machine_view list \<Rightarrow> int" where
  "view_count l views = int (length (filter (\<lambda>v. mv_liveness v = l) views))"

definition machine_health_of ::
  "externals \<Rightarrow> bool \<Rightarrow> ca_reads option \<Rightarrow> bundle_service option \<Rightarrow> machine_table \<Rightarrow> instant \<Rightarrow> (api_error, machine_health) result" where
  "machine_health_of x up ca service rows now =
     (let latest_generation = map_option (\<lambda>c. uint (cm_generation c)) ca in
      case service of
        Some s \<Rightarrow>
          rbind (internal_sqlx (fleet_status_of x up s rows now)) (\<lambda>fleet.
          let on_latest = sum_list (map gn_count
                (filter (\<lambda>g. gn_generation g = uint (fs_latest_generation fleet)) (fs_generations fleet)))
          in Inr \<lparr> mh_total = fs_total_machines fleet, mh_online = fs_online fleet, mh_stale = fs_stale fleet,
                mh_offline = fs_offline fleet, mh_latest_generation = Some (uint (fs_latest_generation fleet)),
                mh_rollout_percentage = fs_rollout_percentage fleet,
                mh_behind = max (fs_total_machines fleet - on_latest) 0 \<rparr>)
      | None \<Rightarrow>
          rbind (internal_sqlx (admin_list x up rows now latest_generation default_filter)) (\<lambda>views.
          Inr \<lparr> mh_total = int (length views), mh_online = view_count Online views, mh_stale = view_count Stale views,
                mh_offline = view_count Offline views, mh_latest_generation = latest_generation,
                mh_rollout_percentage = 0, mh_behind = int (length views) \<rparr>))"

definition bundle_health_of :: "ca_reads option \<Rightarrow> byte list option \<Rightarrow> bundle_health" where
  "bundle_health_of ca signer =
     (case ca of
        Some c \<Rightarrow> \<lparr> bh_configured = (signer \<noteq> None), bh_generation = Some (uint (cm_generation c)),
            bh_fingerprint = Some (cm_bundle_fingerprint c) \<rparr>
      | None \<Rightarrow> \<lparr> bh_configured = False, bh_generation = None, bh_fingerprint = None \<rparr>)"

definition audit_health_of :: "externals \<Rightarrow> bool \<Rightarrow> bool \<Rightarrow> audit_log \<Rightarrow> (api_error, audit_health) result" where
  "audit_health_of x tip_up verify_up rows =
     rbind (internal_audit (get_tip x tip_up rows)) (\<lambda>tip.
     rbind (internal_audit (audit_verify x verify_up rows)) (\<lambda>result.
     Inr \<lparr> ah_entries = (case tip of Some t \<Rightarrow> tip_chain_position t | None \<Rightarrow> 0), ah_verified = is_valid result,
           ah_chain_position = map_option tip_chain_position tip \<rparr>))"

definition count_events :: "externals \<Rightarrow> bool \<Rightarrow> audit_log \<Rightarrow> string \<Rightarrow> instant \<Rightarrow> (api_error, int) result" where
  "count_events x up rows event_type since =
     internal_audit (count_matching x up rows
       (default_query\<lparr> aq_event_type := Some event_type, aq_since := Some since \<rparr>))"

definition certificate_activity_of ::
  "externals \<Rightarrow> bool \<Rightarrow> bool \<Rightarrow> audit_log \<Rightarrow> instant \<Rightarrow> (api_error, certificate_activity) result" where
  "certificate_activity_of x issued_up denied_up rows since =
     rbind (count_events x issued_up rows ''certificate.issued'' since) (\<lambda>issued.
     rbind (count_events x denied_up rows ''certificate.denied'' since) (\<lambda>denied.
     Inr \<lparr> cy_issued = issued, cy_denied = denied \<rparr>))"

definition tally_providers :: "audit_entry list \<Rightarrow> (string \<times> int) list" where
  "tally_providers entries =
     foldl (\<lambda>counts e. case Option.bind (json_get (ae_metadata e) ''provider'') as_str of
        Some p \<Rightarrow> count_entry p counts | None \<Rightarrow> counts) [] entries"

definition auth_activity_of ::
  "externals \<Rightarrow> bool \<Rightarrow> bool \<Rightarrow> audit_log \<Rightarrow> instant \<Rightarrow> (api_error, auth_activity) result" where
  "auth_activity_of x count_up scan_up rows since =
     rbind (internal_audit (count_matching x count_up rows
        (default_query\<lparr> aq_event_prefix := Some ''auth.'', aq_since := Some since \<rparr>))) (\<lambda>n.
     rbind (internal_audit (search x scan_up rows
        (default_query\<lparr> aq_event_prefix := Some ''auth.'', aq_since := Some since, aq_limit := PROVIDER_TALLY_LIMIT,
           aq_order := Descending \<rparr>))) (\<lambda>page.
     Inr \<lparr> ay_total = n, ay_by_provider = map (\<lambda>(p, c). \<lparr> ps_provider = p, ps_authentications = c \<rparr>)
             (tally_providers (pg_entries page)) \<rparr>))"

section \<open>Endpoints\<close>

datatype ops_io = OpDenied | OpMachines | OpTip | OpVerify | OpIssued | OpRefused | OpAuthCount | OpAuthScan | OpPing | OpSearch

definition audit_search_handler where
  "audit_search_handler x io env call params =
     hbind (authorize_ops_admin x (io OpDenied) env call ''ops.audit'') (\<lambda>_.
     hbind (hlift (into_query x params Descending)) (\<lambda>query.
     hbind (hread db_audit) (\<lambda>rows. hlift (run_search x (io OpSearch) rows query))))"

definition audit_stream_handler where
  "audit_stream_handler x io env call params =
     hbind (authorize_ops_admin x (io OpDenied) env call ''ops.audit_stream'') (\<lambda>_.
     hbind (hlift (into_query x params Ascending)) (\<lambda>query.
     hbind (hread db_audit) (\<lambda>rows. hlift (run_search x (io OpSearch) rows query))))"

definition overall_status :: "bundle_health \<Rightarrow> audit_health \<Rightarrow> machine_health \<Rightarrow> string" where
  "overall_status b a m =
     (if \<not> bh_configured b then ''unconfigured''
      else if \<not> ah_verified a \<or> mh_offline m > 0 then ''degraded''
      else ''ok'')"

text \<open>The version is fixed when the server is built; it is a parameter.\<close>

definition health_handler ::
  "externals \<Rightarrow> (ops_io \<Rightarrow> bool) \<Rightarrow> server_env \<Rightarrow> ('m, 'v, 't) ca_app \<Rightarrow> string \<Rightarrow> instant \<Rightarrow> http_call
     \<Rightarrow> (database \<times> 'm, health_report) handler" where
  "health_handler x io env app version started_at call =
     hbind (on_db (authorize_ops_admin x (io OpDenied) env call ''ops.health'')) (\<lambda>_.
     hbind (hread (\<lambda>s. s)) (\<lambda>(db, m).
     let now = se_clock env 0;
         window_start = now - seconds (DEFAULT_WINDOW_HOURS * 3600);
         ca = map_option (\<lambda>mg. mg_reads mg m) (app_manager app) in
     hbind (hlift (machine_health_of x (io OpMachines) ca (bundle_service_of app m) (db_machines db) now)) (\<lambda>machines.
     let bundle = bundle_health_of ca (app_signer app) in
     hbind (hlift (audit_health_of x (io OpTip) (io OpVerify) (db_audit db))) (\<lambda>audit.
     hbind (hlift (certificate_activity_of x (io OpIssued) (io OpRefused) (db_audit db) window_start)) (\<lambda>certificates.
     hbind (hlift (auth_activity_of x (io OpAuthCount) (io OpAuthScan) (db_audit db) window_start)) (\<lambda>authentication.
     hreturn \<lparr> hr_status = overall_status bundle audit machines, hr_version = version,
       hr_uptime_seconds = uptime_seconds started_at (se_clock env 3), hr_machines = machines,
       hr_certificates = certificates, hr_authentication = authentication, hr_bundle = bundle, hr_audit = audit,
       hr_window_hours = DEFAULT_WINDOW_HOURS \<rparr>))))))"

definition ca_status_of :: "'m ca_manager option \<Rightarrow> 'm \<Rightarrow> ca_status" where
  "ca_status_of manager m =
     (case manager of
        Some ca \<Rightarrow> \<lparr> cst_configured = True, cst_total = int (length (mg_list ca m)),
            cst_enabled = int (length (filter ca_enabled (mg_list ca m))),
            cst_generation = Some (uint (cm_generation (mg_reads ca m))) \<rparr>
      | None \<Rightarrow> \<lparr> cst_configured = False, cst_total = 0, cst_enabled = 0, cst_generation = None \<rparr>)"

definition status_handler ::
  "externals \<Rightarrow> (ops_io \<Rightarrow> bool) \<Rightarrow> server_env \<Rightarrow> ('m, 'v, 't) ca_app \<Rightarrow> string \<Rightarrow> instant \<Rightarrow> api_metrics \<Rightarrow> http_call
     \<Rightarrow> (database \<times> 'm, status_report) handler" where
  "status_handler x io env app version started_at metrics call =
     hbind (on_db (authorize_ops_admin x (io OpDenied) env call ''ops.status'')) (\<lambda>_.
     hbind (hread (\<lambda>s. s)) (\<lambda>(db, m).
     let snap = snapshot metrics;
         ca = map_option (\<lambda>mg. mg_reads mg m) (app_manager app) in
     hbind (hlift (audit_health_of x (io OpTip) (io OpVerify) (db_audit db))) (\<lambda>audit.
     hreturn \<lparr> srp_version = version, srp_uptime_seconds = uptime_seconds started_at (se_clock env 3),
       srp_started_at = to_rfc3339_secs x started_at, srp_database = (if io OpPing then ''ok'' else ''error''),
       srp_certificate_authority = ca_status_of (app_manager app) m, srp_bundle = bundle_health_of ca (app_signer app),
       srp_audit = audit, srp_providers = map pm_id (registry_list (se_registry env)),
       srp_api = \<lparr> asu_total_requests = ams_total_requests snap, asu_routes_tracked = length (ams_routes snap) \<rparr> \<rparr>)))"

definition metrics_handler where
  "metrics_handler x io env metrics call =
     hbind (authorize_ops_admin x (io OpDenied) env call ''ops.metrics'') (\<lambda>_. hreturn (snapshot metrics))"

section \<open>The statistics stay bounded and add up\<close>

lemma length_btree_insert:
  "sorted_wrt (<) (map fst m) \<Longrightarrow> length (btree_insert k v m) = length m + (if map_of m k = None then 1 else 0)"
proof (induction k v m rule: btree_insert.induct)
  case (2 k v k' v' ps)
  have "map_of ps k = None" if "k < k'"
    using 2(2) that by (force simp: map_of_eq_None_iff)
  with 2 show ?case by auto
qed simp

lemma observe_simps:
  "rsc_count (observe status nanos s) = rsc_count s + 1"
  "rsc_min_nanos s \<le> rsc_max_nanos s \<Longrightarrow> rsc_min_nanos (observe status nanos s) \<le> rsc_max_nanos (observe status nanos s)"
  by (auto simp: observe_def Let_def)

definition metrics_ok :: "api_metrics \<Rightarrow> bool" where
  "metrics_ok m \<longleftrightarrow>
     sorted_wrt (<) (map fst (am_routes m))
     \<and> (length (am_routes m) \<le> MAX_ROUTES \<or> length (am_routes m) = MAX_ROUTES + 1 \<and> map_of (am_routes m) OVERFLOW_KEY \<noteq> None)
     \<and> sum_list (map (\<lambda>p. rsc_count (snd p)) (am_routes m)) = am_total_requests m
     \<and> (\<forall>p \<in> set (am_routes m). rsc_min_nanos (snd p) \<le> rsc_max_nanos (snd p))"

lemma set_btree_insert: "set (btree_insert k v m) \<subseteq> insert (k, v) (set m)"
  by (induction k v m rule: btree_insert.induct) auto

lemma record_request_ok:
  assumes "metrics_ok m"
  shows "metrics_ok (record_request key status nanos m)"
proof -
  define k where "k = (if map_of (am_routes m) key \<noteq> None \<or> length (am_routes m) < MAX_ROUTES then key else OVERFLOW_KEY)"
  define s where "s = (case map_of (am_routes m) k of Some s \<Rightarrow> s | None \<Rightarrow> default_stat)"
  have rec: "record_request key status nanos m =
      \<lparr> am_routes = btree_insert k (observe status nanos s) (am_routes m), am_total_requests = am_total_requests m + 1 \<rparr>"
    by (simp add: record_request_def Let_def k_def s_def)
  have srt: "sorted_wrt (<) (map fst (am_routes m))" using assms by (simp add: metrics_ok_def)
  have "rsc_count s = (case map_of (am_routes m) k of Some n \<Rightarrow> rsc_count n | None \<Rightarrow> 0)"
    by (auto simp: s_def default_stat_def split: option.splits)
  then have cnt: "sum_list (map (\<lambda>p. rsc_count (snd p)) (btree_insert k (observe status nanos s) (am_routes m))) =
      am_total_requests m + 1"
    using assms sum_btree_insert [OF srt, of rsc_count k] by (simp add: metrics_ok_def observe_simps)
  have "rsc_min_nanos s \<le> rsc_max_nanos s"
    using assms by (auto simp: s_def default_stat_def metrics_ok_def split: option.splits dest!: map_of_SomeD)
  then have mm: "\<forall>p \<in> set (btree_insert k (observe status nanos s) (am_routes m)). rsc_min_nanos (snd p) \<le> rsc_max_nanos (snd p)"
    using assms set_btree_insert [of k "observe status nanos s" "am_routes m"]
    by (auto simp: metrics_ok_def observe_simps)
  have len: "length (btree_insert k v (am_routes m)) \<le> MAX_ROUTES
      \<or> length (btree_insert k v (am_routes m)) = MAX_ROUTES + 1 \<and> map_of (btree_insert k v (am_routes m)) OVERFLOW_KEY \<noteq> None" for v
    using assms length_btree_insert [OF srt, of k v]
    by (auto simp: metrics_ok_def map_of_btree_insert k_def split: if_splits)
  show ?thesis
    unfolding metrics_ok_def rec using srt cnt mm len by (simp add: sorted_keys_btree_insert)
qed

text \<open>
  C36. Whatever requests arrive, the statistics hold at most 256 routes and the bucket for all others, sorted and without repetition; the counters of
  the routes add up to the total, also when they wrap, and no minimum exceeds its maximum.
\<close>

theorem metrics_account:
  fixes requests :: "(string \<times> nat \<times> nat) list"
  defines "m \<equiv> foldl (\<lambda>m (key, status, nanos). record_request key status nanos m) new_metrics requests"
  shows "sorted_wrt (<) (map fst (am_routes m)) \<and> length (am_routes m) \<le> 257
    \<and> length (filter (\<lambda>p. fst p \<noteq> OVERFLOW_KEY) (am_routes m)) \<le> 256
    \<and> sum_list (map (\<lambda>p. rsc_count (snd p)) (am_routes m)) = am_total_requests m
    \<and> list_all (\<lambda>p. rsc_min_nanos (snd p) \<le> rsc_max_nanos (snd p)) (am_routes m)"
proof -
  have "metrics_ok (foldl (\<lambda>m (key, status, nanos). record_request key status nanos m) n requests)" if "metrics_ok n" for n
    using that by (induction requests arbitrary: n) (auto simp: record_request_ok)
  moreover have "metrics_ok new_metrics" by (simp add: metrics_ok_def new_metrics_def)
  ultimately have ok: "metrics_ok m" by (simp add: m_def)
  have "length (filter (\<lambda>p. fst p \<noteq> OVERFLOW_KEY) (am_routes m)) \<le> MAX_ROUTES"
  proof (cases "map_of (am_routes m) OVERFLOW_KEY")
    case None
    then show ?thesis using ok by (auto simp: metrics_ok_def intro: order_trans [OF length_filter_le])
  next
    case (Some v)
    have "length (filter (\<lambda>p. fst p \<noteq> OVERFLOW_KEY) (am_routes m)) < length (am_routes m)"
      using map_of_SomeD [OF Some] by (intro length_filter_less) auto
    with ok show ?thesis by (auto simp: metrics_ok_def)
  qed
  with ok show ?thesis by (auto simp: metrics_ok_def MAX_ROUTES_def list_all_iff)
qed

section \<open>What the health report says about the audit log\<close>

lemma get_tip_intact:
  assumes "log_intact x rows"
  shows "\<exists>tip. get_tip x True rows = Inr tip \<and> map_option tip_chain_position tip = (if rows = [] then None else Some (int (length rows)))"
proof (cases "rows = []")
  case True
  then show ?thesis using latest_row_intact [OF assms] by (simp add: get_tip_def latest_entry_def)
next
  case False
  then have "entry_of_row x (last rows) = Inr (read_entry x (last rows))" using intact_rows_read(1) [OF assms] by simp
  moreover have "ar_chain_position (last rows) = int (length rows)"
  proof -
    have "last (map ar_chain_position rows) = last (map (\<lambda>k. int k + 1) [0..<length rows])"
      by (simp only: log_intact_positions [OF assms])
    with False show ?thesis by (cases rows rule: rev_cases) (simp_all add: last_map)
  qed
  ultimately show ?thesis
    using latest_row_intact [OF assms] False entry_of_row_columns
    by (simp add: get_tip_def latest_entry_def)
qed

text \<open>
  On a database whose log is intact the health report counts every entry of the log and calls the chain verified; it is "ok" exactly when the bundle service is
  configured and no machine is offline.
\<close>

theorem health_of_intact_log:
  assumes inv: "database_inv x db"
    and h: "health_handler x (\<lambda>_. True) env app version started_at call (db, m) = (Inr report, s')"
  shows "s' = (db, m) \<and> ah_verified (hr_audit report) \<and> ah_entries (hr_audit report) = int (length (db_audit db))
    \<and> (hr_status report = ''ok'' \<longleftrightarrow>
         app_manager app \<noteq> None \<and> app_signer app \<noteq> None \<and> mh_offline (hr_machines report) \<le> 0)"
proof -
  have log: "log_intact x (db_audit db)" using inv by (simp add: database_inv_def)
  obtain tip where tip: "get_tip x True (db_audit db) = Inr tip"
    "map_option tip_chain_position tip = (if db_audit db = [] then None else Some (int (length (db_audit db))))"
    using get_tip_intact [OF log] by blast
  then have "(case tip of Some t \<Rightarrow> tip_chain_position t | None \<Rightarrow> 0) = int (length (db_audit db))"
    by (cases tip) (auto split: if_splits)
  then have a: "audit_health_of x True True (db_audit db) =
      Inr \<lparr> ah_entries = int (length (db_audit db)), ah_verified = True, ah_chain_position = map_option tip_chain_position tip \<rparr>"
    using tip(1) audit_verify_intact [OF log] by (simp add: audit_health_of_def internal_audit_def)
  from h [unfolded health_handler_def] show ?thesis
  proof (cases rule: hbindE)
    case (go i s0)
    then have "s0 = (db, m)"
      using ops_gate.gate_passed [of x True env call "''ops.health''" db i "fst s0"] by (cases s0) (auto simp: on_db_iff)
    with go(2) a show ?thesis
      by (auto simp: hbind_pure Let_def handler_simps overall_status_def bundle_health_of_def split: sum.splits option.splits)
  qed simp
qed

lemma ops_handlers_inv:
  assumes "json_contract x" "\<And>n. rfc3339_range (se_clock env n)"
  shows "steps_within (inv_step x) (audit_search_handler x io env call params)"
    and "steps_within (inv_step x) (audit_stream_handler x io env call params)"
    and "steps_within (inv_step x) (metrics_handler x io env metrics call)"
    and "steps_within (inv_step_db x) (health_handler x io env app version started_at call)"
    and "steps_within (inv_step_db x) (status_handler x io env app version started_at metrics call)"
proof -
  show "steps_within (inv_step x) (audit_search_handler x io env call params)"
    "steps_within (inv_step x) (audit_stream_handler x io env call params)"
    "steps_within (inv_step x) (metrics_handler x io env metrics call)"
    unfolding audit_search_handler_def audit_stream_handler_def metrics_handler_def
    by (intro handler_inv assms)+
  show "steps_within (inv_step_db x) (health_handler x io env app version started_at call)"
    "steps_within (inv_step_db x) (status_handler x io env app version started_at metrics call)"
    unfolding health_handler_def status_handler_def Let_def
    by (intro ca_handler_inv steps_within_case_prod assms)+
qed

section \<open>Witnesses\<close>

theorem health_of_intact_log_witness:
  "\<exists>report. health_handler ref_externals (\<lambda>_. True) demo_env demo_app ''0.1.0'' 0 demo_call (demo_database, 0)
      = (Inr report, (demo_database, 0)) \<and> ah_verified (hr_audit report) \<and> ah_entries (hr_audit report) = 0"
proof -
  let ?run = "health_handler ref_externals (\<lambda>_. True) demo_env demo_app ''0.1.0'' 0 demo_call (demo_database, 0)"
  obtain ident where i: "resolve_identity (se_registry demo_env) (se_access demo_env) None (hc_token demo_call) = Inr ident"
    "is_allowed (authorize ref_externals (se_access demo_env) ident)" "id_username ident = ''ann''"
    by (rule demo_admin)
  then have a: "authorize ref_externals (se_access demo_env) ident = Allow"
    by (cases "authorize ref_externals (se_access demo_env) ident") auto
  have gate: "on_db (authorize_ops_admin ref_externals True demo_env demo_call ''ops.health'') (demo_database, 0 :: nat)
      = (Inr ident, (demo_database, 0))"
    using i(1) a by (simp add: authorize_ops_admin_def hbind_pure on_db_def hreturn_def)
  have empty: "db_audit demo_database = []" by (simp add: demo_database_def empty_database_def)
  have "\<exists>report s'. ?run = (Inr report, s')"
    using gate
    by (simp add: health_handler_def hbind_def hread_def hlift_def hreturn_def Let_def machine_health_of_def demo_app_service
        fleet_status_of_def internal_sqlx_def internal_audit_def audit_health_of_def get_tip_def latest_entry_def latest_row_def
        order_asc_def audit_verify_def list_entries_def certificate_activity_of_def count_events_def count_matching_def
        auth_activity_of_def search_def order_rows_def empty)
  then obtain report s' where r: "?run = (Inr report, s')" by blast
  from health_of_intact_log [OF demo_database_inv r] r empty show ?thesis by auto
qed

end
