(* ===== verification/Sessions.thy ===== *)
theory Sessions
  imports AdminCa
begin

text \<open>
  The endpoints that need no administrator (\<^verbatim>\<open>src/routes/auth.rs\<close>, \<^verbatim>\<open>src/routes/machines.rs\<close>): the device flow by which a user obtains
  an access token, the identity lookup, and the enrollment of a machine.
\<close>

section \<open>Wire types\<close>

record device_poll_body =
  dpb_device_code :: string
  dpb_provider :: "string option"

record poll_identity =
  pid_provider :: string
  pid_subject :: string
  pid_username :: string
  pid_email :: "string option"
  pid_name :: "string option"

record poll_response =
  por_status :: string
  por_access_token :: "string option"
  por_identity :: "poll_identity option"

definition poll_status :: "string \<Rightarrow> poll_response" where
  "poll_status status = \<lparr> por_status = status, por_access_token = None, por_identity = None \<rparr>"

definition approved_with :: "string \<Rightarrow> poll_identity option \<Rightarrow> poll_response" where
  "approved_with access_token ident =
     \<lparr> por_status = ''approved'', por_access_token = Some access_token, por_identity = ident \<rparr>"

record whoami_response =
  who_provider :: string
  who_subject :: string
  who_username :: string
  who_name :: "string option"
  who_email :: "string option"
  who_github_login :: string
  who_github_id :: nat

text \<open>\<^verbatim>\<open>str::parse::<u64>\<close>: an optional plus sign, at least one digit, and the range of the type.\<close>

definition parse_u64 :: "string \<Rightarrow> nat option" where
  "parse_u64 s =
     (case parse_nat (case strip_prefix ''+'' s of Some t \<Rightarrow> t | None \<Rightarrow> s) of
        Some n \<Rightarrow> if n < 2 ^ 64 then Some n else None
      | None \<Rightarrow> None)"

definition whoami_of :: "authenticated_identity \<Rightarrow> whoami_response" where
  "whoami_of i =
     \<lparr> who_provider = au_provider i, who_subject = au_subject i, who_username = au_username i,
       who_name = au_display_name i, who_email = au_email i, who_github_login = au_username i,
       who_github_id = (case parse_u64 (au_subject i) of Some n \<Rightarrow> n | None \<Rightarrow> 0) \<rparr>"

section \<open>The device flow\<close>

definition ROUTE_MAX_DEVICE_CODE_LEN :: nat where "ROUTE_MAX_DEVICE_CODE_LEN = 256"

definition device_start :: "provider_registry \<Rightarrow> string option \<Rightarrow> (api_error, device_authorization) result" where
  "device_start reg selector =
     rbind (map_err api_from_provider (registry_resolve reg selector)) (\<lambda>provider.
     map_err api_from_provider (ap_start_device_authorization provider))"

definition session_context :: "externals \<Rightarrow> server_env \<Rightarrow> http_call \<Rightarrow> string \<Rightarrow> json" where
  "session_context x env call provider_id =
     context_to_value (with_provider provider_id
       (from_headers x (hc_headers call) (Some (hc_request_id call)) (se_clock env 1)))"

definition authorized_metadata :: "string \<Rightarrow> string \<Rightarrow> json \<Rightarrow> string option \<Rightarrow> json" where
  "authorized_metadata provider_id scope client subject =
     json_object ([(''provider'', JStr provider_id), (''scopes'', JStr scope), (''client'', client)]
       @ (case subject of Some s \<Rightarrow> [(''subject'', JStr s)] | None \<Rightarrow> []))"

definition device_approved ::
  "externals \<Rightarrow> bool \<Rightarrow> server_env \<Rightarrow> http_call \<Rightarrow> auth_provider \<Rightarrow> string \<Rightarrow> string \<Rightarrow> (database, poll_response) handler" where
  "device_approved x up env call provider access_token scope =
     (let provider_id = pm_id (ap_metadata provider);
          ident = (case ap_fetch_identity provider access_token of Inr i \<Rightarrow> Some i | Inl _ \<Rightarrow> None);
          actor = (case ident of Some i \<Rightarrow> au_username i | None \<Rightarrow> ''unknown'');
          metadata = authorized_metadata provider_id scope (session_context x env call provider_id) (map_option au_subject ident) in
      hbind (append_event x up (audit_now env) (with_metadata metadata (new_entry ''auth.device_authorized'' actor))) (\<lambda>_.
      hreturn (approved_with access_token (map_option (\<lambda>i.
        \<lparr> pid_provider = provider_id, pid_subject = au_subject i, pid_username = au_username i, pid_email = au_email i,
          pid_name = au_display_name i \<rparr>) ident))))"

definition device_poll ::
  "externals \<Rightarrow> bool \<Rightarrow> server_env \<Rightarrow> http_call \<Rightarrow> device_poll_body \<Rightarrow> (database, poll_response) handler" where
  "device_poll x up env call request =
     hbind (hlift (map_err api_from_provider (registry_resolve (se_registry env) (dpb_provider request)))) (\<lambda>provider.
     let device_code = trim (dpb_device_code request) in
     hbind (hlift (ensure (device_code \<noteq> [] \<and> length device_code \<le> ROUTE_MAX_DEVICE_CODE_LEN)
        (BadRequest ''device_code is required''))) (\<lambda>_.
     hbind (hlift (map_err api_from_provider (ap_poll_device_authorization provider device_code))) (\<lambda>outcome.
     case outcome of
       Pending \<Rightarrow> hreturn (poll_status ''pending'')
     | SlowDown \<Rightarrow> hreturn (poll_status ''slow_down'')
     | Expired \<Rightarrow> hreturn (poll_status ''expired'')
     | Denied \<Rightarrow> hreturn (poll_status ''denied'')
     | Approved access_token scope \<Rightarrow> device_approved x up env call provider access_token scope)))"

definition whoami ::
  "externals \<Rightarrow> bool \<Rightarrow> server_env \<Rightarrow> http_call \<Rightarrow> string option \<Rightarrow> (database, whoami_response) handler" where
  "whoami x up env call selector =
     hbind (hlift (map_err api_from_provider (registry_resolve (se_registry env) selector))) (\<lambda>provider.
     let provider_id = pm_id (ap_metadata provider) in
     hbind (hlift (map_err api_from_provider (ap_fetch_identity provider (hc_token call)))) (\<lambda>i.
     hbind (append_event x up (audit_now env)
        (with_metadata (json_object [(''provider'', JStr provider_id), (''subject'', JStr (au_subject i)),
             (''client'', session_context x env call provider_id)])
          (new_entry ''auth.identity_lookup'' (au_username i)))) (\<lambda>_.
     hreturn (whoami_of i))))"

section \<open>Enrollment of a machine\<close>

record bundle_config =
  bc_sync_interval_seconds :: u32
  bc_jitter_percent :: byte
  bc_ttl_seconds :: u32
  bc_signing_key_env :: string

definition enroll_handler ::
  "externals \<Rightarrow> (enroll_io \<Rightarrow> bool) \<Rightarrow> (string, string) result option \<Rightarrow> bundle_config \<Rightarrow> (nat \<Rightarrow> nat) \<Rightarrow> byte list option \<Rightarrow> string
     \<Rightarrow> instant \<Rightarrow> instant \<Rightarrow> enroll_request \<Rightarrow> database \<Rightarrow> (enrollment_error, enroll_response) result \<times> database" where
  "enroll_handler x io primary_key cfg jitter signer uuid now audited_at request db =
     (case primary_key of
        None \<Rightarrow> (Inl (EnrollInternal ''certificate authority is not configured''), db)
      | Some (Inl e) \<Rightarrow> (Inl (EnrollInternal e), db)
      | Some (Inr server_identity) \<Rightarrow>
          let sync_interval = with_jitter (bc_sync_interval_seconds cfg) (bc_jitter_percent cfg) jitter;
              service = with_bundle_signing_key (map_option (public_key_openssh x) signer)
                (with_sync_interval sync_interval (enrollment_service_sqlite server_identity))
          in enroll x io service uuid now audited_at db request)"

section \<open>A token is handed out only on the record\<close>

text \<open>
  C37. A poll of the device flow hands out an access token only when the provider approved that device code with that very token and the approval was appended to the
  audit log, attributed to the identity the provider gives for the token; every other answer, and every failure, leaves the
  database as it was.
\<close>

theorem token_released_on_record:
  assumes d: "device_poll x up env call request db = (res, db')"
  shows "case res of
      Inl _ \<Rightarrow> db' = db
    | Inr resp \<Rightarrow>
        (case por_access_token resp of
           None \<Rightarrow> db' = db
         | Some token \<Rightarrow> up \<and> (\<exists>provider scope row.
             registry_resolve (se_registry env) (dpb_provider request) = Inr provider
             \<and> ap_poll_device_authorization provider (trim (dpb_device_code request)) = Inr (Approved token scope)
             \<and> db' = db\<lparr> db_audit := db_audit db @ [row] \<rparr> \<and> ar_event_type row = ''auth.device_authorized''
             \<and> ar_actor row = (case ap_fetch_identity provider token of Inr i \<Rightarrow> au_username i | Inl _ \<Rightarrow> ''unknown'')))"
proof (cases "registry_resolve (se_registry env) (dpb_provider request)")
  case (Inl e)
  with d show ?thesis by (auto simp: device_poll_def hbind_pure)
next
  case (Inr provider)
  note run = d [unfolded device_poll_def hbind_pure Let_def Inr, simplified]
  show ?thesis
  proof (cases "trim (dpb_device_code request) \<noteq> [] \<and> length (trim (dpb_device_code request)) \<le> ROUTE_MAX_DEVICE_CODE_LEN")
    case False
    with run show ?thesis by (auto simp: ensure_def)
  next
    case code: True
    show ?thesis
    proof (cases "ap_poll_device_authorization provider (trim (dpb_device_code request))")
      case (Inl e)
      with run code show ?thesis by auto
    next
      case outcome: (Inr o')
      show ?thesis
      proof (cases o')
        case (Approved token scope)
        with run code outcome have "device_approved x up env call provider token scope db = (res, db')" by simp
        then show ?thesis
          unfolding device_approved_def Let_def
        proof (cases rule: hbindE)
          case (stop e)
          from stop(1) show ?thesis by (cases rule: append_event_cases) (use stop in auto)
        next
          case (go u db1)
          from go(1) show ?thesis
          proof (cases rule: append_event_cases)
            case (recorded row)
            have "(case (case ap_fetch_identity provider token of Inr i \<Rightarrow> Some i | Inl _ \<Rightarrow> None) of Some i \<Rightarrow> au_username i | None \<Rightarrow> ''unknown'')
                = (case ap_fetch_identity provider token of Inr i \<Rightarrow> au_username i | Inl _ \<Rightarrow> ''unknown'')"
              by (simp split: sum.split)
            with recorded go(2) Inr outcome Approved show ?thesis
              by (auto simp: handler_simps approved_with_def with_metadata_def new_entry_def)
          qed simp
        qed
      qed (use run code outcome in \<open>auto simp: handler_simps poll_status_def\<close>)
    qed
  qed
qed

section \<open>An enrolled agent trusts the bundles of its server\<close>

lemma enroll_response:
  assumes "enroll x io svc uuid now audited_at db request = (Inr resp, db')"
  shows "rs_bundle_signing_key resp = es_bundle_signing_key svc" "rs_sync_interval resp = es_sync_interval svc"
    "rs_server_identity resp = es_server_identity svc"
  using assms by (auto simp: enroll_def Let_def split: sum.splits prod.splits)

text \<open>
  C38. The key that enrollment hands to a machine is the one under which every bundle that the server signs verifies until it expires; and the
  poll interval it hands out is at least one second when the configured interval leaves room for the spread.
\<close>

theorem enrolled_machine_verifies_bundles:
  assumes x: "ed25519_contract x" "base64_contract x" "rfc3339_contract x"
    and seed: "length seed = 32" "openssh_encodes x (ed25519_public x seed)"
    and rng: "\<And>n. 0 < n \<Longrightarrow> jitter n < n"
    and e: "enroll_handler x io primary_key cfg jitter (Some seed) uuid now audited_at request db = (Inr resp, db')"
    and b: "build_signed_bundle x s signed_at = Inr b" "bs_signer s = seed"
    and t: "rfc3339_range (signed_at + seconds (bs_ttl_seconds s))" "t \<le> trunc_secs (signed_at + seconds (bs_ttl_seconds s))"
  shows "\<exists>line key. rs_bundle_signing_key resp = Some line \<and> from_openssh x line = Some key
    \<and> verify_signed_bundle x b (ssh_key_bytes key) t = Inr ()
    \<and> (unat (bc_sync_interval_seconds cfg) < 2 ^ 31 \<longrightarrow> 1 \<le> unat (rs_sync_interval resp))"
proof -
  let ?sync = "with_jitter (bc_sync_interval_seconds cfg) (bc_jitter_percent cfg) jitter"
  obtain ident where "primary_key = Some (Inr ident)" and run: "enroll x io
      (with_bundle_signing_key (Some (public_key_openssh x seed)) (with_sync_interval ?sync (enrollment_service_sqlite ident)))
      uuid now audited_at db request = (Inr resp, db')"
    using e by (auto simp: enroll_handler_def Let_def split: option.splits sum.splits)
  have key: "rs_bundle_signing_key resp = Some (public_key_openssh x seed)" and sync: "rs_sync_interval resp = ?sync"
    using enroll_response [OF run] by (simp_all add: with_bundle_signing_key_def with_sync_interval_def)
  have line: "from_openssh x (public_key_openssh x seed) =
      Some \<lparr> ssh_algorithm = Ed25519, ssh_key_bytes = ed25519_public x seed, ssh_comment = [] \<rparr>"
    using seed(2) by (auto simp: openssh_encodes_def public_key_openssh_def Let_def)
  have "verify_signed_bundle x b (ed25519_public x seed) t = Inr ()"
    using built_bundle_verifies(1) [OF x, of s signed_at b t] seed t b by simp
  moreover have "1 \<le> unat ?sync" if small: "unat (bc_sync_interval_seconds cfg) < 2 ^ 31"
  proof -
    let ?d = "min (2 ^ 32 - 1) (unat (bc_sync_interval_seconds cfg) * min (unat (bc_jitter_percent cfg)) 100) div 100"
    have "?d \<le> unat (bc_sync_interval_seconds cfg) * 100 div 100" by (intro div_le_mono) (auto intro: min.coboundedI2 mult_le_mono)
    with small have "unat (bc_sync_interval_seconds cfg) + ?d < 2 ^ 32" by simp
    from with_jitter_bounds(1) [OF rng this] show ?thesis .
  qed
  ultimately show ?thesis using key line sync by auto
qed

lemma session_inv:
  assumes "json_contract x" "\<And>n. rfc3339_range (se_clock env n)"
  shows "steps_within (inv_step x) (device_poll x up env call request)"
    and "steps_within (inv_step x) (whoami x up env call selector)"
proof -
  have ctx: "json_wf (session_context x env call p)" for p by (simp add: session_context_def)
  have wf: "json_wf (authorized_metadata p scope (session_context x env call p) subj)" for p scope subj
    unfolding authorized_metadata_def by (rule json_wf_json_object) (auto simp: ctx split: option.splits)
  have wf': "json_wf (json_object [(''provider'', JStr p), (''subject'', JStr s), (''client'', session_context x env call q)])" for p s q
    by (rule json_wf_json_object) (simp add: ctx)
  have app: "steps_within (inv_step x) (device_approved x up env call p token scope)" for p token scope
    unfolding device_approved_def Let_def
    by (intro handler_inv assms) (simp_all add: audit_now_def assms with_metadata_def new_entry_def wf)
  have case_outcome: "steps_within (inv_step x) (case o' of Pending \<Rightarrow> hreturn a | SlowDown \<Rightarrow> hreturn b | Expired \<Rightarrow> hreturn c
      | Denied \<Rightarrow> hreturn d | Approved t s \<Rightarrow> device_approved x up env call p t s)" for o' a b c d p
    by (cases o') (simp_all add: handler_inv app)
  show "steps_within (inv_step x) (device_poll x up env call request)"
    unfolding device_poll_def Let_def by (intro handler_inv case_outcome)
  show "steps_within (inv_step x) (whoami x up env call selector)"
    unfolding whoami_def Let_def
    by (intro handler_inv assms) (simp_all add: audit_now_def assms with_metadata_def new_entry_def wf')
qed

section \<open>Witnesses\<close>

definition approving_env :: server_env where
  "approving_env = demo_env\<lparr> se_registry := register (new_registry ''github'')
     ((github_provider demo_upstream demo_client)\<lparr> ap_fetch_identity := (\<lambda>_. Inr demo_authd),
        ap_poll_device_authorization := (\<lambda>_. Inr (Approved ''tok'' ''read:user'')) \<rparr>) \<rparr>"

theorem token_released_on_record_witness:
  "\<exists>resp db'. device_poll ref_externals True approving_env demo_call \<lparr> dpb_device_code = ''code'', dpb_provider = None \<rparr> demo_database
      = (Inr resp, db') \<and> por_access_token resp = Some ''tok'' \<and> length (db_audit db') = length (db_audit demo_database) + 1"
proof -
  let ?p = "(github_provider demo_upstream demo_client)\<lparr> ap_fetch_identity := (\<lambda>_. Inr demo_authd),
        ap_poll_device_authorization := (\<lambda>_. Inr (Approved ''tok'' ''read:user'')) \<rparr>"
  let ?run = "device_poll ref_externals True approving_env demo_call \<lparr> dpb_device_code = ''code'', dpb_provider = None \<rparr> demo_database"
  have p: "registry_resolve (se_registry approving_env) None = Inr ?p"
    by (simp add: approving_env_def demo_env_def registry_resolve_def selected_id_def registry_get_def register_def
        new_registry_def github_provider_def GITHUB_PROVIDER_ID_def Let_def)
  have code: "trim ''code'' = ''code''" by code_simp
  have "json_wf (authorized_metadata q scope (session_context ref_externals approving_env demo_call q) subj)" for q scope subj
    unfolding authorized_metadata_def session_context_def
    by (rule json_wf_json_object) (auto split: option.splits)
  then have wf: "json_wf (nae_metadata (with_metadata (authorized_metadata q scope
      (session_context ref_externals approving_env demo_call q) subj) (new_entry ev actor)))" for q scope subj ev actor
    by (simp add: with_metadata_def)
  have t: "rfc3339_range (audit_now approving_env)" by (simp add: audit_now_def approving_env_def demo_env_def demo_times)
  obtain db1 where "append_event ref_externals True (audit_now approving_env) (with_metadata (authorized_metadata (pm_id (ap_metadata ?p))
      ''read:user'' (session_context ref_externals approving_env demo_call (pm_id (ap_metadata ?p))) (Some (au_subject demo_authd)))
      (new_entry ''auth.device_authorized'' (au_username demo_authd))) demo_database = (Inr (), db1)"
    by (rule append_event_ok [OF ref_json_contract demo_database_inv wf t])
  then have "\<exists>resp db'. device_approved ref_externals True approving_env demo_call ?p ''tok'' ''read:user'' demo_database = (Inr resp, db')
      \<and> por_access_token resp = Some ''tok''"
    by (simp add: device_approved_def Let_def hbind_def hreturn_def approved_with_def)
  then obtain resp db' where r: "?run = (Inr resp, db')" "por_access_token resp = Some ''tok''"
    by (auto simp: device_poll_def hbind_pure p code ROUTE_MAX_DEVICE_CODE_LEN_def)
  from token_released_on_record [OF r(1)] r show ?thesis by auto
qed

theorem enrolled_machine_verifies_bundles_witness:
  "\<exists>db rq resp db' b line key.
     enroll_handler ref_externals (\<lambda>_. True) (Some (Inr ''ssh-ed25519 CA''))
       \<lparr> bc_sync_interval_seconds = 300, bc_jitter_percent = 10, bc_ttl_seconds = 3600, bc_signing_key_env = ''BUNDLE_SIGNING_KEY'' \<rparr> (\<lambda>n. n div 2) (Some demo_seed)
       ''u1'' 0 0 rq db = (Inr resp, db')
     \<and> build_signed_bundle ref_externals demo_bundle 0 = Inr b
     \<and> rs_bundle_signing_key resp = Some line \<and> from_openssh ref_externals line = Some key
     \<and> verify_signed_bundle ref_externals b (ssh_key_bytes key) (seconds 3600) = Inr () \<and> 1 \<le> unat (rs_sync_interval resp)"
proof -
  let ?cfg = "\<lparr> bc_sync_interval_seconds = 300, bc_jitter_percent = 10, bc_ttl_seconds = 3600, bc_signing_key_env = ''BUNDLE_SIGNING_KEY'' \<rparr>"
  obtain issued db1 where mint: "create_enrollment_token ref_externals True (replicate 32 0) ''t1'' 0
      empty_database ''admin'' (seconds 3600) True = (Inr issued, db1)" by (rule demo_minted)
  let ?rq = "demo_request (iet_plaintext issued)"
  have ok: "fst (enroll ref_externals (\<lambda>_. True) svc ''u1'' 0 0 db1 ?rq) = Inr (enroll_ok_response svc ''u1'')" for svc
    by (subst minted_token_outcome [OF ref_json_contract ref_rfc3339_contract ref_hex_contract _ _ _ _ _ mint
          demo_times(1,2,1), where pk = "''ssh-ed25519 AAAA''"])
      (simp_all add: empty_database_def TOKEN_ENTROPY_BYTES_def demo_request_def demo_key demo_hostname
        tokens_unique_def demo_times(3))
  obtain resp db' where e: "enroll_handler ref_externals (\<lambda>_. True) (Some (Inr ''ssh-ed25519 CA'')) ?cfg (\<lambda>n. n div 2)
      (Some demo_seed) ''u1'' 0 0 ?rq db1 = (Inr resp, db')"
    using ok by (simp add: enroll_handler_def Let_def) (metis prod.collapse)
  obtain b where b: "build_signed_bundle ref_externals demo_bundle 0 = Inr b"
    using demo_bundle_simps(3) by (simp add: build_signed_bundle_def Let_def canonical_message_def)
  have t: "seconds 3600 \<le> trunc_secs (0 + seconds (bs_ttl_seconds demo_bundle))"
    by (simp add: demo_bundle_simps trunc_secs_def seconds_def nanos_per_sec_def)
  have "\<exists>line key. rs_bundle_signing_key resp = Some line \<and> from_openssh ref_externals line = Some key
    \<and> verify_signed_bundle ref_externals b (ssh_key_bytes key) (seconds 3600) = Inr ()
    \<and> (unat (bc_sync_interval_seconds ?cfg) < 2 ^ 31 \<longrightarrow> 1 \<le> unat (rs_sync_interval resp))"
    by (rule enrolled_machine_verifies_bundles [OF ref_ed25519_contract ref_base64_contract ref_rfc3339_contract
          demo_bundle_key [unfolded demo_bundle_simps] _ e b demo_bundle_simps(1) demo_bundle_time t]) simp
  with e b show ?thesis by fastforce
qed

end
