(* ===== verification/Settings.thy ===== *)
theory Settings
  imports Sessions
begin

text \<open>
  Start-up: the secrets, the run mode and the configuration with its validation
  (\<^verbatim>\<open>secret.rs\<close>, \<^verbatim>\<open>environment.rs\<close>, \<^verbatim>\<open>config.rs\<close>), what \<^verbatim>\<open>main.rs\<close> and
  \<^verbatim>\<open>server.rs\<close> build from a configuration, and the identifiers of requests
  (\<^verbatim>\<open>request_id.rs\<close>).  The layered loader, the parser of log filters and the file system are
  parameters.
\<close>

section \<open>Secrets and the run mode\<close>

datatype 'a secret = Secret (expose_secret: 'a)

definition secret_debug :: "'a secret \<Rightarrow> string" where "secret_debug s = ''Secret(***)''"

definition secret_display :: "'a secret \<Rightarrow> string" where "secret_display s = ''***''"

definition secret_serialize :: "'a secret \<Rightarrow> json" where "secret_serialize s = JStr ''***''"

datatype environment = Production | Development

definition default_environment :: environment where "default_environment = Production"

fun is_development :: "environment \<Rightarrow> bool" where
  "is_development Development = True"
| "is_development Production = False"

fun is_production :: "environment \<Rightarrow> bool" where
  "is_production Production = True"
| "is_production Development = False"

fun environment_label :: "environment \<Rightarrow> string" where
  "environment_label Production = ''Production''"
| "environment_label Development = ''Development''"

section \<open>The configuration\<close>

type_synonym path = string

datatype config_error = ConfigLoad string | ConfigValidation string

datatype log_format = Pretty | Json

datatype selection_strategy = Random

record tls_config =
  tl_enabled :: bool
  tl_cert_path :: "path option"
  tl_key_path :: "path option"

record server_config =
  sc_host :: string
  sc_port :: "16 word"
  sc_tls :: tls_config

record database_config =
  dc_url :: string
  dc_max_connections :: u32

record logging_config =
  lc_format :: log_format
  lc_level :: string

record github_config =
  gh_client_id :: string
  gh_client_secret :: "string secret option"
  gh_scopes :: string
  gh_device_base_url :: string
  gh_api_base_url :: string

record keycloak_section =
  ks_issuer_url :: string
  ks_client_id :: string
  ks_client_secret :: "string secret option"
  ks_scopes :: string
  ks_audience :: "string option"
  ks_clock_skew_seconds :: nat

record ca_config =
  cc_storage_directory :: string
  cc_selection_strategy :: selection_strategy
  cc_auto_load :: bool
  cc_passphrase_env :: string

record config =
  cf_environment :: environment
  cf_server :: server_config
  cf_database :: database_config
  cf_logging :: logging_config
  cf_github :: github_config
  cf_keycloak :: "keycloak_section option"
  cf_default_provider :: "string option"
  cf_ca :: ca_config
  cf_bundle :: bundle_config
  cf_access :: access_config

definition default_tls :: tls_config where
  "default_tls = \<lparr> tl_enabled = True, tl_cert_path = None, tl_key_path = None \<rparr>"

definition default_server :: server_config where
  "default_server = \<lparr> sc_host = ''127.0.0.1'', sc_port = 8443, sc_tls = default_tls \<rparr>"

definition default_database :: database_config where
  "default_database = \<lparr> dc_url = ''sqlite://mayfly.db'', dc_max_connections = 5 \<rparr>"

definition default_logging :: logging_config where
  "default_logging = \<lparr> lc_format = Pretty, lc_level = ''info'' \<rparr>"

definition default_github :: github_config where
  "default_github = \<lparr> gh_client_id = [], gh_client_secret = None, gh_scopes = ''read:user user:email'',
     gh_device_base_url = ''https://github.com'', gh_api_base_url = ''https://api.github.com'' \<rparr>"

definition default_ca :: ca_config where
  "default_ca = \<lparr> cc_storage_directory = ''./ca'', cc_selection_strategy = Random, cc_auto_load = True,
     cc_passphrase_env = ''CA_STORAGE_PASSPHRASE'' \<rparr>"

definition default_bundle :: bundle_config where
  "default_bundle = \<lparr> bc_sync_interval_seconds = 300, bc_jitter_percent = 10, bc_ttl_seconds = 3600,
     bc_signing_key_env = ''BUNDLE_SIGNING_KEY'' \<rparr>"

definition default_config :: config where
  "default_config = \<lparr> cf_environment = default_environment, cf_server = default_server, cf_database = default_database,
     cf_logging = default_logging, cf_github = default_github, cf_keycloak = None, cf_default_provider = None,
     cf_ca = default_ca, cf_bundle = default_bundle, cf_access = default_access \<rparr>"

definition github_secret_value :: "github_config \<Rightarrow> string" where
  "github_secret_value g = (case gh_client_secret g of Some s \<Rightarrow> expose_secret s | None \<Rightarrow> [])"

definition keycloak_secret_value :: "keycloak_section \<Rightarrow> string option" where
  "keycloak_secret_value k =
     (case ks_client_secret k of
        Some s \<Rightarrow> if expose_secret s \<noteq> [] then Some (expose_secret s) else None
      | None \<Rightarrow> None)"

section \<open>Validation\<close>

definition ascii_upper :: "char \<Rightarrow> char" where
  "ascii_upper c = (if is_ascii_lowercase c then char_of (char_code c - 32) else c)"

definition to_ascii_uppercase :: "string \<Rightarrow> string" where
  "to_ascii_uppercase s = map ascii_upper s"

definition starts_with :: "string \<Rightarrow> string \<Rightarrow> bool" where
  "starts_with p s \<longleftrightarrow> strip_prefix p s \<noteq> None"

definition blank :: "string \<Rightarrow> bool" where
  "blank s \<longleftrightarrow> trim s = []"

definition reserved_env :: "string \<Rightarrow> bool" where
  "reserved_env name \<longleftrightarrow> starts_with ''MAYFLY_'' (to_ascii_uppercase (trim name))"

definition known_provider :: "config \<Rightarrow> string \<Rightarrow> bool" where
  "known_provider c p \<longleftrightarrow> p = ''github'' \<or> p = ''keycloak'' \<and> cf_keycloak c \<noteq> None"

definition quoted :: "string \<Rightarrow> string \<Rightarrow> string \<Rightarrow> string" where
  "quoted before value after = before @ [CHR 39] @ value @ [CHR 39] @ after"

definition validate_tls :: "config \<Rightarrow> (config_error, unit) result" where
  "validate_tls c =
     (let tls = sc_tls (cf_server c) in
      if tl_enabled tls \<and> is_production (cf_environment c) then
        rbind (ensure (tl_cert_path tls \<noteq> None)
          (ConfigValidation ''server.tls.cert_path is required when TLS is enabled in production'')) (\<lambda>_.
        ensure (tl_key_path tls \<noteq> None)
          (ConfigValidation ''server.tls.key_path is required when TLS is enabled in production''))
      else Inr ())"

definition validate_keycloak :: "config \<Rightarrow> (config_error, unit) result" where
  "validate_keycloak c =
     (case cf_keycloak c of
        None \<Rightarrow> Inr ()
      | Some k \<Rightarrow>
          rbind (ensure (\<not> blank (ks_issuer_url k))
            (ConfigValidation ''keycloak.issuer_url is required when keycloak is configured'')) (\<lambda>_.
          ensure (\<not> blank (ks_client_id k))
            (ConfigValidation ''keycloak.client_id is required when keycloak is configured'')))"

definition validate_default_provider :: "config \<Rightarrow> (config_error, unit) result" where
  "validate_default_provider c =
     (case cf_default_provider c of
        None \<Rightarrow> Inr ()
      | Some p \<Rightarrow> ensure (known_provider c p) (ConfigValidation (quoted ''default_provider '' p
          ('' is not a configured provider (expected '' @ quoted [] ''github'' '', or '' @ quoted [] ''keycloak'' '' with a [keycloak] section)''))))"

definition validate_ca :: "ca_config \<Rightarrow> (config_error, unit) result" where
  "validate_ca c =
     rbind (ensure (\<not> blank (cc_storage_directory c)) (ConfigValidation ''ca.storage_directory must not be empty'')) (\<lambda>_.
     rbind (ensure (\<not> blank (cc_passphrase_env c)) (ConfigValidation ''ca.passphrase_env must not be empty'')) (\<lambda>_.
     ensure (\<not> reserved_env (cc_passphrase_env c)) (ConfigValidation (quoted ''ca.passphrase_env '' (cc_passphrase_env c)
       ('' must not start with '' @ quoted [] ''MAYFLY_'' '': that prefix is reserved for configuration environment variables and would be intercepted by the config loader. Use a non-prefixed name such as ''
        @ quoted [] ''CA_STORAGE_PASSPHRASE'' ''.'')))))"

definition validate_bundle :: "bundle_config \<Rightarrow> (config_error, unit) result" where
  "validate_bundle b =
     rbind (ensure (bc_sync_interval_seconds b \<noteq> 0) (ConfigValidation ''bundle.sync_interval_seconds must be at least 1'')) (\<lambda>_.
     rbind (ensure (\<not> bc_jitter_percent b > 100) (ConfigValidation ''bundle.jitter_percent must be between 0 and 100'')) (\<lambda>_.
     rbind (ensure (bc_ttl_seconds b \<noteq> 0) (ConfigValidation ''bundle.ttl_seconds must be at least 1'')) (\<lambda>_.
     rbind (ensure (\<not> blank (bc_signing_key_env b)) (ConfigValidation ''bundle.signing_key_env must not be empty'')) (\<lambda>_.
     ensure (\<not> reserved_env (bc_signing_key_env b)) (ConfigValidation (quoted ''bundle.signing_key_env '' (bc_signing_key_env b)
       ('' must not start with '' @ quoted [] ''MAYFLY_'' '': that prefix is reserved for configuration environment variables. Use a non-prefixed name such as ''
        @ quoted [] ''BUNDLE_SIGNING_KEY'' ''.'')))))))"

text \<open>\<open>try_filter\<close> stands for \<^verbatim>\<open>EnvFilter::try_new\<close>: the text of the error, or None for a valid directive.\<close>

definition validate_config :: "(string \<Rightarrow> string option) \<Rightarrow> config \<Rightarrow> (config_error, unit) result" where
  "validate_config try_filter c =
     rbind (ensure (sc_port (cf_server c) \<noteq> 0) (ConfigValidation ''server.port must be between 1 and 65535'')) (\<lambda>_.
     rbind (ensure (\<not> blank (sc_host (cf_server c))) (ConfigValidation ''server.host must not be empty'')) (\<lambda>_.
     rbind (ensure (dc_max_connections (cf_database c) \<noteq> 0) (ConfigValidation ''database.max_connections must be at least 1'')) (\<lambda>_.
     rbind (ensure (\<not> blank (dc_url (cf_database c))) (ConfigValidation ''database.url must not be empty'')) (\<lambda>_.
     rbind (case try_filter (lc_level (cf_logging c)) of
              None \<Rightarrow> Inr ()
            | Some err \<Rightarrow> Inl (ConfigValidation (quoted ''logging.level '' (lc_level (cf_logging c)) ('' is not a valid filter: '' @ err)))) (\<lambda>_.
     rbind (validate_tls c) (\<lambda>_.
     rbind (ensure (\<not> blank (gh_client_id (cf_github c))) (ConfigValidation ''github.client_id is required'')) (\<lambda>_.
     rbind (ensure (case gh_client_secret (cf_github c) of Some s \<Rightarrow> \<not> blank (expose_secret s) | None \<Rightarrow> False) (ConfigValidation ''github.client_secret is required'')) (\<lambda>_.
     rbind (validate_keycloak c) (\<lambda>_.
     rbind (validate_default_provider c) (\<lambda>_.
     rbind (validate_ca (cf_ca c)) (\<lambda>_.
     validate_bundle (cf_bundle c))))))))))))"

text \<open>Loading: \<open>extract\<close> stands for the layers of defaults, file and environment.\<close>

definition from_figment :: "(string \<Rightarrow> string option) \<Rightarrow> (string, config) result \<Rightarrow> (config_error, config) result" where
  "from_figment try_filter extracted =
     rbind (map_err ConfigLoad extracted) (\<lambda>c.
     rbind (validate_config try_filter c) (\<lambda>_. Inr c))"

definition load_config ::
  "(string \<Rightarrow> string option) \<Rightarrow> (path \<Rightarrow> bool) \<Rightarrow> (path \<Rightarrow> (string, config) result) \<Rightarrow> path \<Rightarrow> bool \<Rightarrow> (config_error, config) result" where
  "load_config try_filter file_exists extract p required =
     (if required \<and> \<not> file_exists p
      then Inl (ConfigValidation (quoted ''configuration file '' p '' was specified but does not exist''))
      else from_figment try_filter (extract p))"

section \<open>What start-up builds from a configuration\<close>

definition DEFAULT_CONFIG_PATH :: path where "DEFAULT_CONFIG_PATH = ''config.yaml''"

definition config_location :: "string option \<Rightarrow> path \<times> bool" where
  "config_location mayfly_config =
     (case mayfly_config of
        Some p \<Rightarrow> if \<not> blank p then (p, True) else (DEFAULT_CONFIG_PATH, False)
      | None \<Rightarrow> (DEFAULT_CONFIG_PATH, False))"

definition github_from_config :: "github_config \<Rightarrow> github_client" where
  "github_from_config g =
     new_github_client (gh_client_id g) (github_secret_value g) (gh_scopes g) (gh_device_base_url g) (gh_api_base_url g)"

definition keycloak_settings :: "keycloak_section \<Rightarrow> keycloak_config" where
  "keycloak_settings k =
     \<lparr> kcc_issuer_url = ks_issuer_url k, kcc_client_id = ks_client_id k, kcc_client_secret = keycloak_secret_value k,
       kcc_scopes = (if blank (ks_scopes k) then ''openid profile email'' else ks_scopes k),
       kcc_audience = ks_audience k, kcc_clock_skew_secs = ks_clock_skew_seconds k \<rparr>"

text \<open>The registry of the running server; \<open>keycloak\<close> builds the provider from its settings.\<close>

definition startup_registry :: "upstream \<Rightarrow> (keycloak_config \<Rightarrow> auth_provider) \<Rightarrow> config \<Rightarrow> provider_registry" where
  "startup_registry u keycloak c =
     state_providers (cf_default_provider c) (github_provider u (github_from_config (cf_github c)))
       (case cf_keycloak c of None \<Rightarrow> [] | Some k \<Rightarrow> [keycloak (keycloak_settings k)])"

text \<open>Which certificate the listener serves.\<close>

datatype tls_material = PemFiles path path | DevCertificate

definition resolve_tls :: "config \<Rightarrow> tls_material" where
  "resolve_tls c =
     (case (tl_cert_path (sc_tls (cf_server c)), tl_key_path (sc_tls (cf_server c))) of
        (Some cert, Some key) \<Rightarrow> PemFiles cert key
      | _ \<Rightarrow> DevCertificate)"

definition socket_addr :: "(string \<Rightarrow> 'ip option) \<Rightarrow> config \<Rightarrow> (string, 'ip \<times> 16 word) result" where
  "socket_addr parse_ip c =
     (case parse_ip (sc_host (cf_server c)) of
        Some ip \<Rightarrow> Inr (ip, sc_port (cf_server c))
      | None \<Rightarrow> Inl (quoted ''invalid bind host '' (sc_host (cf_server c)) '': expected an IP address''))"

section \<open>Request identifiers\<close>

definition REQUEST_ID_HEADER :: string where "REQUEST_ID_HEADER = ''x-request-id''"
definition MAX_REQUEST_ID_LEN :: nat where "MAX_REQUEST_ID_LEN = 128"

definition is_acceptable_id :: "string \<Rightarrow> bool" where
  "is_acceptable_id candidate \<longleftrightarrow> candidate \<noteq> [] \<and> length candidate \<le> MAX_REQUEST_ID_LEN
     \<and> list_all (\<lambda>b. is_ascii_alphanumeric b \<or> b = CHR ''-'') candidate"

definition upstream_request_id :: "headers \<Rightarrow> string option" where
  "upstream_request_id h =
     (case header_str h REQUEST_ID_HEADER of
        Some candidate \<Rightarrow> if is_acceptable_id candidate then Some candidate else None
      | None \<Rightarrow> None)"

record span =
  sp_request_id :: string
  sp_upstream_request_id :: string

text \<open>The middleware: \<open>value_ok\<close> is \<^verbatim>\<open>HeaderValue::from_str\<close>, \<open>uuid\<close> the fresh identifier, \<open>run\<close> the inner service, which sees it as its request
  extension; the result is the span that tags the logs and the response with its headers.\<close>

definition propagate_request_id ::
  "(string \<Rightarrow> bool) \<Rightarrow> string \<Rightarrow> headers \<Rightarrow> (string \<Rightarrow> 'b \<times> headers) \<Rightarrow> span \<times> 'b \<times> headers" where
  "propagate_request_id value_ok uuid h run =
     (let upstream = upstream_request_id h;
          (body, hs) = run uuid
      in (\<lparr> sp_request_id = uuid, sp_upstream_request_id = (case upstream of Some v \<Rightarrow> v | None \<Rightarrow> ''none'') \<rparr>, body,
          if value_ok uuid
          then (REQUEST_ID_HEADER, uuid) # filter (\<lambda>(k, _). k \<noteq> REQUEST_ID_HEADER) hs else hs))"

section \<open>Properties\<close>

lemma request_span_clean:
  assumes "propagate_request_id value_ok uuid h run = (s, b, hs)"
  shows "sp_request_id s = uuid" "b = fst (run uuid)"
    "value_ok uuid \<Longrightarrow> map_of hs REQUEST_ID_HEADER = Some uuid"
    "is_acceptable_id (sp_upstream_request_id s)"
  using assms
  by (auto simp: propagate_request_id_def upstream_request_id_def is_acceptable_id_def MAX_REQUEST_ID_LEN_def
      is_ascii_alphanumeric_def is_ascii_lowercase_def char_code_def split: prod.splits if_splits option.splits)

lemma validate_config_Inr:
  assumes "validate_config try_filter c = Inr u"
  shows "validate_tls c = Inr ()" "validate_default_provider c = Inr ()" "validate_ca (cf_ca c) = Inr ()"
    "validate_bundle (cf_bundle c) = Inr ()" "\<not> blank (github_secret_value (cf_github c))"
  using assms
  by (auto simp: validate_config_def result_simps github_secret_value_def split: option.splits)

lemma startup_registry_default:
  assumes "validate_default_provider c = Inr ()"
  shows "\<exists>p. registry_resolve (startup_registry u (\<lambda>k. keycloak_provider u k discovered verified verified') c) None = Inr p
     \<and> pm_id (ap_metadata p) = (case cf_default_provider c of Some d \<Rightarrow> d | None \<Rightarrow> ''github'')"
proof -
  let ?d = "case cf_default_provider c of Some d \<Rightarrow> d | None \<Rightarrow> ''github''"
  have known: "known_provider c ?d"
    using assms by (auto simp: validate_default_provider_def known_provider_def split: option.splits)
  have default: "pr_default_id (register reg p) = pr_default_id reg" for reg p
    by (simp add: register_def Let_def)
  from known show ?thesis
    by (auto simp: registry_resolve_def startup_registry_def state_providers_def selected_id_def default register_get
        known_provider_def github_provider_def keycloak_provider_def GITHUB_PROVIDER_ID_def KEYCLOAK_PROVIDER_ID_def
        new_registry_def split: option.splits if_splits)
qed

lemma poll_interval_spread:
  assumes "validate_bundle b = Inr ()" and "\<And>n. 0 < n \<Longrightarrow> rng n < n" and "unat (bc_sync_interval_seconds b) < 2 ^ 31"
  defines "base \<equiv> unat (bc_sync_interval_seconds b)" and "pct \<equiv> unat (bc_jitter_percent b)"
  shows "1 \<le> unat (with_jitter (bc_sync_interval_seconds b) (bc_jitter_percent b) rng)"
    "base - base * pct div 100 \<le> unat (with_jitter (bc_sync_interval_seconds b) (bc_jitter_percent b) rng)"
    "unat (with_jitter (bc_sync_interval_seconds b) (bc_jitter_percent b) rng) \<le> base + base * pct div 100"
proof -
  have valid: "bc_sync_interval_seconds b \<noteq> 0" "\<not> 100 < bc_jitter_percent b"
    using assms(1) by (auto simp: validate_bundle_def result_simps)
  then have pct: "pct \<le> 100" by (simp add: pct_def word_less_nat_alt)
  let ?d = "min (2 ^ 32 - 1) (base * min pct 100) div 100"
  have d: "?d \<le> base * pct div 100" using pct by (intro div_le_mono) simp
  also have "\<dots> \<le> base * 100 div 100" using pct by (intro div_le_mono mult_le_mono2)
  finally have "base + ?d < 2 ^ 32" using assms(3) by (simp add: base_def)
  then have room: "unat (bc_sync_interval_seconds b) + min (2 ^ 32 - 1) (unat (bc_sync_interval_seconds b) * min (unat (bc_jitter_percent b)) 100) div 100 < 2 ^ 32"
    by (simp add: base_def pct_def)
  show "1 \<le> unat (with_jitter (bc_sync_interval_seconds b) (bc_jitter_percent b) rng)"
    by (rule with_jitter_bounds(1) [OF _ room]) (rule assms(2))
  note spread = with_jitter_bounds(2) [OF assms(2) room valid(1)]
  show "base - base * pct div 100 \<le> unat (with_jitter (bc_sync_interval_seconds b) (bc_jitter_percent b) rng)"
    "unat (with_jitter (bc_sync_interval_seconds b) (bc_jitter_percent b) rng) \<le> base + base * pct div 100"
    using spread d unfolding base_def pct_def by linarith+
qed

text \<open>
  C40. A configuration with which the server starts is usable.  An operator's explicit file was not silently skipped; in
  production with TLS enabled the listener serves the operator's certificate; the default provider is one that is
  registered, so that a login without a provider name resolves; the client secret of GitHub is present; and every poll
  interval handed to an agent is at least one second and lies within the configured percentage of the configured interval
  (below 2 to the 31 seconds, where the machine arithmetic cannot leave its range).
\<close>

theorem loaded_configuration_usable:
  assumes loaded: "load_config try_filter file_exists extract p required = Inr c"
    and rng: "\<forall>n > 0. rng n < n"
  shows "(required \<longrightarrow> file_exists p)
    \<and> (is_production (cf_environment c) \<and> tl_enabled (sc_tls (cf_server c)) \<longrightarrow>
         (\<exists>cert key. tl_cert_path (sc_tls (cf_server c)) = Some cert \<and> tl_key_path (sc_tls (cf_server c)) = Some key
            \<and> resolve_tls c = PemFiles cert key))
    \<and> (\<exists>provider. registry_resolve (startup_registry u (\<lambda>k. keycloak_provider u k discovered verified verified') c) None = Inr provider
         \<and> pm_id (ap_metadata provider) = (case cf_default_provider c of Some d \<Rightarrow> d | None \<Rightarrow> ''github''))
    \<and> gc_client_secret (github_from_config (cf_github c)) \<noteq> []
    \<and> (let base = unat (bc_sync_interval_seconds (cf_bundle c)); pct = unat (bc_jitter_percent (cf_bundle c));
           interval = unat (with_jitter (bc_sync_interval_seconds (cf_bundle c)) (bc_jitter_percent (cf_bundle c)) rng)
       in pct \<le> 100 \<and> (base < 2 ^ 31 \<longrightarrow> 1 \<le> interval \<and> base - base * pct div 100 \<le> interval \<and> interval \<le> base + base * pct div 100))"
proof -
  from loaded have seen: "required \<longrightarrow> file_exists p" and valid: "validate_config try_filter c = Inr ()"
    by (auto simp: load_config_def from_figment_def result_simps split: if_splits)
  note checks = validate_config_Inr [OF valid]
  have tls: "is_production (cf_environment c) \<and> tl_enabled (sc_tls (cf_server c)) \<longrightarrow>
      (\<exists>cert key. tl_cert_path (sc_tls (cf_server c)) = Some cert \<and> tl_key_path (sc_tls (cf_server c)) = Some key
         \<and> resolve_tls c = PemFiles cert key)"
    using checks(1) by (auto simp: validate_tls_def resolve_tls_def Let_def result_simps split: option.splits)
  have secret: "gc_client_secret (github_from_config (cf_github c)) \<noteq> []"
    using checks(5) trim_length_le [of "[]"] by (auto simp: github_from_config_def new_github_client_def blank_def)
  have pct: "unat (bc_jitter_percent (cf_bundle c)) \<le> 100"
    using checks(4) by (auto simp: validate_bundle_def result_simps word_less_nat_alt)
  have rng': "rng n < n" if "0 < n" for n using rng that by blast
  show ?thesis
    unfolding Let_def
    using seen tls secret pct startup_registry_default [OF checks(2)] poll_interval_spread [OF checks(4) rng']
    by blast
qed

definition demo_config :: config where
  "demo_config = default_config\<lparr>
     cf_server := default_server\<lparr> sc_tls := default_tls\<lparr> tl_cert_path := Some ''c.pem'', tl_key_path := Some ''k.pem'' \<rparr> \<rparr>,
     cf_github := default_github\<lparr> gh_client_id := ''Iv1.x'', gh_client_secret := Some (Secret ''s'') \<rparr> \<rparr>"

lemma demo_config_valid: "validate_config (\<lambda>_. None) demo_config = Inr ()"
  by code_simp

theorem loaded_configuration_usable_witness:
  "load_config (\<lambda>_. None) (\<lambda>_. True) (\<lambda>_. Inr demo_config) ''mayfly.yaml'' True = Inr demo_config
    \<and> resolve_tls demo_config = PemFiles ''c.pem'' ''k.pem''
    \<and> 270 \<le> unat (with_jitter 300 10 (\<lambda>n. n div 2)) \<and> unat (with_jitter 300 10 (\<lambda>n. n div 2)) \<le> 330"
proof -
  have loaded: "load_config (\<lambda>_. None) (\<lambda>_. True) (\<lambda>_. Inr demo_config) ''mayfly.yaml'' True = Inr demo_config"
    by (simp add: load_config_def from_figment_def demo_config_valid)
  have "\<forall>n > 0. n div 2 < (n :: nat)" by simp
  from loaded_configuration_usable [OF loaded this, where u = demo_upstream and discovered = undefined and verified = undefined
      and verified' = undefined]
  show ?thesis
    using loaded
    by (simp add: Let_def demo_config_def default_config_def default_bundle_def default_environment_def default_server_def default_tls_def)
qed

text \<open>
  The comment in \<^verbatim>\<open>resolve_tls_config\<close> relies on validation for the development certificate never being served in
  production.  Validation looks at the certificate paths only when TLS is enabled, and the listener speaks TLS in either case.
\<close>

lemma development_certificate_in_production:
  "\<exists>c. validate_config (\<lambda>_. None) c = Inr () \<and> is_production (cf_environment c) \<and> resolve_tls c = DevCertificate"
proof -
  let ?c = "demo_config\<lparr> cf_server := default_server\<lparr> sc_tls := default_tls\<lparr> tl_enabled := False \<rparr> \<rparr> \<rparr>"
  have "validate_config (\<lambda>_. None) ?c = Inr ()" "is_production (cf_environment ?c)" "resolve_tls ?c = DevCertificate"
    by code_simp+
  then show ?thesis by blast
qed

end
