(* ===== verification/Server.thy ===== *)
theory Server
  imports Ops Settings
begin

text \<open>
  The running server: the agent endpoints behind the signature middleware, and the router as a step relation over the state that
  requests share (database, certificate manager, nonce cache, metrics), with one rule for each route
  (\<^verbatim>\<open>routes/mod.rs\<close>).  What the web framework does with a body is a parameter of the agent endpoints.
\<close>

section \<open>The signed agent routes\<close>

datatype agent_route = HeartbeatRoute | BundleRoute | AckRoute

definition API_V1 :: string where "API_V1 = ''/api/v1''"

definition agent_route_of :: "string \<Rightarrow> agent_route option" where
  "agent_route_of p =
     (if p = API_V1 @ ''/agent/heartbeat'' then Some HeartbeatRoute
      else if p = API_V1 @ ''/agent/ca-bundle'' then Some BundleRoute
      else if p = API_V1 @ ''/agent/ca-bundle/ack'' then Some AckRoute
      else None)"

fun agent_method :: "agent_route \<Rightarrow> string \<Rightarrow> bool" where
  "agent_method BundleRoute m = (m = ''GET'' \<or> m = ''HEAD'')"
| "agent_method _ m = (m = ''POST'')"

text \<open>The decoders of the two request bodies, and which texts may be header values.\<close>

record agent_codec =
  ac_heartbeat :: "byte list \<Rightarrow> heartbeat_request option"
  ac_ack :: "byte list \<Rightarrow> bundle_ack_request option"
  ac_header_value :: "string \<Rightarrow> bool"

datatype agent_io = AgLookup | AgRecord | AgAudit

datatype agent_reply =
    Beat heartbeat_response | Bundle bundle_reply | Acked bundle_ack_response
  | Failed api_error | BadBody | WrongMethod | NoRoute

definition reply_with :: "('a \<Rightarrow> agent_reply) \<Rightarrow> (api_error, 'a) result \<times> database \<Rightarrow> agent_reply \<times> database" where
  "reply_with f = (\<lambda>(r, db). (case r of Inl e \<Rightarrow> Failed e | Inr v \<Rightarrow> f v, db))"

definition body_of :: "signed_request \<Rightarrow> byte list" where
  "body_of req = (case sr_body req of Some b \<Rightarrow> b | None \<Rightarrow> [])"

fun ack_io_of :: "(agent_io \<Rightarrow> bool) \<Rightarrow> ack_io \<Rightarrow> bool" where
  "ack_io_of io AckRecord = io AgRecord"
| "ack_io_of io AckAudit = io AgAudit"

fun handle_agent ::
  "externals \<Rightarrow> agent_codec \<Rightarrow> (agent_io \<Rightarrow> bool) \<Rightarrow> (nat \<Rightarrow> instant) \<Rightarrow> bundle_service option \<Rightarrow> agent_route \<Rightarrow> signed_request
     \<Rightarrow> machine \<Rightarrow> database \<Rightarrow> agent_reply \<times> database" where
  "handle_agent x codec io clock service HeartbeatRoute req m db =
     (case ac_heartbeat codec (body_of req) of
        None \<Rightarrow> (BadBody, db)
      | Some r \<Rightarrow> reply_with Beat (heartbeat x (io AgRecord) (clock 1) m r db))"
| "handle_agent x codec io clock service BundleRoute req m db =
     reply_with Bundle (get_ca_bundle x (ac_header_value codec) (io AgAudit) (clock 1) (clock 2) service m (sr_headers req) db)"
| "handle_agent x codec io clock service AckRoute req m db =
     (case ac_ack codec (body_of req) of
        None \<Rightarrow> (BadBody, db)
      | Some a \<Rightarrow> reply_with Acked (ack_ca_bundle x (ack_io_of io) (clock 1) (clock 2) service m a db))"

text \<open>
  One request to the agent routes: the middleware runs for every method of a known path, the method is matched after it, and
  the handler sees the machine the middleware authenticated.
\<close>

definition serve_agent ::
  "externals \<Rightarrow> agent_codec \<Rightarrow> (agent_io \<Rightarrow> bool) \<Rightarrow> (nat \<Rightarrow> instant) \<Rightarrow> bundle_service option \<Rightarrow> signed_request
     \<Rightarrow> database \<times> nonce_cache \<Rightarrow> agent_reply \<times> database \<times> nonce_cache" where
  "serve_agent x codec io clock service req = (\<lambda>(db, cache).
     case agent_route_of (sr_path req) of
       None \<Rightarrow> (NoRoute, db, cache)
     | Some route \<Rightarrow>
         (case verify_machine_signature x (io AgLookup) (db_machines db) (clock 0) cache req of
            (Inl e, cache') \<Rightarrow> (Failed e, db, cache')
          | (Inr m, cache') \<Rightarrow>
              if \<not> agent_method route (sr_method req) then (WrongMethod, db, cache')
              else let (reply, db') = handle_agent x codec io clock service route req m db in (reply, db', cache')))"

section \<open>What an agent can change\<close>

text \<open>The part of a machine that belongs to the administrators.\<close>

definition same_identity :: "machine \<Rightarrow> machine \<Rightarrow> bool" where
  "same_identity m m' \<longleftrightarrow> m_machine_id m' = m_machine_id m \<and> m_status m' = m_status m \<and> m_public_key m' = m_public_key m
     \<and> m_hostname m' = m_hostname m \<and> m_enrolled_at m' = m_enrolled_at m"

text \<open>A change of the database that one machine may make.\<close>

definition own_change :: "externals \<Rightarrow> string \<Rightarrow> database \<Rightarrow> database \<Rightarrow> bool" where
  "own_change x i db db' \<longleftrightarrow> database_inv x db' \<and> db_tokens db' = db_tokens db \<and> (\<exists>rows. db_audit db' = db_audit db @ rows)
     \<and> (\<forall>j. case find_by_id x (db_machines db) j of
              Inr (Some m) \<Rightarrow> \<exists>m'. find_by_id x (db_machines db') j = Inr (Some m') \<and> same_identity m m' \<and> (m' \<noteq> m \<longrightarrow> j = i)
            | r \<Rightarrow> find_by_id x (db_machines db') j = r)"

lemma own_change_refl: "database_inv x db \<Longrightarrow> own_change x i db db"
  by (auto simp: own_change_def same_identity_def split: sum.splits option.splits)

lemma own_changeI:
  assumes "database_inv x db'" "db_tokens db' = db_tokens db" "\<exists>rows. db_audit db' = db_audit db @ rows"
    and "\<And>j. \<exists>f. find_by_id x (db_machines db') j = rbind (find_by_id x (db_machines db) j) (\<lambda>m. Inr (map_option f m))
      \<and> (\<forall>m. same_identity m (f m)) \<and> (j \<noteq> i \<longrightarrow> f = id)"
  shows "own_change x i db db'"
  unfolding own_change_def
proof (intro conjI allI)
  fix j
  obtain f where f: "find_by_id x (db_machines db') j = rbind (find_by_id x (db_machines db) j) (\<lambda>m. Inr (map_option f m))"
    "\<forall>m. same_identity m (f m)" "j \<noteq> i \<longrightarrow> f = id"
    using assms(4) by blast
  show "case find_by_id x (db_machines db) j of
      Inr (Some m) \<Rightarrow> \<exists>m'. find_by_id x (db_machines db') j = Inr (Some m') \<and> same_identity m m' \<and> (m' \<noteq> m \<longrightarrow> j = i)
    | r \<Rightarrow> find_by_id x (db_machines db') j = r"
    using f by (auto split: sum.splits option.splits)
qed (use assms in auto)

lemma heartbeat_own_change:
  assumes inv: "database_inv x db" and t: "rfc3339_range now" and h: "heartbeat x up now m r db = (res, db')"
  shows "own_change x (m_machine_id m) db db'"
proof -
  obtain q tbl where q: "record_heartbeat x up (db_machines db) (m_machine_id m) r now = (q, tbl)" by force
  have db': "db' = db\<lparr> db_machines := tbl \<rparr>" using h q by (simp add: heartbeat_def)
  have inv': "database_inv x db'"
    using heartbeat_inv [OF t, of x up m r] inv h unfolding steps_within_def inv_step_def by (metis snd_conv)
  have mi: "machines_inv x (db_machines db)" using inv by (simp add: database_inv_def)
  have "\<exists>f. find_by_id x tbl j = rbind (find_by_id x (db_machines db) j) (\<lambda>m. Inr (map_option f m))
      \<and> (\<forall>m. same_identity m (f m)) \<and> (j \<noteq> m_machine_id m \<longrightarrow> f = id)" for j
    using mi t q
  proof (cases rule: record_heartbeat_cases)
    case (failed e)
    then show ?thesis
      by (intro exI [where x = id])
        (simp add: sqlite_machines.by_id [OF mi] sqlite_machines.by_id [OF failed(2)] same_identity_def option.map_id)
  next
    case (recorded k)
    have "find (\<lambda>m. m_machine_id m = j) (update_where (\<lambda>m. m_machine_id m = i) (seen_machine r now) ms) =
        map_option (if j = i then seen_machine r now else id) (find (\<lambda>m. m_machine_id m = j) ms)" for i ms
      by (induction ms) (auto simp: update_where_def seen_machine_def)
    then show ?thesis
      by (intro exI [where x = "if j = m_machine_id m then seen_machine r now else id"])
        (simp add: sqlite_machines.by_id [OF mi] sqlite_machines.by_id [OF recorded(5)] recorded(6) same_identity_def seen_machine_def)
  qed
  then show ?thesis using inv' by (intro own_changeI) (auto simp: db')
qed

lemma rbind_Inr_right [simp]: "rbind r Inr = r"
  by (cases r) simp_all

definition only_logs :: "database \<Rightarrow> database \<Rightarrow> bool" where
  "only_logs db db' \<longleftrightarrow> db_machines db' = db_machines db \<and> db_tokens db' = db_tokens db \<and> (\<exists>rows. db_audit db' = db_audit db @ rows)"

lemma only_logs_order: "reflp only_logs" "transp only_logs"
  by (auto simp: only_logs_def intro!: reflpI transpI)

lemma append_event_only_logs: "steps_within only_logs (append_event x up now event)"
  unfolding steps_within_def
proof
  fix db
  obtain r db' where e: "append_event x up now event db = (r, db')" by force
  then have "only_logs db db'" by (cases rule: append_event_cases) (auto simp: only_logs_def)
  with e show "only_logs db (snd (append_event x up now event db))" by simp
qed

lemma get_ca_bundle_only_logs: "steps_within only_logs (get_ca_bundle x value_ok up now audited_at service m h)"
  unfolding get_ca_bundle_def Let_def
  by (intro steps_within_hbind [OF only_logs_order(2)] steps_within_pure [OF only_logs_order(1)] steps_within_if
      append_event_only_logs)

lemma bundle_own_change:
  assumes "database_inv x db" "json_contract x" "rfc3339_range audited_at"
    and "get_ca_bundle x value_ok up now audited_at service m h db = (res, db')"
  shows "own_change x i db db'"
proof -
  have "only_logs db db'" using get_ca_bundle_only_logs assms(4) unfolding steps_within_def by (metis snd_conv)
  moreover have "database_inv x db'"
    using get_ca_bundle_inv [OF assms(2,3)] assms(1,4) unfolding steps_within_def inv_step_def by (metis snd_conv)
  ultimately show ?thesis
    by (intro own_changeI) (auto simp: only_logs_def same_identity_def option.map_id intro!: exI [where x = id] split: sum.splits)
qed

lemma ack_own_change:
  assumes "database_inv x db" "json_contract x" "rfc3339_range now" "rfc3339_range audited_at"
    and a: "ack_ca_bundle x io now audited_at service m ack db = (res, db')"
  shows "own_change x (m_machine_id m) db db'"
proof -
  have inv': "database_inv x db'"
    using ack_ca_bundle_inv [OF assms(2-4)] assms(1) a unfolding steps_within_def inv_step_def by (metis snd_conv)
  note frame = ack_ca_bundle_frame [OF assms(1,3) a]
  have "\<exists>f. find_by_id x (db_machines db') j = rbind (find_by_id x (db_machines db) j) (\<lambda>k. Inr (map_option f k))
      \<and> (\<forall>k. same_identity k (f k)) \<and> (j \<noteq> m_machine_id m \<longrightarrow> f = id)" for j
  proof -
    obtain up' where "find_by_id x (db_machines db') j = rbind (find_by_id x (db_machines db) j) (\<lambda>k. Inr (map_option (\<lambda>k.
            if up' \<and> j = m_machine_id m then synced (bar_generation ack) (trim (bar_fingerprint ack)) now k else k) k))"
      using frame by blast
    then show ?thesis
      by (intro exI [where x = "\<lambda>k. if up' \<and> j = m_machine_id m then synced (bar_generation ack) (trim (bar_fingerprint ack)) now k else k"])
        (auto simp: same_identity_def synced_def)
  qed
  with inv' frame show ?thesis by (intro own_changeI) auto
qed

lemma reply_with_state: "snd (reply_with f p) = snd p"
  by (simp add: reply_with_def split: prod.splits)

lemma handle_agent_own_change:
  assumes "database_inv x db" "json_contract x" "\<And>n. rfc3339_range (clock n)"
    and "handle_agent x codec io clock service route req m db = (reply, db')"
  shows "own_change x (m_machine_id m) db db'"
proof (cases route)
  case HeartbeatRoute
  have "own_change x (m_machine_id m) db (snd (heartbeat x (io AgRecord) (clock 1) m r db))" for r
    by (rule heartbeat_own_change [OF assms(1,3) prod.collapse [symmetric]])
  then have "own_change x (m_machine_id m) db (snd (handle_agent x codec io clock service HeartbeatRoute req m db))"
    using own_change_refl [OF assms(1)] by (simp add: reply_with_state split: option.split)
  with HeartbeatRoute assms(4) show ?thesis by simp
next
  case BundleRoute
  with assms(4) have "\<exists>res. get_ca_bundle x (ac_header_value codec) (io AgAudit) (clock 1) (clock 2) service m (sr_headers req) db = (res, db')"
    by simp (metis prod.collapse reply_with_state snd_conv)
  with assms(1-3) show ?thesis by (auto intro: bundle_own_change)
next
  case AckRoute
  with assms(4) have "db' = db \<or> (\<exists>a res. ack_ca_bundle x (ack_io_of io) (clock 1) (clock 2) service m a db = (res, db'))"
    by (auto split: option.splits) (metis prod.collapse reply_with_state snd_conv)
  with assms(1-3) show ?thesis by (auto intro: own_change_refl ack_own_change)
qed

text \<open>A request that the middleware does not let through has one of these replies and leaves the database alone.\<close>

definition turned_away :: "agent_reply \<Rightarrow> bool" where
  "turned_away reply \<longleftrightarrow> reply = NoRoute \<or> (\<exists>e. reply = Failed e)"

lemma serve_agent_cases:
  assumes "serve_agent x codec io clock service req (db, c) = (reply, db', c')"
  obtains (refused) "db' = db" "turned_away reply"
  | (admitted) mid ts nonce m where "authentic x (db_machines db) (clock 0) req mid ts nonce m" "\<not> nonce_blocked c (mid, nonce) (clock 0)"
      "db' = db \<or> (\<exists>route. handle_agent x codec io clock service route req m db = (reply, db')
         \<and> agent_route_of (sr_path req) = Some route \<and> agent_method route (sr_method req))"
proof (cases "agent_route_of (sr_path req)")
  case None
  with assms refused show thesis by (simp add: serve_agent_def turned_away_def)
next
  case (Some route)
  obtain r c1 where v: "verify_machine_signature x (io AgLookup) (db_machines db) (clock 0) c req = (r, c1)" by force
  show thesis
  proof (cases r)
    case (Inl e)
    with assms Some v have "db' = db" "reply = Failed e" by (simp_all add: serve_agent_def)
    with refused show thesis by (simp add: turned_away_def)
  next
    case (Inr m)
    with v obtain mid ts nonce where a: "authentic x (db_machines db) (clock 0) req mid ts nonce m"
      "check_and_record c mid nonce (clock 0) = (True, c1)" by (auto simp: verify_accepts_iff)
    have "\<not> nonce_blocked c (mid, nonce) (clock 0)"
      using in_memory_nonces.rec_fresh [of c mid nonce "clock 0"] a(2) by simp
    moreover have "db' = db \<or> (handle_agent x codec io clock service route req m db = (reply, db') \<and> agent_method route (sr_method req))"
      using assms Some v Inr by (auto simp: serve_agent_def split: if_splits prod.splits)
    ultimately show thesis using admitted [OF a(1)] Some by blast
  qed
qed

section \<open>The router as a step relation\<close>

record 'm server =
  sv_db :: database
  sv_manager :: 'm
  sv_nonces :: nonce_cache
  sv_metrics :: api_metrics

text \<open>What is fixed while the server runs; \<open>ca_sign\<close> and \<open>ca_verify\<close> are the manager's certificate operations.\<close>

record ('m, 'v, 't) deployment =
  dp_app :: "('m, 'v, 't) ca_app"
  dp_bundle_config :: bundle_config
  dp_codec :: agent_codec
  dp_sign :: "(certificate_request \<Rightarrow> 'm \<Rightarrow> (ca_error, certificate_response) result \<times> 'm) option"
  dp_verify :: "(string \<Rightarrow> instant \<Rightarrow> 'm \<Rightarrow> (ca_error, certificate_validation) result) option"
  dp_version :: string
  dp_started_at :: instant

definition on_database :: "(database, 'a) handler \<Rightarrow> 'm server \<Rightarrow> 'm server" where
  "on_database h s = s\<lparr> sv_db := snd (h (sv_db s)) \<rparr>"

definition on_state :: "(database \<times> 'm, 'a) handler \<Rightarrow> 'm server \<Rightarrow> 'm server" where
  "on_state h s = (let (db, m) = snd (h (sv_db s, sv_manager s)) in s\<lparr> sv_db := db, sv_manager := m \<rparr>)"

definition manager_reads :: "('m, 'v, 't) deployment \<Rightarrow> 'm server \<Rightarrow> ca_reads option" where
  "manager_reads d s = map_option (\<lambda>mg. mg_reads mg (sv_manager s)) (app_manager (dp_app d))"

definition bundle_service_now :: "('m, 'v, 't) deployment \<Rightarrow> 'm server \<Rightarrow> bundle_service option" where
  "bundle_service_now d s = bundle_service_of (dp_app d) (sv_manager s)"

definition on_agents ::
  "externals \<Rightarrow> ('m, 'v, 't) deployment \<Rightarrow> (agent_io \<Rightarrow> bool) \<Rightarrow> (nat \<Rightarrow> instant) \<Rightarrow> signed_request \<Rightarrow> 'm server \<Rightarrow> 'm server" where
  "on_agents x d io clock req s =
     (let (_, db, c) = serve_agent x (dp_codec d) io clock (bundle_service_now d s) req (sv_db s, sv_nonces s)
      in s\<lparr> sv_db := db, sv_nonces := c \<rparr>)"

definition clocked :: "server_env \<Rightarrow> bool" where
  "clocked env \<longleftrightarrow> (\<forall>n. rfc3339_range (se_clock env n))"

text \<open>
  One request, on any route; \<open>env\<close> holds the clock readings and the configuration the request sees, \<open>io\<close> which of its statements
  fail.  The last rule is the middleware that counts a request when it ends.
\<close>

inductive server_step :: "externals \<Rightarrow> ('m, 'v, 't) deployment \<Rightarrow> 'm server \<Rightarrow> 'm server \<Rightarrow> bool"
  for x d where
  device_poll: "clocked env \<Longrightarrow> server_step x d s (on_database (device_poll x up env call body) s)"
| whoami: "clocked env \<Longrightarrow> server_step x d s (on_database (whoami x up env call selector) s)"
| issue: "clocked env \<Longrightarrow> server_step x d s (on_state (issue x cio env (dp_sign d) call creq) s)"
| validate: "server_step x d s (on_state (validate (dp_verify d) now certificate) s)"
| enroll: "rfc3339_range now \<Longrightarrow> rfc3339_range audited_at \<Longrightarrow> snd (enroll_handler x eio primary (dp_bundle_config d) jitter (app_signer (dp_app d)) uuid now audited_at ereq (sv_db s)) = db'
     \<Longrightarrow> server_step x d s (s\<lparr> sv_db := db' \<rparr>)"
| list_servers: "clocked env \<Longrightarrow> server_step x d s (on_database (list_servers_handler x up env provider token) s)"
| ca_generate: "clocked env \<Longrightarrow> server_step x d s (on_state (generate x io env (dp_app d) call gen) s)"
| ca_import: "clocked env \<Longrightarrow> server_step x d s (on_state (import_ca x io env (dp_app d) call imp) s)"
| ca_rotate: "clocked env \<Longrightarrow> server_step x d s (on_state (rotate x io env (dp_app d) call rot) s)"
| ca_list: "clocked env \<Longrightarrow> server_step x d s (on_state (list_cas x io env (dp_app d) call) s)"
| ca_stats: "clocked env \<Longrightarrow> server_step x d s (on_state (stats x io env (dp_app d) call) s)"
| ca_public_bundle: "clocked env \<Longrightarrow> server_step x d s (on_state (public_bundle_handler x io env (dp_app d) call) s)"
| ca_get: "clocked env \<Longrightarrow> server_step x d s (on_state (get_one x io env (dp_app d) call i) s)"
| ca_patch: "clocked env \<Longrightarrow> server_step x d s (on_state (patch x io env (dp_app d) call i p) s)"
| ca_delete: "clocked env \<Longrightarrow> server_step x d s (on_state (delete_ca x io env (dp_app d) call i force) s)"
| ca_public_key: "clocked env \<Longrightarrow> server_step x d s (on_state (export_public_key x io env (dp_app d) call i) s)"
| ca_enable: "clocked env \<Longrightarrow> server_step x d s (on_state (enable_ca x io env (dp_app d) call i) s)"
| ca_disable: "clocked env \<Longrightarrow> server_step x d s (on_state (disable_ca x io env (dp_app d) call i) s)"
| ca_retirement: "clocked env \<Longrightarrow> server_step x d s (on_state (retirement x io env (dp_app d) call i) s)"
| ca_retire: "clocked env \<Longrightarrow> server_step x d s (on_state (retire x io env (dp_app d) call i body') s)"
| bundle_status: "clocked env \<Longrightarrow> server_step x d s (on_state (bundle_status x io env (dp_app d) call) s)"
| mint_token: "clocked env \<Longrightarrow> server_step x d s (on_database (mint_enrollment_token x mio env call en mreq) s)"
| machine_list: "clocked env \<Longrightarrow> server_step x d s (on_database (list_machines x mio env call query) s)"
| machine_get: "clocked env \<Longrightarrow> server_step x d s (on_database (get_machine x mio env call i) s)"
| machine_delete: "clocked env \<Longrightarrow> server_step x d s (on_database (delete_machine x mio env call i) s)"
| machine_approve: "clocked env \<Longrightarrow> server_step x d s (on_database (approve x mio env call i) s)"
| machine_disable: "clocked env \<Longrightarrow> server_step x d s (on_database (disable x mio env call i) s)"
| machine_enable: "clocked env \<Longrightarrow> server_step x d s (on_database (enable x mio env call i) s)"
| machine_revoke: "clocked env \<Longrightarrow> server_step x d s (on_database (revoke x mio env call i) s)"
| machine_reenroll: "clocked env \<Longrightarrow> server_step x d s (on_database (reenroll x mio env call en i) s)"
| machine_rotate: "clocked env \<Longrightarrow> server_step x d s (on_database (rotate_identity x mio env call en i) s)"
| audit_search: "clocked env \<Longrightarrow> server_step x d s (on_database (audit_search_handler x oio env call params) s)"
| audit_stream: "clocked env \<Longrightarrow> server_step x d s (on_database (audit_stream_handler x oio env call params) s)"
| ops_health: "clocked env \<Longrightarrow> server_step x d s (on_state (health_handler x oio env (dp_app d) (dp_version d) (dp_started_at d) call) s)"
| ops_status: "clocked env \<Longrightarrow>
     server_step x d s (on_state (status_handler x oio env (dp_app d) (dp_version d) (dp_started_at d) (sv_metrics s) call) s)"
| ops_metrics: "clocked env \<Longrightarrow> server_step x d s (on_database (metrics_handler x oio env (sv_metrics s) call) s)"
| rollout_status: "clocked env \<Longrightarrow>
     server_step x d s (on_database (rollout_status_handler x rio env (manager_reads d s) (bundle_service_now d s) call) s)"
| rollout_generations: "clocked env \<Longrightarrow>
     server_step x d s (on_database (rollout_generations_handler x rio env (manager_reads d s) (bundle_service_now d s) call) s)"
| rollout_machines: "clocked env \<Longrightarrow>
     server_step x d s (on_database (rollout_machines_handler x rio env (manager_reads d s) (bundle_service_now d s) call state g) s)"
| rollout_stuck: "clocked env \<Longrightarrow>
     server_step x d s (on_database (rollout_stuck_handler x rio env (manager_reads d s) (bundle_service_now d s) call) s)"
| rollout_health: "clocked env \<Longrightarrow>
     server_step x d s (on_database (rollout_health_handler x rio env (manager_reads d s) (bundle_service_now d s) call) s)"
| rollout_explain: "clocked env \<Longrightarrow>
     server_step x d s (on_database (rollout_explain_handler x rio env (manager_reads d s) (bundle_service_now d s) call) s)"
| rollout_timeline: "clocked env \<Longrightarrow>
     server_step x d s (on_database (rollout_timeline_handler x rio env (manager_reads d s) (bundle_service_now d s) call limit) s)"
| rollout_history: "clocked env \<Longrightarrow>
     server_step x d s (on_database (rollout_history_handler x rio env (manager_reads d s) (bundle_service_now d s) call) s)"
| agents: "\<forall>n. rfc3339_range (clock n) \<Longrightarrow> server_step x d s (on_agents x d aio clock req s)"
| counted: "server_step x d s (s\<lparr> sv_metrics := record_metrics meth matched p status nanos (sv_metrics s) \<rparr>)"

text \<open>The health, readiness and device-start routes read the configuration only and have no step.\<close>

text \<open>The state that a start builds on a database; what is kept in memory starts empty.\<close>

definition boot :: "database \<Rightarrow> 'm \<Rightarrow> 'm server" where
  "boot db m = \<lparr> sv_db = db, sv_manager = m, sv_nonces = [], sv_metrics = new_metrics \<rparr>"

text \<open>
  The life of a deployment: requests, and restarts, at which the database stays, the nonces and statistics are lost and the
  manager is loaded anew.
\<close>

inductive server_reachable :: "externals \<Rightarrow> ('m, 'v, 't) deployment \<Rightarrow> 'm server \<Rightarrow> 'm server \<Rightarrow> bool"
  for x d s0 where
  start: "server_reachable x d s0 s0"
| next_step: "server_reachable x d s0 s \<Longrightarrow> server_step x d s s' \<Longrightarrow> server_reachable x d s0 s'"
| restart: "server_reachable x d s0 s \<Longrightarrow> server_reachable x d s0 (boot (sv_db s) m)"

definition server_inv :: "externals \<Rightarrow> 'm server \<Rightarrow> bool" where
  "server_inv x s \<longleftrightarrow> database_inv x (sv_db s) \<and> metrics_ok (sv_metrics s)"

lemma on_database_inv:
  "steps_within (inv_step x) h \<Longrightarrow> server_inv x s \<Longrightarrow> server_inv x (on_database h s)"
  by (simp add: server_inv_def on_database_def steps_within_def inv_step_def)

lemma on_state_inv:
  "steps_within (inv_step_db x) h \<Longrightarrow> server_inv x s \<Longrightarrow> server_inv x (on_state h s)"
  by (simp add: server_inv_def on_state_def steps_within_def inv_step_db_def inv_step_def Let_def split: prod.splits)
    (metis fst_conv snd_conv)

lemma steps_within_case_authz:
  "steps_within R g \<Longrightarrow> (\<And>r. steps_within R (f r)) \<Longrightarrow> steps_within R (case a of Allow \<Rightarrow> g | Deny r \<Rightarrow> f r)"
  by (cases a) simp_all

lemma issue_inv:
  assumes "json_contract x" "\<And>n. rfc3339_range (se_clock env n)"
  shows "steps_within (inv_step_db x) (issue x io env ca call request)"
proof -
  have groups: "json_wf (issued_metadata ident response (client_context x env ident call))" for ident response
    unfolding issued_metadata_def by (rule json_wf_json_object) (cases "id_realm ident"; auto)
  have reasons: "json_wf (json_object [(''reason'', JStr a), (''provider'', JStr b), (''subject'', JStr c)])" for a b c
    by (rule json_wf_json_object) simp
  have logs: "steps_within (inv_step_db x) (on_db (append_event x up (audit_now env) event))" if "json_wf (nae_metadata event)" for up event
    using that assms by (intro on_db_inv append_event_inv) (simp_all add: audit_now_def)
  show ?thesis
    unfolding issue_def
    by (intro ca_handler_inv steps_within_case_authz logs) (simp_all add: with_metadata_def with_subject_def new_entry_def groups reasons)
qed

lemma list_servers_inv: "steps_within (inv_step x) (list_servers_handler x up env provider token)"
  unfolding list_servers_handler_def by (intro handler_inv steps_within_case_authz)

section \<open>Every step keeps the invariant\<close>

lemma serve_agent_own_change:
  assumes inv: "database_inv x db" and x: "json_contract x" and t: "\<And>n. rfc3339_range (clock n)"
    and run: "serve_agent x codec io clock service req (db, c) = (reply, db', c')"
  shows "\<exists>i. own_change x i db db'
    \<and> (db' \<noteq> db \<longrightarrow> (\<exists>ts nonce m. authentic x (db_machines db) (clock 0) req i ts nonce m \<and> \<not> nonce_blocked c (i, nonce) (clock 0)))"
  using run
proof (cases rule: serve_agent_cases)
  case refused
  with own_change_refl [OF inv] show ?thesis by blast
next
  case (admitted mid ts nonce m)
  have mid: "m_machine_id m = mid"
    using admitted(1) inv sqlite_machines.by_id_Some_iff [of x "db_machines db" mid m] by (simp add: authentic_def database_inv_def)
  from admitted(3) have "own_change x (m_machine_id m) db db'"
    using own_change_refl [OF inv] handle_agent_own_change [where clock = clock, OF inv x t] by blast
  with mid admitted(1,2) show ?thesis by blast
qed

lemma on_agents_inv:
  assumes "json_contract x" "\<forall>n. rfc3339_range (clock n)" "server_inv x s"
  shows "server_inv x (on_agents x d io clock req s)"
proof -
  obtain reply db' c' where run: "serve_agent x (dp_codec d) io clock (bundle_service_now d s) req (sv_db s, sv_nonces s) = (reply, db', c')"
    by (metis prod.exhaust)
  have "database_inv x db'"
    using serve_agent_own_change [OF _ assms(1) _ run] assms(2,3) by (auto simp: server_inv_def own_change_def)
  with run assms(3) show ?thesis by (simp add: on_agents_def server_inv_def)
qed

lemma enroll_handler_inv:
  assumes "json_contract x" "database_inv x db" "rfc3339_range now" "rfc3339_range audited_at"
  shows "database_inv x (snd (enroll_handler x io primary cfg jitter signer uuid now audited_at rq db))"
  using assms enroll_inv [OF assms]
  by (auto simp: enroll_handler_def Let_def split: option.splits sum.splits) (metis prod.collapse)

lemmas endpoint_inv = lifecycle_inv mint_enrollment_token_inv read_only_inv rollout_handlers_inv ca_admin_inv ca_switch_inv
  ops_handlers_inv session_inv issue_inv

lemma server_step_inv:
  assumes "json_contract x" "server_step x d s s'" "server_inv x s"
  shows "server_inv x s'"
  using assms(2)
proof cases
  case (validate now certificate)
  have "steps_within (inv_step_db x) (Certificates.validate (dp_verify d) now certificate)"
    unfolding validate_def by (intro ca_handler_inv)
  with validate assms(3) show ?thesis by (simp add: on_state_inv)
next
  case (enroll now audited_at eio primary jitter uuid ereq db')
  with enroll_handler_inv [OF assms(1) _ enroll(2,3)] assms(3) show ?thesis by (auto simp: server_inv_def)
next
  case (counted meth matched p status nanos)
  with assms(3) show ?thesis by (simp add: server_inv_def record_metrics_def record_request_ok)
next
  case (agents clock aio req)
  with assms on_agents_inv show ?thesis by blast
next
  case (list_servers env up provider token)
  with assms(3) list_servers_inv show ?thesis by (simp add: on_database_inv)
qed (use assms in \<open>auto simp: clocked_def approve_def disable_def enable_def revoke_def reenroll_def rotate_identity_def
    intro!: on_database_inv on_state_inv endpoint_inv\<close>)

lemma boot_inv: "database_inv x db \<Longrightarrow> server_inv x (boot db m)"
  by (simp add: server_inv_def boot_def metrics_ok_def new_metrics_def)

lemma empty_database_inv: "rfc3339_contract x \<Longrightarrow> database_inv x empty_database"
  by (simp add: database_inv_def empty_database_def machines_inv_Nil log_intact_Nil tokens_unique_def)

lemma server_reachable_inv:
  assumes "json_contract x" "server_reachable x d s0 s" "server_inv x s0"
  shows "server_inv x s"
  using assms(2,3)
proof induction
  case (restart s m)
  then have "database_inv x (sv_db s)" by (simp add: server_inv_def)
  then show ?case by (rule boot_inv)
qed (auto intro: server_step_inv [OF assms(1)])

section \<open>Machines that are not active\<close>

definition not_active :: "externals \<Rightarrow> database \<Rightarrow> string \<Rightarrow> bool" where
  "not_active x db i \<longleftrightarrow> (\<forall>m. find_by_id x (db_machines db) i = Inr (Some m) \<longrightarrow> m_status m \<noteq> Active)"

lemma own_change_not_active: "own_change x j db db' \<Longrightarrow> not_active x db i \<Longrightarrow> not_active x db' i"
  unfolding own_change_def not_active_def
  by (elim conjE allE [of _ i]) (auto simp: same_identity_def split: sum.splits option.splits)

lemma serve_agent_not_active:
  assumes "not_active x db i" "header_is req HEADER_MACHINE_ID i"
    and "serve_agent x codec io clock service req (db, c) = (reply, db', c')"
  shows "db' = db \<and> turned_away reply"
  using assms(3)
proof (cases rule: serve_agent_cases)
  case (admitted mid ts nonce m)
  then have "mid = i" using header_is_unique [OF _ assms(2)] by (auto simp: authentic_def)
  with admitted(1) assms(1) show ?thesis by (auto simp: authentic_def not_active_def)
qed simp

text \<open>A sequence of requests on the agent routes, each with its faults, clock readings and bundle service.\<close>

record exchange =
  ex_io :: "agent_io \<Rightarrow> bool"
  ex_clock :: "nat \<Rightarrow> instant"
  ex_service :: "bundle_service option"
  ex_request :: signed_request

fun run_agents :: "externals \<Rightarrow> agent_codec \<Rightarrow> exchange list \<Rightarrow> database \<times> nonce_cache \<Rightarrow> agent_reply list \<times> database \<times> nonce_cache" where
  "run_agents x codec [] s = ([], s)"
| "run_agents x codec (e # es) s =
     (let (reply, s') = serve_agent x codec (ex_io e) (ex_clock e) (ex_service e) (ex_request e) s;
          (replies, s'') = run_agents x codec es s'
      in (reply # replies, s''))"

definition in_range :: "exchange \<Rightarrow> bool" where
  "in_range e \<longleftrightarrow> (\<forall>n. rfc3339_range (ex_clock e n))"

lemma run_agents_not_active:
  assumes "json_contract x" "database_inv x db" "not_active x db i" "list_all in_range es"
    and "run_agents x codec es (db, c) = (replies, db', c')"
  shows "not_active x db' i \<and> database_inv x db'
    \<and> list_all2 (\<lambda>e reply. header_is (ex_request e) HEADER_MACHINE_ID i \<longrightarrow> turned_away reply) es replies"
  using assms(2-5)
proof (induction es arbitrary: db c replies)
  case (Cons e es)
  obtain reply db1 c1 where one: "serve_agent x codec (ex_io e) (ex_clock e) (ex_service e) (ex_request e) (db, c) = (reply, db1, c1)"
    by (metis prod.exhaust)
  obtain rest where rest: "run_agents x codec es (db1, c1) = (rest, db', c')" "replies = reply # rest"
    using Cons.prems(4) one by (auto split: prod.splits)
  have t: "rfc3339_range (ex_clock e n)" for n using Cons.prems(3) by (simp add: in_range_def)
  obtain j where j: "own_change x j db db1" using serve_agent_own_change [where clock = "ex_clock e", OF Cons.prems(1) assms(1) t one] by blast
  then have "database_inv x db1" by (simp add: own_change_def)
  from Cons.IH [OF this own_change_not_active [OF j Cons.prems(2)] _ rest(1)] Cons.prems(3)
    serve_agent_not_active [OF Cons.prems(2) _ one] rest(2)
  show ?case by auto
qed simp

lemma on_machines_Inr:
  "on_machines f db = (Inr a, db') \<Longrightarrow> \<exists>tbl. f (db_machines db) = (Inr a, tbl) \<and> db' = db\<lparr> db_machines := tbl \<rparr>"
  by (auto simp: on_machines_def Let_def split: prod.splits sum.splits)

lemma delete_machine_not_active:
  assumes "database_inv x db" "delete_machine x io env call i db = (Inr r, db')"
  shows "not_active x db' i"
proof -
  from assms(2) obtain ident m db1 db2 u where g: "authorize_machine_admin x (io AdDenial) env call ''machine.delete'' db = (Inr ident, db1)"
    and del: "on_machines (\<lambda>tbl. admin_delete x (io AdFind) (io AdDelete) tbl i) db1 = (Inr m, db2)"
    and audit: "audit_machine x (io AdAudit) env call ident ''machine.deleted'' m [] db2 = (Inr u, db')"
    unfolding delete_machine_def hbind_Inr_iff by (auto simp: hreturn_def)
  have "db1 = db" using machine_gate.gate_passed [OF g] by blast
  with del obtain tbl where tbl: "admin_delete x (io AdFind) (io AdDelete) (db_machines db) i = (Inr m, tbl)"
      "db2 = db\<lparr> db_machines := tbl \<rparr>"
    by (auto dest: on_machines_Inr)
  have "find_by_id x tbl i = Inr None"
    by (rule admin_delete_outcome(5) [OF _ tbl(1)]) (use assms(1) in \<open>simp add: database_inv_def\<close>)
  moreover have "db_machines db' = tbl"
    using append_event_keeps [OF audit [unfolded audit_machine_def]] tbl(2) by simp
  ultimately show ?thesis by (simp add: not_active_def)
qed

lemma lifecycle_not_active:
  assumes "database_inv x db" "\<And>n. rfc3339_range (se_clock env n)"
    and "set_lifecycle x io env call i target action db = (Inr v, db')" "target \<noteq> Active"
  shows "not_active x db' i"
  using lifecycle_outcome [OF assms(1-3)] assms(4) by (auto simp: not_active_def)

end
