(* ===== verification/Schema.thy ===== *)
theory Schema
  imports Machines
begin

text \<open>
  The database schema and its migrations (\<^verbatim>\<open>db/mod.rs\<close>, \<^verbatim>\<open>db/migrations/*.sql\<close>).  A schema is the
  set of tables with their column names and, for the reconciliation of old audit tables, the number of rows, and the names of
  indexes and triggers with the table they belong to.  A script runs its statements one by one, each committed on its own, and
  stops at the first that fails; a statement or a query also fails when storage does.
\<close>

section \<open>Statements\<close>

record table_schema =
  ts_columns :: "string list"
  ts_rows :: nat

record schema =
  sm_tables :: "(string \<times> table_schema) list"
  sm_indexes :: "(string \<times> string) list"
  sm_triggers :: "(string \<times> string) list"

datatype ddl =
    CreateTable string "string list"
  | CreateIndex string string "string list"
  | CreateTrigger string string
  | AddColumn string string

definition empty_schema :: schema where
  "empty_schema = \<lparr> sm_tables = [], sm_indexes = [], sm_triggers = [] \<rparr>"

definition columns_of :: "schema \<Rightarrow> string \<Rightarrow> string list" where
  "columns_of s t = (case map_of (sm_tables s) t of Some d \<Rightarrow> ts_columns d | None \<Rightarrow> [])"

definition has_table :: "schema \<Rightarrow> string \<Rightarrow> bool" where
  "has_table s t \<longleftrightarrow> map_of (sm_tables s) t \<noteq> None"

definition has_column :: "schema \<Rightarrow> string \<Rightarrow> string \<Rightarrow> bool" where
  "has_column s t c \<longleftrightarrow> c \<in> set (columns_of s t)"

fun add_column :: "string \<Rightarrow> string \<Rightarrow> (string \<times> table_schema) list \<Rightarrow> (string \<times> table_schema) list" where
  "add_column t c [] = []"
| "add_column t c ((n, d) # rest) =
     (if n = t then (n, d\<lparr> ts_columns := ts_columns d @ [c] \<rparr>) # rest else (n, d) # add_column t c rest)"

text \<open>Every \<^verbatim>\<open>CREATE\<close> of the scripts is \<^verbatim>\<open>IF NOT EXISTS\<close>; tables and indexes share their names.\<close>

fun exec_ddl :: "ddl \<Rightarrow> schema \<Rightarrow> (sqlx_error, schema) result" where
  "exec_ddl (CreateTable t cols) s =
     (if has_table s t then Inr s
      else if map_of (sm_indexes s) t \<noteq> None then Inl (SqlDatabase (''there is already an index named '' @ t))
      else Inr (s\<lparr> sm_tables := (t, \<lparr> ts_columns = cols, ts_rows = 0 \<rparr>) # sm_tables s \<rparr>))"
| "exec_ddl (CreateIndex i t cols) s =
     (if map_of (sm_indexes s) i \<noteq> None then Inr s
      else if has_table s i then Inl (SqlDatabase (''there is already a table named '' @ i))
      else if \<not> has_table s t then Inl (SqlDatabase (''no such table: '' @ t))
      else if list_all (has_column s t) cols then Inr (s\<lparr> sm_indexes := (i, t) # sm_indexes s \<rparr>)
      else Inl (SqlDatabase ''no such column''))"
| "exec_ddl (CreateTrigger g t) s =
     (if map_of (sm_triggers s) g \<noteq> None then Inr s
      else if \<not> has_table s t then Inl (SqlDatabase (''no such table: '' @ t))
      else Inr (s\<lparr> sm_triggers := (g, t) # sm_triggers s \<rparr>))"
| "exec_ddl (AddColumn t c) s =
     (if \<not> has_table s t then Inl (SqlDatabase (''no such table: '' @ t))
      else if has_column s t c then Inl (SqlDatabase (''duplicate column name: '' @ c))
      else Inr (s\<lparr> sm_tables := add_column t c (sm_tables s) \<rparr>))"

definition drop_table :: "string \<Rightarrow> schema \<Rightarrow> schema" where
  "drop_table t s =
     s\<lparr> sm_tables := filter (\<lambda>(n, _). n \<noteq> t) (sm_tables s),
        sm_indexes := filter (\<lambda>(_, owner). owner \<noteq> t) (sm_indexes s),
        sm_triggers := filter (\<lambda>(_, owner). owner \<noteq> t) (sm_triggers s) \<rparr>"

fun run_script :: "(ddl \<Rightarrow> bool) \<Rightarrow> ddl list \<Rightarrow> schema \<Rightarrow> (sqlx_error, unit) result \<times> schema" where
  "run_script up [] s = (Inr (), s)"
| "run_script up (d # ds) s =
     (if \<not> up d then (Inl SqlIo, s)
      else case exec_ddl d s of
             Inl e \<Rightarrow> (Inl e, s)
           | Inr s' \<Rightarrow> run_script up ds s')"

section \<open>The scripts\<close>

definition AUDIT_LOG_MIGRATION :: "ddl list" where
  "AUDIT_LOG_MIGRATION =
     [CreateTable ''audit_log'' [''id'', ''chain_position'', ''event_type'', ''actor'', ''subject'', ''metadata'', ''recorded_at'',
        ''previous_hash'', ''canonical_json'', ''entry_hash''],
      CreateIndex ''idx_audit_log_chain_position'' ''audit_log'' [''chain_position''],
      CreateTrigger ''audit_log_no_update'' ''audit_log'',
      CreateTrigger ''audit_log_no_delete'' ''audit_log'']"

definition MACHINES_MIGRATION :: "ddl list" where
  "MACHINES_MIGRATION =
     [CreateTable ''machines'' [''machine_id'', ''hostname'', ''public_key'', ''os'', ''arch'', ''agent_version'', ''status'',
        ''last_seen'', ''enrolled_at'', ''created_at'', ''updated_at''],
      CreateIndex ''idx_machines_status'' ''machines'' [''status''],
      CreateTable ''machine_enrollment_tokens'' [''id'', ''token_hash'', ''created_at'', ''expires_at'', ''used_at'', ''created_by'',
        ''single_use''],
      CreateIndex ''idx_enrollment_tokens_hash'' ''machine_enrollment_tokens'' [''token_hash'']]"

definition MACHINE_PROTOCOL_MIGRATION :: "ddl list" where
  "MACHINE_PROTOCOL_MIGRATION =
     [AddColumn ''machines'' ''ip'', AddColumn ''machines'' ''current_generation'',
      CreateIndex ''idx_machines_last_seen'' ''machines'' [''last_seen'']]"

definition CA_BUNDLE_MIGRATION :: "ddl list" where
  "CA_BUNDLE_MIGRATION =
     [CreateTable ''ca_keys'' [''key_id'', ''public_key'', ''created_at'', ''generation'', ''enabled''],
      CreateTable ''ca_bundle_state'' [''id'', ''generation''],
      CreateIndex ''idx_ca_keys_enabled'' ''ca_keys'' [''enabled''],
      AddColumn ''machines'' ''synced_generation'', AddColumn ''machines'' ''bundle_fingerprint'',
      AddColumn ''machines'' ''last_sync'']"

definition CA_MANAGEMENT_MIGRATION :: "ddl list" where
  "CA_MANAGEMENT_MIGRATION =
     [CreateTable ''ca_authorities'' [''id'', ''key_id'', ''public_key'', ''fingerprint'', ''key_path'', ''enabled'', ''created_at'',
        ''enabled_at'', ''disabled_at'', ''last_used_at'', ''issued_certificates''],
      CreateIndex ''idx_ca_authorities_enabled'' ''ca_authorities'' [''enabled''],
      CreateTable ''ca_manager_state'' [''id'', ''generation'']]"

definition CA_RETIREMENT_MIGRATION :: "ddl list" where
  "CA_RETIREMENT_MIGRATION =
     [AddColumn ''ca_authorities'' ''disabled_generation'', AddColumn ''ca_authorities'' ''retired'',
      AddColumn ''ca_authorities'' ''retired_at'']"

definition AUDIT_INDEXES_MIGRATION :: "ddl list" where
  "AUDIT_INDEXES_MIGRATION =
     [CreateIndex ''idx_audit_log_event_type'' ''audit_log'' [''event_type''],
      CreateIndex ''idx_audit_log_actor'' ''audit_log'' [''actor''],
      CreateIndex ''idx_audit_log_subject'' ''audit_log'' [''subject''],
      CreateIndex ''idx_audit_log_recorded_at'' ''audit_log'' [''recorded_at'']]"

section \<open>Applying them\<close>

text \<open>What a run of the migrations asks of storage.\<close>

datatype mig_io = Runs ddl | DropsLegacy | AsksTable | AsksCurrent | CountsRows | AsksColumn string

type_synonym migration = "schema \<Rightarrow> (sqlx_error, unit) result \<times> schema"

definition mig_then :: "migration \<Rightarrow> migration \<Rightarrow> migration" where
  "mig_then f g = (\<lambda>s. case f s of (Inl e, s') \<Rightarrow> (Inl e, s') | (Inr _, s') \<Rightarrow> g s')"

definition apply_script :: "(mig_io \<Rightarrow> bool) \<Rightarrow> string \<Rightarrow> ddl list \<Rightarrow> migration" where
  "apply_script io name script s =
     (let (r, s') = run_script (io \<circ> Runs) script s
      in (map_err (\<lambda>e. SqlDatabase (''failed to apply '' @ name @ '': '' @ sqlx_display e)) r, s'))"

definition unless_column :: "(mig_io \<Rightarrow> bool) \<Rightarrow> string \<Rightarrow> string \<Rightarrow> migration \<Rightarrow> migration" where
  "unless_column io t c f s =
     (if \<not> io (AsksColumn c) then (Inl SqlIo, s)
      else if \<not> has_column s t c then f s
      else (Inr (), s))"

definition audit_log_is_current :: "schema \<Rightarrow> bool" where
  "audit_log_is_current s \<longleftrightarrow>
     length (filter (\<lambda>c. c \<in> set [''chain_position'', ''event_type'', ''canonical_json'']) (columns_of s ''audit_log'')) = 3"

definition audit_log_row_count :: "schema \<Rightarrow> nat" where
  "audit_log_row_count s = (case map_of (sm_tables s) ''audit_log'' of Some d \<Rightarrow> ts_rows d | None \<Rightarrow> 0)"

definition reconcile_legacy_audit_log :: "(mig_io \<Rightarrow> bool) \<Rightarrow> migration" where
  "reconcile_legacy_audit_log io s =
     (if \<not> io AsksTable then (Inl SqlIo, s)
      else if \<not> has_table s ''audit_log'' then (Inr (), s)
      else if \<not> io AsksCurrent then (Inl SqlIo, s)
      else if audit_log_is_current s then (Inr (), s)
      else if \<not> io CountsRows then (Inl SqlIo, s)
      else if audit_log_row_count s > 0
      then (Inl (SqlDatabase (''audit_log has an incompatible legacy schema and contains '' @ show_nat (audit_log_row_count s)
              @ '' row(s); refusing to drop it automatically '' @ [CHR 0xE2, CHR 0x80, CHR 0x94] @ '' migrate or remove the table manually'')), s)
      else if \<not> io DropsLegacy then (Inl SqlIo, s)
      else (Inr (), drop_table ''audit_log'' s))"

definition migrate :: "(mig_io \<Rightarrow> bool) \<Rightarrow> migration" where
  "migrate io =
     mig_then (reconcile_legacy_audit_log io)
    (mig_then (apply_script io ''audit_log schema migration'' AUDIT_LOG_MIGRATION)
    (mig_then (apply_script io ''machines schema migration'' MACHINES_MIGRATION)
    (mig_then (unless_column io ''machines'' ''ip'' (apply_script io ''machine protocol schema migration'' MACHINE_PROTOCOL_MIGRATION))
    (mig_then (unless_column io ''machines'' ''synced_generation'' (apply_script io ''CA bundle schema migration'' CA_BUNDLE_MIGRATION))
    (mig_then (apply_script io ''CA management schema migration'' CA_MANAGEMENT_MIGRATION)
    (mig_then (unless_column io ''ca_authorities'' ''retired'' (apply_script io ''CA retirement schema migration'' CA_RETIREMENT_MIGRATION))
       (apply_script io ''audit indexes migration'' AUDIT_INDEXES_MIGRATION)))))))"

section \<open>What a statement leaves behind\<close>

fun creates :: "ddl \<Rightarrow> bool" where
  "creates (AddColumn _ _) = False"
| "creates _ = True"

fun alters :: "string \<Rightarrow> ddl \<Rightarrow> bool" where
  "alters t (AddColumn t' _) = (t = t')"
| "alters t _ = False"

fun present :: "ddl \<Rightarrow> schema \<Rightarrow> bool" where
  "present (CreateTable t _) s = has_table s t"
| "present (CreateIndex i _ _) s = (map_of (sm_indexes s) i \<noteq> None)"
| "present (CreateTrigger g _) s = (map_of (sm_triggers s) g \<noteq> None)"
| "present (AddColumn t c) s = has_column s t c"

lemma map_of_add_column:
  "map_of (add_column t c ts) n =
     (if n = t then map_option (\<lambda>d. d\<lparr> ts_columns := ts_columns d @ [c] \<rparr>) (map_of ts t) else map_of ts n)"
  by (induction t c ts rule: add_column.induct) auto

lemmas schema_simps = has_table_def has_column_def columns_of_def map_of_add_column

lemma exec_ddl_present: "exec_ddl d s = Inr s' \<Longrightarrow> present d s'"
  by (cases d) (auto simp: schema_simps split: if_splits option.splits)

lemma exec_ddl_keeps: "exec_ddl d s = Inr s' \<Longrightarrow> present d' s \<Longrightarrow> present d' s'"
  by (cases d; cases d') (auto simp: schema_simps split: if_splits option.splits)

lemma exec_ddl_again: "creates d \<Longrightarrow> present d s \<Longrightarrow> exec_ddl d s = Inr s"
  by (cases d) auto

lemma exec_ddl_table:
  "exec_ddl d s = Inr s' \<Longrightarrow> \<not> alters t d \<Longrightarrow> map_of (sm_tables s) t = Some x \<Longrightarrow> map_of (sm_tables s') t = Some x"
  by (cases d) (auto simp: schema_simps split: if_splits)

lemma run_script_present:
  "run_script up ds s = (Inr u, s') \<Longrightarrow> (\<forall>d \<in> set ds. present d s') \<and> (\<forall>d. present d s \<longrightarrow> present d s')"
proof (induction up ds s rule: run_script.induct)
  case (2 up d ds s)
  from "2.prems" obtain s1 where "up d" "exec_ddl d s = Inr s1" "run_script up ds s1 = (Inr u, s')"
    by (auto split: if_splits sum.splits)
  with "2.IH" exec_ddl_present [of d s s1] exec_ddl_keeps [of d s s1] show ?case by auto
qed simp

lemma run_script_again:
  "\<forall>d \<in> set ds. creates d \<and> present d s \<Longrightarrow> run_script (\<lambda>_. True) ds s = (Inr (), s)"
  by (induction ds) (auto simp: exec_ddl_again)

lemma run_script_table:
  "\<forall>d \<in> set ds. \<not> alters t d \<Longrightarrow> map_of (sm_tables s) t = Some x \<Longrightarrow> map_of (sm_tables (snd (run_script up ds s))) t = Some x"
  by (induction up ds s rule: run_script.induct) (auto split: sum.splits dest: exec_ddl_table)

lemma run_script_faultless: "run_script up ds s = (Inr u, s') \<Longrightarrow> run_script (\<lambda>_. True) ds s = (Inr u, s')"
  by (induction up ds s rule: run_script.induct) (auto split: if_splits sum.splits)

section \<open>A run of the migrations\<close>

lemma mig_then_ok: "mig_then f g s = (Inr u, s') \<longleftrightarrow> (\<exists>s1. f s = (Inr (), s1) \<and> g s1 = (Inr u, s'))"
  by (auto simp: mig_then_def split: prod.splits sum.splits)

lemma apply_script_ok: "apply_script io name ds s = (Inr u, s') \<longleftrightarrow> run_script (io \<circ> Runs) ds s = (Inr u, s')"
  by (auto simp: apply_script_def split: prod.splits sum.splits)

text \<open>A migration that only extends the schema, keeps a table apart from the columns it is allowed to add, and does the same
  without faults as with faults that did not stop it.\<close>

definition extends :: "migration \<Rightarrow> migration \<Rightarrow> bool" where
  "extends f f0 \<longleftrightarrow> (\<forall>s s' u. f s = (Inr u, s') \<longrightarrow> f0 s = (Inr u, s') \<and> (\<forall>d. present d s \<longrightarrow> present d s'))"

definition spares :: "string \<Rightarrow> migration \<Rightarrow> bool" where
  "spares t f \<longleftrightarrow> (\<forall>s x. map_of (sm_tables s) t = Some x \<longrightarrow> map_of (sm_tables (snd (f s))) t = Some x)"

lemma extends_then: "extends f f0 \<Longrightarrow> extends g g0 \<Longrightarrow> extends (mig_then f g) (mig_then f0 g0)"
  unfolding extends_def mig_then_ok by blast

lemma extends_apply: "extends (apply_script io name ds) (apply_script (\<lambda>_. True) name ds)"
proof -
  have "(\<lambda>_. True) \<circ> Runs = (\<lambda>_. True)" by (simp add: fun_eq_iff)
  then show ?thesis
    unfolding extends_def apply_script_ok by (auto dest: run_script_faultless run_script_present)
qed

lemma extends_unless: "extends f f0 \<Longrightarrow> extends (unless_column io t c f) (unless_column (\<lambda>_. True) t c f0)"
  unfolding extends_def unless_column_def by (auto split: if_splits)

lemma spares_then: "spares t f \<Longrightarrow> spares t g \<Longrightarrow> spares t (mig_then f g)"
  unfolding spares_def mig_then_def by (auto split: prod.splits sum.splits) (metis snd_conv)+

lemma spares_apply: "\<forall>d \<in> set ds. \<not> alters t d \<Longrightarrow> spares t (apply_script io name ds)"
  unfolding spares_def apply_script_def by (auto split: prod.splits) (metis run_script_table snd_conv)

lemma spares_unless: "spares t f \<Longrightarrow> spares t (unless_column io t' c f)"
  unfolding spares_def unless_column_def by auto

lemmas migration_defs = AUDIT_LOG_MIGRATION_def MACHINES_MIGRATION_def MACHINE_PROTOCOL_MIGRATION_def CA_BUNDLE_MIGRATION_def
  CA_MANAGEMENT_MIGRATION_def CA_RETIREMENT_MIGRATION_def AUDIT_INDEXES_MIGRATION_def

lemma apply_script_present: "apply_script io name ds s = (Inr u, s') \<Longrightarrow> d \<in> set ds \<Longrightarrow> present d s'"
  by (auto simp: apply_script_ok dest: run_script_present)

lemma apply_script_again:
  assumes "\<forall>d \<in> set ds. creates d \<and> present d s"
  shows "apply_script (\<lambda>_. True) name ds s = (Inr (), s)"
  unfolding apply_script_ok comp_def by (rule run_script_again [OF assms])

lemma unless_column_present:
  "unless_column io t c (apply_script io name ds) s = (Inr u, s') \<Longrightarrow> AddColumn t c \<in> set ds \<Longrightarrow> present (AddColumn t c) s'"
  by (auto simp: unless_column_def dest: apply_script_present split: if_splits)

lemma unless_column_again: "present (AddColumn t c) s \<Longrightarrow> unless_column (\<lambda>_. True) t c f s = (Inr (), s)"
  by (simp add: unless_column_def)

lemma reconcile_ok:
  assumes "reconcile_legacy_audit_log io s = (Inr u, s')"
  shows "reconcile_legacy_audit_log (\<lambda>_. True) s = (Inr u, s')"
    and "has_table s' ''audit_log'' \<longrightarrow> audit_log_is_current s'"
  using assms
  by (auto simp: reconcile_legacy_audit_log_def drop_table_def has_table_def map_of_eq_None_iff split: if_splits)

lemma reconcile_rows: "audit_log_row_count s > 0 \<Longrightarrow> snd (reconcile_legacy_audit_log io s) = s"
  by (simp add: reconcile_legacy_audit_log_def)

lemma audit_table_created:
  assumes "exec_ddl (hd AUDIT_LOG_MIGRATION) s = Inr s1" and "has_table s ''audit_log'' \<longrightarrow> audit_log_is_current s"
  shows "has_table s1 ''audit_log'' \<and> audit_log_is_current s1"
proof (cases "has_table s ''audit_log''")
  case True
  with assms show ?thesis by (simp add: AUDIT_LOG_MIGRATION_def)
next
  case False
  with assms(1) obtain cols where "map_of (sm_tables s1) ''audit_log'' = Some \<lparr> ts_columns = cols, ts_rows = 0 \<rparr>"
    and cols: "CreateTable ''audit_log'' cols = hd AUDIT_LOG_MIGRATION"
    by (auto simp: AUDIT_LOG_MIGRATION_def split: if_splits)
  then have "has_table s1 ''audit_log''" "columns_of s1 ''audit_log'' = cols" by (simp_all add: schema_simps)
  moreover have "length (filter (\<lambda>c. c \<in> set [''chain_position'', ''event_type'', ''canonical_json'']) cols) = 3"
    using cols by (simp add: AUDIT_LOG_MIGRATION_def)
  ultimately show ?thesis by (simp only: audit_log_is_current_def)
qed

lemma audit_log_migration_current:
  assumes "apply_script io name AUDIT_LOG_MIGRATION s = (Inr u, s')"
    and "has_table s ''audit_log'' \<longrightarrow> audit_log_is_current s"
  shows "has_table s' ''audit_log'' \<and> audit_log_is_current s'"
proof -
  have script: "AUDIT_LOG_MIGRATION = hd AUDIT_LOG_MIGRATION # tl AUDIT_LOG_MIGRATION" by (simp add: AUDIT_LOG_MIGRATION_def)
  have "run_script (io \<circ> Runs) (hd AUDIT_LOG_MIGRATION # tl AUDIT_LOG_MIGRATION) s = (Inr u, s')"
    using assms(1) script by (simp only: apply_script_ok)
  then obtain s1 where s1: "exec_ddl (hd AUDIT_LOG_MIGRATION) s = Inr s1"
      "run_script (io \<circ> Runs) (tl AUDIT_LOG_MIGRATION) s1 = (Inr u, s')"
    by (auto split: if_splits sum.splits)
  note current = audit_table_created [OF s1(1) assms(2)]
  then obtain x where x: "map_of (sm_tables s1) ''audit_log'' = Some x" by (auto simp: has_table_def)
  have "\<forall>d \<in> set (tl AUDIT_LOG_MIGRATION). \<not> alters ''audit_log'' d" by (simp add: AUDIT_LOG_MIGRATION_def)
  from run_script_table [OF this x, of "io \<circ> Runs"] s1(2) have "map_of (sm_tables s') ''audit_log'' = Some x" by simp
  with x current show ?thesis by (simp add: audit_log_is_current_def has_table_def columns_of_def)
qed

text \<open>The stages after the audit log.\<close>

definition later_stages :: "(mig_io \<Rightarrow> bool) \<Rightarrow> migration" where
  "later_stages io =
     mig_then (apply_script io ''machines schema migration'' MACHINES_MIGRATION)
    (mig_then (unless_column io ''machines'' ''ip'' (apply_script io ''machine protocol schema migration'' MACHINE_PROTOCOL_MIGRATION))
    (mig_then (unless_column io ''machines'' ''synced_generation'' (apply_script io ''CA bundle schema migration'' CA_BUNDLE_MIGRATION))
    (mig_then (apply_script io ''CA management schema migration'' CA_MANAGEMENT_MIGRATION)
    (mig_then (unless_column io ''ca_authorities'' ''retired'' (apply_script io ''CA retirement schema migration'' CA_RETIREMENT_MIGRATION))
       (apply_script io ''audit indexes migration'' AUDIT_INDEXES_MIGRATION)))))"

lemma migrate_stages: "migrate io = mig_then (reconcile_legacy_audit_log io)
    (mig_then (apply_script io ''audit_log schema migration'' AUDIT_LOG_MIGRATION) (later_stages io))"
  by (simp add: migrate_def later_stages_def)

lemma later_stages_spare: "spares ''audit_log'' (later_stages io)"
  unfolding later_stages_def by (intro spares_then spares_unless spares_apply) (simp_all add: migration_defs)

lemma later_stages_extend: "extends (later_stages io) (later_stages (\<lambda>_. True))"
  unfolding later_stages_def by (intro extends_then extends_unless extends_apply)

lemma later_stages_again:
  assumes "later_stages io s = (Inr u, s')"
  shows "later_stages (\<lambda>_. True) s' = (Inr (), s')"
proof -
  from assms obtain s1 s2 s3 s4 s5 where run:
      "apply_script io ''machines schema migration'' MACHINES_MIGRATION s = (Inr (), s1)"
      "unless_column io ''machines'' ''ip'' (apply_script io ''machine protocol schema migration'' MACHINE_PROTOCOL_MIGRATION) s1 = (Inr (), s2)"
      "unless_column io ''machines'' ''synced_generation'' (apply_script io ''CA bundle schema migration'' CA_BUNDLE_MIGRATION) s2 = (Inr (), s3)"
      "apply_script io ''CA management schema migration'' CA_MANAGEMENT_MIGRATION s3 = (Inr (), s4)"
      "unless_column io ''ca_authorities'' ''retired'' (apply_script io ''CA retirement schema migration'' CA_RETIREMENT_MIGRATION) s4 = (Inr (), s5)"
      "apply_script io ''audit indexes migration'' AUDIT_INDEXES_MIGRATION s5 = (Inr u, s')"
    unfolding later_stages_def mig_then_ok by blast
  have k2: "present d s1 \<Longrightarrow> present d s2" and k3: "present d s2 \<Longrightarrow> present d s3" and k4: "present d s3 \<Longrightarrow> present d s4"
    and k5: "present d s4 \<Longrightarrow> present d s5" and k6: "present d s5 \<Longrightarrow> present d s'" for d
    using run(2-6) extends_unless [OF extends_apply] extends_apply unfolding extends_def by blast+
  note keep = k2 k3 k4 k5 k6
  have p: "d \<in> set MACHINES_MIGRATION \<Longrightarrow> present d s'" "d \<in> set CA_MANAGEMENT_MIGRATION \<Longrightarrow> present d s'"
    "d \<in> set AUDIT_INDEXES_MIGRATION \<Longrightarrow> present d s'" for d
    using keep apply_script_present run(1,4,6) by blast+
  have c: "present (AddColumn ''machines'' ''ip'') s2" "present (AddColumn ''machines'' ''synced_generation'') s3"
    "present (AddColumn ''ca_authorities'' ''retired'') s5"
    by (rule unless_column_present [OF run(2)] unless_column_present [OF run(3)] unless_column_present [OF run(5)],
        simp add: migration_defs)+
  have made: "\<forall>d \<in> set MACHINES_MIGRATION. creates d" "\<forall>d \<in> set CA_MANAGEMENT_MIGRATION. creates d"
    "\<forall>d \<in> set AUDIT_INDEXES_MIGRATION. creates d"
    by (simp_all add: migration_defs)
  have gates: "present (AddColumn ''machines'' ''ip'') s'" "present (AddColumn ''machines'' ''synced_generation'') s'"
    "present (AddColumn ''ca_authorities'' ''retired'') s'"
    using c keep by blast+
  show ?thesis
    unfolding later_stages_def mig_then_ok
    using p made gates by (metis apply_script_again unless_column_again)
qed

section \<open>Properties\<close>

definition full_schema :: schema where
  "full_schema = snd (migrate (\<lambda>_. True) empty_schema)"

definition all_statements :: "ddl list" where
  "all_statements = AUDIT_LOG_MIGRATION @ MACHINES_MIGRATION @ MACHINE_PROTOCOL_MIGRATION @ CA_BUNDLE_MIGRATION
     @ CA_MANAGEMENT_MIGRATION @ CA_RETIREMENT_MIGRATION @ AUDIT_INDEXES_MIGRATION"

lemma migrate_fresh: "migrate (\<lambda>_. True) empty_schema = (Inr (), full_schema)"
  "list_all (\<lambda>d. present d full_schema) all_statements"
  by code_simp+

lemma migrate_faultless: "migrate io s = (Inr u, s') \<Longrightarrow> migrate (\<lambda>_. True) s = (Inr u, s')"
  unfolding migrate_stages mig_then_ok
  using reconcile_ok(1) extends_apply later_stages_extend unfolding extends_def by blast

text \<open>
  C39. Migrations converge and lose nothing.  When a start-up has migrated the database, running the migrations again changes
  nothing and succeeds, whatever schema the first run found and although adding a column twice is an error; a first
  run on an empty database leaves every table, column, index and trigger of the seven scripts; and no run, not even one that
  fails half way, touches an audit table that has rows.
\<close>

theorem migrations_converge:
  assumes "migrate io s = (r, s')"
  shows "(r = Inr () \<longrightarrow> migrate (\<lambda>_. True) s' = (Inr (), s'))
    \<and> (r = Inr () \<and> s = empty_schema \<longrightarrow> (\<forall>d \<in> set all_statements. present d s'))
    \<and> (0 < audit_log_row_count s \<longrightarrow> map_of (sm_tables s') ''audit_log'' = map_of (sm_tables s) ''audit_log'')"
proof (intro conjI impI)
  assume "r = Inr ()"
  with assms obtain s1 s2 where run: "reconcile_legacy_audit_log io s = (Inr (), s1)"
      "apply_script io ''audit_log schema migration'' AUDIT_LOG_MIGRATION s1 = (Inr (), s2)" "later_stages io s2 = (Inr (), s')"
    unfolding migrate_stages by (auto simp: mig_then_ok)
  have s2: "has_table s2 ''audit_log'' \<and> audit_log_is_current s2"
    by (rule audit_log_migration_current [OF run(2) reconcile_ok(2) [OF run(1)]])
  then obtain x where "map_of (sm_tables s2) ''audit_log'' = Some x" by (auto simp: has_table_def)
  moreover from later_stages_spare this run(3) have "map_of (sm_tables s') ''audit_log'' = Some x"
    unfolding spares_def by (metis snd_conv)
  ultimately have "reconcile_legacy_audit_log (\<lambda>_. True) s' = (Inr (), s')"
    using s2 by (simp add: reconcile_legacy_audit_log_def audit_log_is_current_def has_table_def columns_of_def)
  moreover have "\<forall>d \<in> set AUDIT_LOG_MIGRATION. creates d \<and> present d s'"
  proof (intro ballI conjI)
    fix d assume d: "d \<in> set AUDIT_LOG_MIGRATION"
    then show "creates d" by (auto simp: AUDIT_LOG_MIGRATION_def)
    from later_stages_extend run(3) apply_script_present [OF run(2) d] show "present d s'" unfolding extends_def by blast
  qed
  ultimately show "migrate (\<lambda>_. True) s' = (Inr (), s')"
    unfolding migrate_stages mig_then_ok using apply_script_again later_stages_again [OF run(3)] by blast
next
  assume "r = Inr () \<and> s = empty_schema"
  with assms migrate_faultless have "migrate (\<lambda>_. True) empty_schema = (Inr (), s')" by blast
  then have "s' = full_schema" using migrate_fresh(1) by simp
  with migrate_fresh(2) show "\<forall>d \<in> set all_statements. present d s'" by (simp only: list_all_iff)
next
  assume rows: "0 < audit_log_row_count s"
  then obtain x where x: "map_of (sm_tables s) ''audit_log'' = Some x"
    by (auto simp: audit_log_row_count_def split: option.splits)
  have "spares ''audit_log'' (mig_then (apply_script io ''audit_log schema migration'' AUDIT_LOG_MIGRATION) (later_stages io))"
    by (intro spares_then later_stages_spare spares_apply) (simp add: AUDIT_LOG_MIGRATION_def)
  moreover obtain r0 where "reconcile_legacy_audit_log io s = (r0, s)" using reconcile_rows [OF rows] by (metis prod.collapse)
  ultimately show "map_of (sm_tables s') ''audit_log'' = map_of (sm_tables s) ''audit_log''"
    using assms x unfolding migrate_stages spares_def mig_then_def by (cases r0) (auto split: prod.splits, metis snd_conv)
qed

theorem migrations_converge_witness:
  "migrate (\<lambda>_. True) full_schema = (Inr (), full_schema) \<and> present (AddColumn ''machines'' ''last_sync'') full_schema"
proof -
  have "AddColumn ''machines'' ''last_sync'' \<in> set all_statements"
    by (simp add: all_statements_def CA_BUNDLE_MIGRATION_def)
  with migrations_converge [OF migrate_fresh(1)] show ?thesis by blast
qed

text \<open>
  The gates ask for one column of a script that adds several, and the statements commit one by one.  When storage fails between
  them, the next start-up skips the rest: the migration reports success and the column stays missing.
\<close>

definition interrupted_io :: "mig_io \<Rightarrow> bool" where
  "interrupted_io i \<longleftrightarrow> (case i of Runs d \<Rightarrow> (case d of AddColumn _ c \<Rightarrow> c \<noteq> ''current_generation'' | _ \<Rightarrow> True) | _ \<Rightarrow> True)"

lemma interrupted_migration:
  "\<exists>s' s''. fst (migrate interrupted_io empty_schema) \<noteq> Inr () \<and> s' = snd (migrate interrupted_io empty_schema)
     \<and> migrate (\<lambda>_. True) s' = (Inr (), s'') \<and> \<not> has_column s'' ''machines'' ''current_generation''"
proof -
  let ?s = "snd (migrate interrupted_io empty_schema)"
  have "fst (migrate interrupted_io empty_schema) \<noteq> Inr ()" by code_simp
  moreover have "fst (migrate (\<lambda>_. True) ?s) = Inr ()" by code_simp
  moreover have "\<not> has_column (snd (migrate (\<lambda>_. True) ?s)) ''machines'' ''current_generation''" by code_simp
  ultimately show ?thesis by (metis prod.collapse)
qed

end
