(* ===== verification/RegistryMap.thy ===== *)
theory RegistryMap
  imports Machines Instances
begin

text \<open>
  What the machine repository promises, without rows, text columns or statements: a finite map from identifiers to
  machines.  The table of text rows refines it, observation by observation.
\<close>

section \<open>The abstract registry\<close>

datatype registry_op =
    Admit new_machine
  | Seen heartbeat_update
  | SetStatus string machine_status instant
  | Remove string
  | LookUp string
  | LookUpHost string

datatype registry_obs = Admitted bool | Found bool | Answer "machine option" | Unreadable

type_synonym registry_map = "string \<rightharpoonup> machine"

definition taken :: "registry_map \<Rightarrow> new_machine \<Rightarrow> bool" where
  "taken \<sigma> n \<longleftrightarrow> (\<exists>m \<in> ran \<sigma>. m_machine_id m = nm_machine_id n \<or> m_hostname m = nm_hostname n \<or> m_public_key m = nm_public_key n)"

definition beaten :: "heartbeat_update \<Rightarrow> machine \<Rightarrow> machine" where
  "beaten u m = m\<lparr> m_last_seen := Some (trunc_ms (hu_now u)), m_updated_at := trunc_ms (hu_now u),
     m_agent_version := hu_agent_version u, m_ip := hu_ip u, m_current_generation := hu_current_generation u \<rparr>"

definition restated :: "machine_status \<Rightarrow> instant \<Rightarrow> machine \<Rightarrow> machine" where
  "restated s now m = m\<lparr> m_status := s, m_updated_at := trunc_ms now \<rparr>"

definition host_of :: "registry_map \<Rightarrow> string \<Rightarrow> machine option \<Rightarrow> bool" where
  "host_of \<sigma> h r \<longleftrightarrow> (case r of Some m \<Rightarrow> m \<in> ran \<sigma> \<and> m_hostname m = h | None \<Rightarrow> (\<forall>m \<in> ran \<sigma>. m_hostname m \<noteq> h))"

text \<open>One operation of the specification: which observations it allows, and the map after it.\<close>

inductive spec_op :: "registry_op \<Rightarrow> registry_map \<Rightarrow> registry_obs \<Rightarrow> registry_map \<Rightarrow> bool" where
  op_admit: "\<not> taken \<sigma> n \<Longrightarrow> spec_op (Admit n) \<sigma> (Admitted True) (\<sigma>(nm_machine_id n \<mapsto> stored_machine n))"
| op_refuse: "taken \<sigma> n \<Longrightarrow> spec_op (Admit n) \<sigma> (Admitted False) \<sigma>"
| op_seen: "k = hu_machine_id u \<Longrightarrow> spec_op (Seen u) \<sigma> (Found (k \<in> dom \<sigma>)) (\<sigma>(k := map_option (beaten u) (\<sigma> k)))"
| op_set_status: "spec_op (SetStatus k s now) \<sigma> (Found (k \<in> dom \<sigma>)) (\<sigma>(k := map_option (restated s now) (\<sigma> k)))"
| op_remove: "spec_op (Remove k) \<sigma> (Found (k \<in> dom \<sigma>)) (\<sigma>(k := None))"
| op_look_up: "spec_op (LookUp k) \<sigma> (Answer (\<sigma> k)) \<sigma>"
| op_look_up_host: "host_of \<sigma> h r \<Longrightarrow> spec_op (LookUpHost h) \<sigma> (Answer r) \<sigma>"

inductive spec_run :: "registry_op list \<Rightarrow> registry_map \<Rightarrow> registry_obs list \<Rightarrow> registry_map \<Rightarrow> bool" where
  finished: "spec_run [] \<sigma> [] \<sigma>"
| further: "spec_op op \<sigma> o1 \<sigma>1 \<Longrightarrow> spec_run ops \<sigma>1 os \<sigma>2 \<Longrightarrow> spec_run (op # ops) \<sigma> (o1 # os) \<sigma>2"

section \<open>The same operations on the table\<close>

definition answer :: "('e, machine option) result \<Rightarrow> registry_obs" where
  "answer r = (case r of Inr m \<Rightarrow> Answer m | Inl _ \<Rightarrow> Unreadable)"

fun table_op :: "externals \<Rightarrow> registry_op \<Rightarrow> machine_table \<Rightarrow> registry_obs \<times> machine_table" where
  "table_op x (Admit n) t = (case insert_machine x t n of Inl _ \<Rightarrow> (Admitted False, t) | Inr (_, t') \<Rightarrow> (Admitted True, t'))"
| "table_op x (Seen u) t = (let (found, t') = update_last_seen x t u in (Found found, t'))"
| "table_op x (SetStatus k s now) t = (let (found, t') = update_status x t k s now in (Found found, t'))"
| "table_op x (Remove k) t = (let (found, t') = delete_machine_row t k in (Found found, t'))"
| "table_op x (LookUp k) t = (answer (find_by_id x t k), t)"
| "table_op x (LookUpHost h) t = (answer (find_by_hostname x t h), t)"

fun table_run :: "externals \<Rightarrow> registry_op list \<Rightarrow> machine_table \<Rightarrow> registry_obs list \<times> machine_table" where
  "table_run x [] t = ([], t)"
| "table_run x (op # ops) t =
     (let (o1, t1) = table_op x op t; (os, t2) = table_run x ops t1 in (o1 # os, t2))"

fun op_in_range :: "registry_op \<Rightarrow> bool" where
  "op_in_range (Admit n) = rfc3339_range (nm_enrolled_at n)"
| "op_in_range (Seen u) = rfc3339_range (hu_now u)"
| "op_in_range (SetStatus _ _ now) = rfc3339_range now"
| "op_in_range _ = True"

section \<open>Refinement\<close>

definition machine_map :: "externals \<Rightarrow> machine_table \<Rightarrow> registry_map" where
  "machine_map x t k = find (\<lambda>m. m_machine_id m = k) (abs_machines x t)"

lemma ran_machine_map:
  assumes "machines_inv x t"
  shows "ran (machine_map x t) = set (abs_machines x t)"
proof -
  have "distinct (map m_machine_id (abs_machines x t))" using sqlite_machines.unique [OF assms] by blast
  then show ?thesis
    by (auto simp: ran_def machine_map_def dest: find_key_Some) (metis find_key_eq)
qed

lemma dom_machine_map: "k \<in> dom (machine_map x t) \<longleftrightarrow> k \<in> m_machine_id ` set (abs_machines x t)"
  by (auto simp: machine_map_def dom_def find_None_iff image_iff)

lemma taken_iff:
  assumes "machines_inv x t"
  shows "taken (machine_map x t) n \<longleftrightarrow> (\<exists>e. insert_machine x t n = Inl e)"
  by (auto simp: taken_def ran_machine_map [OF assms] sqlite_machines.ins_Inl [OF assms])

lemma machine_map_update:
  assumes "abs_machines x t' = update_where (\<lambda>m. m_machine_id m = k) f (abs_machines x t)"
    and "\<And>m. m_machine_id (f m) = m_machine_id m"
  shows "machine_map x t' = (machine_map x t)(k := map_option f (machine_map x t k))"
proof
  fix j
  have "find (\<lambda>m. m_machine_id m = j) (update_where (\<lambda>m. m_machine_id m = k) f ms) =
      (if j = k then map_option f (find (\<lambda>m. m_machine_id m = k) ms) else find (\<lambda>m. m_machine_id m = j) ms)" for ms
    using assms(2) by (induction ms) (auto simp: update_where_def)
  then show "machine_map x t' j = ((machine_map x t)(k := map_option f (machine_map x t k))) j"
    by (simp add: machine_map_def assms(1))
qed

lemma table_op_refines:
  assumes inv: "machines_inv x t" and r: "op_in_range op" and e: "table_op x op t = (obs, t')"
  shows "machines_inv x t' \<and> spec_op op (machine_map x t) obs (machine_map x t')"
proof (cases op)
  case (Admit n)
  show ?thesis
  proof (cases "insert_machine x t n")
    case (Inl err)
    with Admit e inv show ?thesis by (auto intro: op_refuse simp: taken_iff)
  next
    case (Inr p)
    with Admit e obtain m where p: "insert_machine x t n = Inr (m, t')" "obs = Admitted True" by (cases p) auto
    note ins = sqlite_machines.ins_Inr [OF inv _ p(1)]
    have range: "rfc3339_range (nm_enrolled_at n)" using r Admit by simp
    have free: "\<not> taken (machine_map x t) n" using p(1) by (simp add: taken_iff [OF inv])
    then have "machine_map x t (nm_machine_id n) = None"
      unfolding taken_def ran_machine_map [OF inv] by (auto simp: machine_map_def find_None_iff)
    then have "machine_map x t' = (machine_map x t)(nm_machine_id n \<mapsto> stored_machine n)"
      using ins [OF range]
      by (auto simp: machine_map_def fun_eq_iff find_append stored_machine_def inserted_machine_def split: option.split)
    with Admit p(2) free ins [OF range] show ?thesis by (auto intro: op_admit)
  qed
next
  case (Seen u)
  obtain found where u: "update_last_seen x t u = (found, t')" "obs = Found found" using Seen e by (auto split: prod.splits)
  have "rfc3339_range (hu_now u)" using r Seen by simp
  note s = sqlite_machines.seen [OF inv this u(1)]
  have "machine_map x t' = (machine_map x t)(hu_machine_id u := map_option (beaten u) (machine_map x t (hu_machine_id u)))"
    by (rule machine_map_update) (use s in \<open>simp_all add: beaten_def [abs_def]\<close>)
  moreover have "found \<longleftrightarrow> hu_machine_id u \<in> dom (machine_map x t)" unfolding dom_machine_map using s by blast
  ultimately show ?thesis using s Seen u(2) op_seen [OF refl, of u "machine_map x t"] by simp
next
  case (SetStatus k st now)
  obtain found where u: "update_status x t k st now = (found, t')" "obs = Found found" using SetStatus e by (auto split: prod.splits)
  have "rfc3339_range now" using r SetStatus by simp
  note s = sqlite_machines.set_status [OF inv this u(1)]
  have "machine_map x t' = (machine_map x t)(k := map_option (restated st now) (machine_map x t k))"
    by (rule machine_map_update) (use s in \<open>simp_all add: restated_def [abs_def]\<close>)
  moreover have "found \<longleftrightarrow> k \<in> dom (machine_map x t)" unfolding dom_machine_map using s by blast
  ultimately show ?thesis using s SetStatus u(2) op_set_status [of k st now "machine_map x t"] by simp
next
  case (Remove k)
  obtain found where u: "delete_machine_row t k = (found, t')" "obs = Found found" using Remove e by (auto split: prod.splits)
  note s = sqlite_machines.del [OF inv u(1)]
  have gone: "find (\<lambda>m. m_machine_id m = j) (filter (\<lambda>m. m_machine_id m \<noteq> k) ms) =
      (if j = k then None else find (\<lambda>m. m_machine_id m = j) ms)" for j and ms :: "machine list"
    by (induction ms) auto
  have "machine_map x t' = (machine_map x t)(k := None)"
    using s by (simp add: machine_map_def fun_eq_iff gone)
  moreover have "found \<longleftrightarrow> k \<in> dom (machine_map x t)" unfolding dom_machine_map using s by blast
  ultimately show ?thesis using s Remove u(2) op_remove [of k "machine_map x t"] by simp
next
  case (LookUp k)
  then have "obs = Answer (machine_map x t k)" "t' = t"
    using e by (auto simp: answer_def sqlite_machines.by_id [OF inv] machine_map_def)
  with LookUp inv show ?thesis by (auto intro: op_look_up)
next
  case (LookUpHost h)
  then have o1: "obs = Answer (find (\<lambda>m. m_hostname m = h) (abs_machines x t))" "t' = t"
    using e by (auto simp: answer_def sqlite_machines.by_hostname [OF inv])
  have "host_of (machine_map x t) h (find (\<lambda>m. m_hostname m = h) (abs_machines x t))"
    by (auto simp: host_of_def ran_machine_map [OF inv] find_None_iff dest: find_key_Some split: option.splits)
  with o1 LookUpHost inv show ?thesis by (auto intro: op_look_up_host)
qed

lemma table_run_refines:
  assumes "machines_inv x t" "list_all op_in_range ops" "table_run x ops t = (os, t')"
  shows "machines_inv x t' \<and> spec_run ops (machine_map x t) os (machine_map x t')"
  using assms
proof (induction ops arbitrary: t os)
  case Nil
  then show ?case by (auto intro: finished)
next
  case (Cons op ops)
  obtain o1 t1 os1 where run: "table_op x op t = (o1, t1)" "table_run x ops t1 = (os1, t')" "os = o1 # os1"
    using Cons.prems(3) by (auto split: prod.splits)
  have "machines_inv x t1 \<and> spec_op op (machine_map x t) o1 (machine_map x t1)"
    using Cons.prems run(1) by (intro table_op_refines) auto
  with Cons.IH [OF _ _ run(2)] Cons.prems(2) run(3) show ?case by (auto intro: further)
qed

text \<open>
  C21. The machine table refines a finite map.  Whatever admissions, heartbeats, status changes, removals and lookups are made of
  an empty table, in whatever order, every answer is one the map gives: a machine is admitted unless its identifier, host name
  or key is taken, a change reaches the machine it names and no other, and lookups return what was stored last, to the
  millisecond.  No lookup ever meets a row that cannot be read back.
\<close>

theorem machine_table_refines_map:
  assumes "rfc3339_contract x" "list_all op_in_range ops" "table_run x ops [] = (os, t)"
  shows "spec_run ops Map.empty os (machine_map x t) \<and> Unreadable \<notin> set os \<and> length os = length ops"
proof -
  have "machine_map x [] = Map.empty" by (simp add: machine_map_def abs_machines_def fun_eq_iff)
  then have run: "spec_run ops Map.empty os (machine_map x t)"
    using table_run_refines [OF machines_inv_Nil [OF assms(1)] assms(2,3)] by simp
  moreover have "Unreadable \<notin> set os \<and> length os = length ops" if "spec_run ops \<sigma> os \<sigma>'" for \<sigma> \<sigma>'
    using that by induction (auto elim: spec_op.cases)
  ultimately show ?thesis by blast
qed

definition demo_new :: "string \<Rightarrow> string \<Rightarrow> new_machine" where
  "demo_new i h = \<lparr> nm_machine_id = i, nm_hostname = h, nm_public_key = i, nm_os = ''linux'', nm_arch = ''x86_64'',
     nm_agent_version = ''0.1.0'', nm_status = Active, nm_enrolled_at = 0 \<rparr>"

definition demo_ops :: "registry_op list" where
  "demo_ops = [Admit (demo_new ''m1'' ''web''), Admit (demo_new ''m2'' ''web''), SetStatus ''m1'' Disabled 0, Remove ''m1'',
     Admit (demo_new ''m2'' ''web'')]"

theorem machine_table_refines_map_witness:
  "\<exists>t. table_run ref_externals demo_ops [] = ([Admitted True, Admitted False, Found True, Found True, Admitted True], t)
     \<and> spec_run demo_ops Map.empty [Admitted True, Admitted False, Found True, Found True, Admitted True]
         (machine_map ref_externals t)"
proof -
  have "list_all op_in_range demo_ops" by (simp add: demo_ops_def demo_new_def rfc3339_range_def seconds_def nanos_per_sec_def)
  moreover have run: "\<exists>t. table_run ref_externals demo_ops [] = ([Admitted True, Admitted False, Found True, Found True, Admitted True], t)"
    by (auto simp: demo_ops_def insert_machine_def machine_unique_violation_def inserted_row_def demo_new_def update_status_def
        delete_machine_row_def rows_affected_def update_where_def Let_def)
  ultimately show ?thesis using machine_table_refines_map [OF ref_rfc3339_contract] by blast
qed

end
