(* ===== verification/Spec2Isabelle.thy ===== *)
theory Spec2Isabelle
  imports Server Schema RegistryMap
begin

text \<open>
  Verification of the mayfly server, the service that enrolls machines, authenticates their agents, issues short-lived SSH
  certificates to authorized people, distributes the signed bundle of certificate authorities and keeps a hash-chained audit log
  of all of it.  Paths below are relative to \<^verbatim>\<open>src/src\<close>.

  \<^bold>\<open>Conventions.\<close>  Strings are lists of bytes, the UTF-8 encoding.  An instant is a number of nanoseconds (\<open>instant\<close>); a
  column of the database is text, so that reading a row parses it.  A fallible function returns \<open>('e, 'a) result\<close>, with \<open>Inl\<close> the
  error.  Each statement of storage has a boolean that says whether it succeeds, so that every theorem covers storage failing at
  any point.  A request handler is a state transformer that keeps the state it reached when it fails (\<open>Handlers\<close>), as each
  statement commits on its own; where the source opens a transaction (enrollment, appending to the audit log) the model returns
  the old tables on failure.  Integers that can wrap are words or are reduced modulo their width.

  \<^bold>\<open>Parameters.\<close>  SHA-256, Ed25519, base64, the JSON text form, RFC 3339 text and the SSH key parser belong to libraries: they are
  fields of \<open>externals\<close> in \<open>Externals\<close>, with named contracts for what the server relies on, and \<open>Instances\<close> proves the contracts
  of one executable instance, which the examples use.  The upstream HTTP calls of the providers, the layered configuration
  loader, the random sources, clock readings and body decoding are arguments.  The \<^verbatim>\<open>CaManager\<close> is named by \<^verbatim>\<open>ca/mod.rs\<close>, but
  its files are not in the tree: the manager is an abstract state with operations passed as arguments.

  \<^bold>\<open>Theories.\<close>
  \<^item> \<open>Prelude\<close>, \<open>TextOps\<close>, \<open>Externals\<close>, \<open>Instances\<close>, \<open>Float64\<close>, \<open>CanonicalJson\<close>: shared types, the parts of the Rust standard
    library the sources use, the libraries' contracts, rounding of doubles, and hand-written JSON with its injectivity
    (locale \<open>json_escaper\<close>).
  \<^item> \<open>Errors\<close> (\<^verbatim>\<open>errors.rs\<close>): the API error with status, code and message.
  \<^item> \<open>AuditLog\<close> (\<^verbatim>\<open>audit/{model,hash,verifier,repository,service}.rs\<close>): entries, their hash, the verifier and the appending
    service.  The verifier is exact, the log the service builds always verifies, and the events of a log that verifies are
    determined by its length and last hash, unless two named entries collide.
  \<^item> \<open>AuditQuery\<close>, \<open>RequestContext\<close> (\<^verbatim>\<open>audit/{query,context}.rs\<close>): search, counting, cursors and the recorded client context;
    following the cursor returns every match once.
  \<^item> \<open>Machines\<close> (\<^verbatim>\<open>machines/{models,validation,token,repository}.rs\<close>), \<open>RegistryMap\<close>: validation, rows and statements.  The locales
    \<open>machine_repository\<close> and \<open>token_repository\<close> say what clients rely on; the table of text rows refines a finite map.
  \<^item> \<open>Enrollment\<close> (\<^verbatim>\<open>machines/{service,errors}.rs\<close>): minting of tokens and the enrollment transaction; its soundness, atomicity
    on failure, single use of a token, and that a minted token works.
  \<^item> \<open>Registry\<close> (\<^verbatim>\<open>machines/{protocol,admin}.rs\<close>): heartbeats, liveness, lifecycle changes and listings.
  \<^item> \<open>AgentAuth\<close> (\<^verbatim>\<open>agentauth\<close>): the nonce cache (locale \<open>replay_guard\<close>), the signed string and the middleware; what it accepts
    exactly, and when a request can be accepted twice.
  \<^item> \<open>Access\<close>, \<open>Providers\<close> (\<^verbatim>\<open>authz\<close>, \<^verbatim>\<open>auth\<close>, \<^verbatim>\<open>github\<close>): identities, allowlists, the provider registry, the GitHub and OpenID
    Connect providers (locale \<open>identity_source\<close>); who is allowed, attribution of identities, token verification.
  \<^item> \<open>Handlers\<close>, \<open>AdminMachines\<close> (\<^verbatim>\<open>routes/{admin_machines,agent,servers}.rs\<close>): the administrators' gate (locale \<open>admin_gate\<close>,
    for its three copies) and the machine endpoints.
  \<^item> \<open>CaBundle\<close>, \<open>Distribution\<close> (\<^verbatim>\<open>cabundle\<close>, \<^verbatim>\<open>bundle\<close>, \<^verbatim>\<open>routes/ca_bundle.rs\<close>): the validated bundle and its fingerprint, the
    signed bundle, jitter, fleet status, assessment of retirement, and the agents' bundle endpoints.
  \<^item> \<open>Certificates\<close>, \<open>AdminCa\<close> (\<^verbatim>\<open>ca\<close>, \<^verbatim>\<open>routes/{certificates,admin}.rs\<close>): issuing and validating certificates, administration
    of authorities.
  \<^item> \<open>Rollout\<close>, \<open>Ops\<close> (\<^verbatim>\<open>rollout\<close>, \<^verbatim>\<open>ops\<close>, \<^verbatim>\<open>routes/{rollout,ops,health}.rs\<close>): the reports and their accounting, request metrics,
    health.
  \<^item> \<open>Sessions\<close> (\<^verbatim>\<open>routes/{auth,machines}.rs\<close>): the device flow, whoami and the enrollment endpoint.
  \<^item> \<open>Settings\<close> (\<^verbatim>\<open>config.rs\<close>, \<^verbatim>\<open>secret.rs\<close>, \<^verbatim>\<open>environment.rs\<close>, \<^verbatim>\<open>request_id.rs\<close>, parts of \<^verbatim>\<open>server.rs\<close> and \<^verbatim>\<open>main.rs\<close>):
    configuration and start-up decisions.
  \<^item> \<open>Schema\<close> (\<^verbatim>\<open>db\<close>): the migration scripts, statement by statement, and their gates.
  \<^item> \<open>Server\<close> (\<^verbatim>\<open>routes/mod.rs\<close>, \<^verbatim>\<open>state.rs\<close>): the agent routes behind the middleware and the router as a step relation with one
    rule for each route that touches shared state, and restarts.
  \<^item> This theory holds the properties of the whole: consistency of every reachable state, what an agent can change, and that
    cutting a machine off takes effect at once.

  \<^bold>\<open>Bounds.\<close>  All definitions are total and none takes fuel: every loop of the source runs over a list or is bounded by a
  constant.  Instants that are written to storage are assumed to lie in the range RFC 3339 text can express (\<open>rfc3339_range\<close>,
  years 0 to 9999).  Clock readings of the agents' middleware are assumed small enough for signed 64-bit seconds where a
  theorem says so.

  \<^bold>\<open>Hashes and signatures.\<close>  Digests and signatures are shorter than the messages they cover, so that some messages always share one.
  The statements about tampering, fingerprints and signatures therefore name the two documents that would have to collide, in terms of
  the given logs or bundles (\<open>sha256_collide\<close>, \<open>signs_both\<close>), and assume nothing about collisions.

  \<^bold>\<open>Not modelled.\<close>  A request is one step: statements of two requests are not interleaved.  Certificates and keys of the TLS
  listener, the loading of its PEM files included (\<^verbatim>\<open>tls.rs\<close>, \<^verbatim>\<open>dev_certs.rs\<close>), log subscribers (\<^verbatim>\<open>logging.rs\<close>), sockets, signals and the effects of start-up are input
  and output of libraries.  Matching of paths other than the agents', decoding of bodies and extraction of headers into typed
  values are the web framework's.  Module files and the test vectors hold no behaviour.  The manager of certificate
  authorities is not in the tree, as said above.
\<close>

section \<open>The server as a whole\<close>

text \<open>
  C6. Whatever requests arrive on whichever routes, in whatever order, whichever of their statements storage refuses, and however
  often the process is restarted, the server stays consistent.  At any time after the first start-up, on an empty database, the audit log verifies from its first to
  its last entry, identifiers, host names and keys of machines are pairwise different, so are the identifiers and hashes of enrollment
  tokens, every machine can be read back, and the request metrics stay bounded and add up.
\<close>

theorem server_always_consistent:
  assumes "json_contract x" "rfc3339_contract x" "server_reachable x d (boot empty_database m) s"
  shows "audit_verify x True (db_audit (sv_db s)) = Inr (Valid (length (db_audit (sv_db s))))
    \<and> distinct (map m_machine_id (abs_machines x (db_machines (sv_db s))))
    \<and> distinct (map m_hostname (abs_machines x (db_machines (sv_db s))))
    \<and> distinct (map m_public_key (abs_machines x (db_machines (sv_db s))))
    \<and> distinct (map tr_id (db_tokens (sv_db s))) \<and> distinct (map tr_token_hash (db_tokens (sv_db s)))
    \<and> (\<forall>i. \<exists>r. find_by_id x (db_machines (sv_db s)) i = Inr r)
    \<and> length (am_routes (sv_metrics s)) \<le> 257
    \<and> sum_list (map (\<lambda>p. rsc_count (snd p)) (am_routes (sv_metrics s))) = am_total_requests (sv_metrics s)"
proof -
  have inv: "machines_inv x (db_machines (sv_db s))" "tokens_unique (db_tokens (sv_db s))" "log_intact x (db_audit (sv_db s))"
    "metrics_ok (sv_metrics s)"
    using server_reachable_inv [OF assms(1,3) boot_inv [OF empty_database_inv [OF assms(2)]]] by (simp_all add: server_inv_def database_inv_def)
  then have "audit_verify x True (db_audit (sv_db s)) = Inr (Valid (length (db_audit (sv_db s))))"
    and "\<forall>i. \<exists>r. find_by_id x (db_machines (sv_db s)) i = Inr r"
    using audit_verify_intact sqlite_machines.by_id_total by blast+
  with inv sqlite_machines.unique [OF inv(1)] show ?thesis
    by (auto simp: tokens_unique_def metrics_ok_def MAX_ROUTES_def)
qed

definition demo_deployment :: "(nat, unit, unit) deployment" where
  "demo_deployment = \<lparr> dp_app = demo_app,
     dp_bundle_config = \<lparr> bc_sync_interval_seconds = 300, bc_jitter_percent = 10, bc_ttl_seconds = 3600, bc_signing_key_env = ''K'' \<rparr>,
     dp_codec = \<lparr> ac_heartbeat = (\<lambda>_. Some demo_heartbeat), ac_ack = (\<lambda>_. None), ac_header_value = (\<lambda>_. True) \<rparr>,
     dp_sign = None, dp_verify = None, dp_version = ''0.1.0'', dp_started_at = 0 \<rparr>"

theorem server_always_consistent_witness:
  "\<exists>s. server_reachable ref_externals demo_deployment (boot empty_database 0) s \<and> length (db_audit (sv_db s)) = 1
    \<and> audit_verify ref_externals True (db_audit (sv_db s)) = Inr (Valid 1)"
proof -
  let ?h = "whoami ref_externals True demo_env demo_call None"
  let ?s = "on_database ?h (boot empty_database (0 :: nat))"
  have step: "server_reachable ref_externals demo_deployment (boot empty_database 0) ?s"
    by (rule next_step [OF start]) (rule server_step.whoami, simp add: clocked_def demo_clocked)
  obtain p where p: "registry_resolve (se_registry demo_env) None = Inr p" "ap_fetch_identity p (hc_token demo_call) = Inr demo_authd"
    by (simp add: demo_env_def registry_resolve_def selected_id_def registry_get_def register_def new_registry_def
        github_provider_def GITHUB_PROVIDER_ID_def)
  note inv = empty_database_inv [OF ref_rfc3339_contract]
  have wf: "json_wf (json_object [(''provider'', JStr a), (''subject'', JStr b), (''client'', session_context ref_externals demo_env demo_call c)])"
    for a b c by (rule json_wf_json_object) (simp add: session_context_def)
  let ?e = "with_metadata (json_object [(''provider'', JStr (pm_id (ap_metadata p))), (''subject'', JStr (au_subject demo_authd)),
      (''client'', session_context ref_externals demo_env demo_call (pm_id (ap_metadata p)))]) (new_entry ''auth.identity_lookup'' (au_username demo_authd))"
  obtain db' where a: "append_event ref_externals True (audit_now demo_env) ?e empty_database = (Inr (), db')"
    by (rule append_event_ok [OF ref_json_contract inv, of ?e "audit_now demo_env"])
      (simp_all add: wf with_metadata_def audit_now_def demo_clocked)
  then have one: "length (db_audit db') = 1"
    by (cases rule: append_event_cases) (simp_all add: empty_database_def)
  have "sv_db ?s = db'"
    using p a by (simp add: on_database_def boot_def whoami_def hbind_def hlift_def hreturn_def Let_def)
  with one step server_always_consistent [OF ref_json_contract ref_rfc3339_contract step] show ?thesis by auto
qed

text \<open>
  C7. An agent acts for itself only.  Whatever request reaches the agent routes, at most one machine's record changes, and only if
  that machine, while Active, signed exactly this request inside the time window with a nonce not seen before.  Its identity,
  key, host name, status and enrollment date stay as the administrators left them, no machine appears or disappears, no
  enrollment token is touched and the audit log only grows.
\<close>

theorem agents_act_for_themselves:
  assumes "database_inv x db" "json_contract x" "\<And>n. rfc3339_range (clock n)"
    and "serve_agent x codec io clock service req (db, c) = (reply, db', c')"
  shows "\<exists>i. (db' \<noteq> db \<longrightarrow> (\<exists>ts nonce m. authentic x (db_machines db) (clock 0) req i ts nonce m \<and> \<not> nonce_blocked c (i, nonce) (clock 0)))
    \<and> db_tokens db' = db_tokens db \<and> (\<exists>rows. db_audit db' = db_audit db @ rows)
    \<and> (\<forall>j. find_by_id x (db_machines db) j = Inr None \<longrightarrow> find_by_id x (db_machines db') j = Inr None)
    \<and> (\<forall>j m. find_by_id x (db_machines db) j = Inr (Some m) \<longrightarrow>
         (\<exists>m'. find_by_id x (db_machines db') j = Inr (Some m') \<and> (m' \<noteq> m \<longrightarrow> j = i)
           \<and> m_machine_id m' = m_machine_id m \<and> m_status m' = m_status m \<and> m_public_key m' = m_public_key m
           \<and> m_hostname m' = m_hostname m \<and> m_enrolled_at m' = m_enrolled_at m))"
proof -
  obtain i where own: "own_change x i db db'"
    and signed: "db' \<noteq> db \<longrightarrow> (\<exists>ts nonce m. authentic x (db_machines db) (clock 0) req i ts nonce m \<and> \<not> nonce_blocked c (i, nonce) (clock 0))"
    using serve_agent_own_change [where clock = clock, OF assms] by blast
  have "find_by_id x (db_machines db') j = Inr None" if "find_by_id x (db_machines db) j = Inr None" for j
    using own [unfolded own_change_def, THEN conjunct2, THEN conjunct2, THEN conjunct2, rule_format, of j] that by simp
  moreover have "\<exists>m'. find_by_id x (db_machines db') j = Inr (Some m') \<and> same_identity m m' \<and> (m' \<noteq> m \<longrightarrow> j = i)"
    if "find_by_id x (db_machines db) j = Inr (Some m)" for j m
    using own [unfolded own_change_def, THEN conjunct2, THEN conjunct2, THEN conjunct2, rule_format, of j] that by simp
  ultimately show ?thesis
    using own signed by (intro exI [of _ i]) (fastforce simp: own_change_def same_identity_def)
qed

text \<open>A heartbeat of the machine of the examples, signed at second 0.\<close>

definition demo_exchange :: exchange where
  "demo_exchange = \<lparr> ex_io = (\<lambda>_. True), ex_clock = (\<lambda>_. 0), ex_service = None,
     ex_request = agent_request ref_externals demo_seed ''srv_1'' 0 ''n1'' ''POST'' ''/api/v1/agent/heartbeat'' [] \<rparr>"

lemma demo_exchange_authentic:
  "authentic ref_externals (db_machines demo_database) 0 (ex_request demo_exchange) ''srv_1'' 0 ''n1'' demo_machine"
  unfolding demo_exchange_def exchange.simps
  by (rule agent_request_authentic [OF ref_ed25519_contract ref_base64_contract _ demo_database_found demo_found(2) demo_line_key])
    (simp_all add: demo_seed_def in_i64_def timestamp_def MAX_SIGNED_BODY_BYTES_def is_visible_ascii_def char_code_def)

lemma demo_exchange_routed:
  "agent_route_of (sr_path (ex_request demo_exchange)) = Some HeartbeatRoute" "sr_method (ex_request demo_exchange) = ''POST''"
  by (simp_all add: demo_exchange_def agent_request_def agent_route_of_def API_V1_def)

lemma demo_exchange_beat:
  obtains resp tbl c' where "serve_agent ref_externals (dp_codec demo_deployment) (ex_io demo_exchange) (ex_clock demo_exchange) None
    (ex_request demo_exchange) (demo_database, []) = (Beat resp, demo_database\<lparr> db_machines := tbl \<rparr>, c')"
proof -
  obtain res tbl where r: "record_heartbeat ref_externals True (db_machines demo_database) ''srv_1'' demo_heartbeat 0 = (res, tbl)"
    by force
  have "res \<noteq> Inl e" for e
    using r by (auto simp: record_heartbeat_def demo_heartbeat_valid update_last_seen_def demo_database_def demo_tbl_def
        inserted_row_def rows_affected_def Let_def)
  then obtain resp where resp: "res = Inr resp" by (cases res) auto
  have "m_machine_id demo_machine = ''srv_1''" by (simp add: demo_machine_def stored_machine_def inserted_machine_def)
  moreover have "\<not> nonce_blocked [] (''srv_1'', ''n1'') 0" by (simp add: nonce_blocked_iff)
  moreover have "ex_io demo_exchange = (\<lambda>_. True)" "ex_clock demo_exchange = (\<lambda>_. 0)" by (simp_all add: demo_exchange_def)
  ultimately show thesis
    using that [of resp tbl] r resp authentic_accepted [OF demo_exchange_authentic, of "[]"]
    by (simp add: serve_agent_def demo_exchange_routed demo_deployment_def reply_with_def heartbeat_def)
qed

theorem agents_act_for_themselves_witness:
  "\<exists>resp db' c' m'. serve_agent ref_externals (dp_codec demo_deployment) (ex_io demo_exchange) (ex_clock demo_exchange) None
      (ex_request demo_exchange) (demo_database, []) = (Beat resp, db', c')
    \<and> find_by_id ref_externals (db_machines db') ''srv_1'' = Inr (Some m') \<and> m_public_key m' = m_public_key demo_machine
    \<and> find_by_id ref_externals (db_machines db') ''srv_2'' = Inr None"
proof -
  obtain resp tbl c' where r: "serve_agent ref_externals (dp_codec demo_deployment) (ex_io demo_exchange) (ex_clock demo_exchange) None
    (ex_request demo_exchange) (demo_database, []) = (Beat resp, demo_database\<lparr> db_machines := tbl \<rparr>, c')"
    by (rule demo_exchange_beat)
  have t: "rfc3339_range (ex_clock demo_exchange n)" for n by (simp add: demo_exchange_def demo_times)
  have "find_by_id ref_externals (db_machines demo_database) ''srv_2'' = Inr None"
    by (simp add: demo_database_def demo_tbl_def inserted_row_def find_by_id_def find_machine_def Let_def)
  with r demo_database_found
    agents_act_for_themselves [where clock = "ex_clock demo_exchange", OF demo_database_inv ref_json_contract t r]
  show ?thesis by fastforce
qed

text \<open>
  C8. Cutting a machine off takes effect at once.  After an administrator has disabled, revoked or deleted a machine, every request
  that carries its identifier is turned away by the agent routes, whoever signed it and however the requests of the other
  agents are interleaved, and none of those requests makes the machine Active again.
\<close>

theorem cut_off_at_once:
  assumes "json_contract x" "database_inv x db" "\<And>n. rfc3339_range (se_clock env n)"
    and "(\<exists>v. disable x io env call i db = (Inr v, db1)) \<or> (\<exists>v. revoke x io env call i db = (Inr v, db1))
      \<or> (\<exists>r. delete_machine x io env call i db = (Inr r, db1))"
    and "list_all in_range es" "run_agents x codec es (db1, c) = (replies, db2, c')"
  shows "list_all2 (\<lambda>e reply. header_is (ex_request e) HEADER_MACHINE_ID i \<longrightarrow> turned_away reply) es replies
    \<and> (\<forall>m. find_by_id x (db_machines db2) i = Inr (Some m) \<longrightarrow> m_status m \<noteq> Active)"
proof -
  have "not_active x db1 i"
    using assms(4) lifecycle_not_active [OF assms(2,3)] delete_machine_not_active [OF assms(2)]
    by (auto simp: disable_def revoke_def)
  moreover have "database_inv x (snd (set_lifecycle x io env call i target action db))"
    "database_inv x (snd (delete_machine x io env call i db))" for target action
    using lifecycle_inv(1,2) [where env = env, OF assms(1,3)] assms(2) unfolding steps_within_def inv_step_def by blast+
  then have "database_inv x db1"
    using assms(4) unfolding disable_def revoke_def by (metis snd_conv)
  ultimately show ?thesis
    using run_agents_not_active [OF assms(1) _ _ assms(5,6)] by (simp add: not_active_def)
qed

theorem cut_off_at_once_witness:
  "\<exists>v db1 reply db2 c2. revoke ref_externals (\<lambda>_. True) demo_env demo_call ''srv_1'' demo_database = (Inr v, db1)
    \<and> run_agents ref_externals (dp_codec demo_deployment) [demo_exchange] (db1, []) = ([reply], db2, c2) \<and> turned_away reply"
proof -
  obtain ident where i: "resolve_identity (se_registry demo_env) (se_access demo_env) None (hc_token demo_call) = Inr ident"
    "is_allowed (authorize ref_externals (se_access demo_env) ident)" "id_username ident = ''ann''"
    by (rule demo_admin)
  obtain v db1 where v: "revoke ref_externals (\<lambda>_. True) demo_env demo_call ''srv_1'' demo_database = (Inr v, db1)"
    using lifecycle_succeeds [OF ref_json_contract demo_database_inv demo_clocked i(1,2) demo_database_found]
    unfolding revoke_def by (metis prod.collapse)
  obtain reply db2 c2 where r: "run_agents ref_externals (dp_codec demo_deployment) [demo_exchange] (db1, []) = ([reply], db2, c2)"
    by (cases "serve_agent ref_externals (dp_codec demo_deployment) (ex_io demo_exchange) (ex_clock demo_exchange)
        (ex_service demo_exchange) (ex_request demo_exchange) (db1, [])") (auto simp: Let_def)
  have "header_is (ex_request demo_exchange) HEADER_MACHINE_ID ''srv_1''"
    using demo_exchange_authentic by (simp add: authentic_def)
  moreover have "list_all in_range [demo_exchange]" by (simp add: in_range_def demo_exchange_def demo_times)
  ultimately have "turned_away reply"
    using cut_off_at_once [where es = "[demo_exchange]" and io = "\<lambda>_. True" and call = demo_call and i = "''srv_1''", OF ref_json_contract demo_database_inv demo_clocked _ _ r] v by simp
  with v r show ?thesis by blast
qed

end
